(* ===== verification/Prelude.thy ===== *)
theory Prelude
  imports Main
begin

text \<open>
  Shared vocabulary of the development: the types that name Go's values, the collections of
  rewrite rules the component theories fill, the wrap-around of Go's 64-bit integers, and the
  generic lemmas on lists and association lists that several components use.

  A Go \<open>string\<close> and a Go \<open>[]byte\<close> are both lists of bytes and both are
  \<^typ>\<open>char list\<close> here. A nil-able pointer is an \<open>option\<close>. A Go \<open>map\<close> that is iterated
  is an association list with distinct keys; one that is only read and written by key is a HOL map.
\<close>

section \<open>Types\<close>

type_synonym bytes = string

section \<open>Rule collections\<close>

named_theorems err_simps \<open>how the predicates on error chains act on each constructor\<close>
named_theorems step_defs \<open>the definitions of the step tools\<close>
named_theorems frame_simps \<open>what an operation leaves unchanged\<close>

section \<open>Machine integers\<close>

text \<open>Go's \<open>int64\<close> arithmetic wraps around; \<open>wrap64\<close> is the two's complement reading.\<close>

definition wrap64 :: "int \<Rightarrow> int" where
  "wrap64 x = (x + 2 ^ 63) mod 2 ^ 64 - 2 ^ 63"

definition is_int64 :: "int \<Rightarrow> bool" where
  "is_int64 x \<longleftrightarrow> - (2 ^ 63) \<le> x \<and> x < 2 ^ 63"

lemma wrap64_id [simp]: "is_int64 x \<Longrightarrow> wrap64 x = x"
  by (simp add: wrap64_def is_int64_def)

lemma is_int64_wrap64 [simp]: "is_int64 (wrap64 x)"
  by (simp add: wrap64_def is_int64_def pos_mod_bound [of "2 ^ 64"] algebra_simps)

lemma wrap64_add_left [simp]: "wrap64 (wrap64 a + b) = wrap64 (a + b)"
proof -
  have "(wrap64 a + b + 2 ^ 63) mod 2 ^ 64 = ((a + 2 ^ 63) mod 2 ^ 64 + b) mod 2 ^ 64"
    by (simp add: wrap64_def)
  also have "\<dots> = ((a + 2 ^ 63) + b) mod 2 ^ 64"
    by (rule mod_add_left_eq)
  also have "\<dots> = (a + b + 2 ^ 63) mod 2 ^ 64"
    by (simp add: algebra_simps)
  finally show ?thesis by (simp add: wrap64_def)
qed

lemma wrap64_diff_left [simp]: "wrap64 (wrap64 a - b) = wrap64 (a - b)"
  using wrap64_add_left [of a "- b"] by simp

section \<open>Lists\<close>

fun find_first :: "('a \<Rightarrow> 'b option) \<Rightarrow> 'a list \<Rightarrow> 'b option" where
  "find_first f [] = None"
| "find_first f (x # xs) = (case f x of Some y \<Rightarrow> Some y | None \<Rightarrow> find_first f xs)"

lemma find_first_cong [fundef_cong]:
  "xs = ys \<Longrightarrow> (\<And>x. x \<in> set ys \<Longrightarrow> f x = g x) \<Longrightarrow> find_first f xs = find_first g ys"
  by (induction ys arbitrary: xs) (auto split: option.splits)

lemma find_first_None_iff: "find_first f xs = None \<longleftrightarrow> (\<forall>x \<in> set xs. f x = None)"
  by (induction xs) (auto split: option.splits)

lemma find_first_Some: "find_first f xs = Some y \<Longrightarrow> \<exists>x \<in> set xs. f x = Some y"
  by (induction xs) (auto split: option.splits)

text \<open>A prefix test that returns the rest, as Go's \<open>strings.CutPrefix\<close> does.\<close>

fun cut_prefix :: "'a list \<Rightarrow> 'a list \<Rightarrow> 'a list option" where
  "cut_prefix [] ys = Some ys"
| "cut_prefix (x # xs) [] = None"
| "cut_prefix (x # xs) (y # ys) = (if x = y then cut_prefix xs ys else None)"

lemma cut_prefix_append [simp]: "cut_prefix p (p @ r) = Some r"
  by (induction p) auto

lemma cut_prefix_SomeD: "cut_prefix p s = Some r \<Longrightarrow> s = p @ r"
  by (induction p s rule: cut_prefix.induct) (auto split: if_splits)

lemma takeWhile_append_stop [simp]:
  "\<forall>x \<in> set xs. P x \<Longrightarrow> \<not> P y \<Longrightarrow> takeWhile P (xs @ y # ys) = xs"
  by (simp add: takeWhile_append2)

lemma dropWhile_append_stop [simp]:
  "\<forall>x \<in> set xs. P x \<Longrightarrow> \<not> P y \<Longrightarrow> dropWhile P (xs @ y # ys) = y # ys"
  by (simp add: dropWhile_append2)

lemma map_le_SomeD: "m \<subseteq>\<^sub>m m' \<Longrightarrow> m k = Some v \<Longrightarrow> m' k = Some v"
  by (metis domI map_le_def)

section \<open>Transition systems\<close>

text \<open>An inductive invariant holds in every state a run reaches.\<close>

locale inductive_invariant =
  fixes start :: "'s \<Rightarrow> bool" and step :: "'s \<Rightarrow> 's \<Rightarrow> bool" and inv :: "'s \<Rightarrow> bool"
  assumes start_inv: "start s \<Longrightarrow> inv s"
    and step_inv: "inv s \<Longrightarrow> step s t \<Longrightarrow> inv t"
begin

lemma run_inv: "step\<^sup>*\<^sup>* s t \<Longrightarrow> inv s \<Longrightarrow> inv t"
  by (induction rule: rtranclp_induct) (auto intro: step_inv)

lemma reached_inv: "start s \<Longrightarrow> step\<^sup>*\<^sup>* s t \<Longrightarrow> inv t"
  by (blast intro: run_inv start_inv)

end

text \<open>A system whose steps decrease a measure ends, and it ends in a good state when only such states are stuck.\<close>

locale terminating_system = inductive_invariant +
  fixes weight :: "'s \<Rightarrow> nat" and final :: "'s \<Rightarrow> bool"
  assumes step_weight: "inv s \<Longrightarrow> step s t \<Longrightarrow> weight t < weight s"
    and stuck_final: "inv s \<Longrightarrow> (\<And>t. \<not> step s t) \<Longrightarrow> final s"
begin

lemma run_length: "(step ^^ n) s t \<Longrightarrow> inv s \<Longrightarrow> n + weight t \<le> weight s"
proof (induction n arbitrary: t)
  case (Suc n)
  then obtain u where u: "(step ^^ n) s u" "step u t" by auto
  then have "inv u" using run_inv [of s u] Suc.prems(2) by (simp add: relpowp_imp_rtranclp)
  with Suc.IH [OF u(1) Suc.prems(2)] step_weight [OF _ u(2)] show ?case by simp
qed simp

lemma reaches_final: "inv s \<Longrightarrow> \<exists>t. step\<^sup>*\<^sup>* s t \<and> final t"
proof (induction "weight s" arbitrary: s rule: less_induct)
  case less
  show ?case
  proof (cases "\<exists>t. step s t")
    case True
    then obtain t where t: "step s t" by blast
    with less.hyps [OF step_weight [OF less.prems t] step_inv [OF less.prems t]] show ?thesis
      by (meson converse_rtranclp_into_rtranclp)
  qed (use stuck_final [OF less.prems] in blast)
qed

end

text \<open>A system seen through an abstraction: every step is a step of the abstract system or is not seen there.\<close>

locale simulation =
  fixes step :: "'s \<Rightarrow> 's \<Rightarrow> bool" and astep :: "'a \<Rightarrow> 'a \<Rightarrow> bool" and abstr :: "'s \<Rightarrow> 'a"
  assumes simulates: "step s t \<Longrightarrow> abstr t = abstr s \<or> astep (abstr s) (abstr t)"
begin

lemma run_simulates: "step\<^sup>*\<^sup>* s t \<Longrightarrow> astep\<^sup>*\<^sup>* (abstr s) (abstr t)"
proof (induction rule: rtranclp_induct)
  case (step t u)
  from simulates [OF step.hyps(2)] step.IH show ?case by (metis rtranclp.rtrancl_into_rtrancl)
qed simp

end

text \<open>Sums in which one summand changes.\<close>

lemma sum_change:
  fixes f g :: "nat \<Rightarrow> 'a :: comm_monoid_add"
  assumes "i < n" "\<And>j. j < n \<Longrightarrow> j \<noteq> i \<Longrightarrow> g j = f j"
  shows "(\<Sum>j<n. g j) + f i = (\<Sum>j<n. f j) + g i"
proof -
  have "(\<Sum>j\<in>{..<n} - {i}. g j) = (\<Sum>j\<in>{..<n} - {i}. f j)" using assms(2) by (intro sum.cong) auto
  with assms(1) show ?thesis using sum.remove [of "{..<n}" i f] sum.remove [of "{..<n}" i g] by (simp add: ac_simps)
qed

end
