(* ===== verification/GoStd.thy ===== *)
theory GoStd
  imports Prelude
begin

text \<open>
  The parts of Go's standard library the SDK's logic rests on, written out as executable
  functions: decimal and hexadecimal text (\<open>strconv\<close>, \<open>encoding/hex\<close>), query strings
  (\<open>net/url\<close>: \<open>ParseQuery\<close>, \<open>QueryEscape\<close>, \<open>Values.Get/Set/Del/Encode\<close>) and time
  (\<open>time.Time\<close> as 64-bit seconds since year 1 with nanoseconds, \<open>Sub\<close> saturating). The lemmas are
  the round trips that signatures and function URLs need.
\<close>

section \<open>Bytes and digits\<close>

definition byte :: "char \<Rightarrow> nat" where
  "byte c = of_char c"

definition byte_chr :: "nat \<Rightarrow> char" where
  "byte_chr n = char_of n"

lemma byte_byte_chr [simp]: "byte (byte_chr n) = n mod 256"
  by (simp add: byte_def byte_chr_def)

lemma byte_chr_byte [simp]: "byte_chr (byte c) = c"
  by (simp add: byte_def byte_chr_def)

lemma byte_less [simp]: "byte c < 256"
  by (metis byte_byte_chr byte_chr_byte mod_less_divisor zero_less_numeral)

lemma byte_inject: "byte c = byte d \<longleftrightarrow> c = d"
  by (metis byte_chr_byte)

definition is_digit :: "char \<Rightarrow> bool" where
  "is_digit c \<longleftrightarrow> 48 \<le> byte c \<and> byte c \<le> 57"

definition digit_char :: "nat \<Rightarrow> char" where
  "digit_char d = byte_chr (48 + d)"

definition digit_val :: "char \<Rightarrow> int" where
  "digit_val c = int (byte c) - 48"

lemma is_digit_digit_char [simp]: "d < 10 \<Longrightarrow> is_digit (digit_char d)"
  by (simp add: is_digit_def digit_char_def)

lemma digit_val_digit_char [simp]: "d < 10 \<Longrightarrow> digit_val (digit_char d) = int d"
  by (simp add: digit_val_def digit_char_def)

section \<open>strconv: decimal numbers\<close>

fun show_nat :: "nat \<Rightarrow> string" where
  "show_nat n = (if n < 10 then [digit_char n] else show_nat (n div 10) @ [digit_char (n mod 10)])"

declare show_nat.simps [simp del]

text \<open>\<open>fmt.Sprintf("%d", i)\<close>.\<close>

definition Itoa :: "int \<Rightarrow> string" where
  "Itoa i = (if i < 0 then CHR ''-'' # show_nat (nat (- i)) else show_nat (nat i))"

definition digits_val :: "string \<Rightarrow> int" where
  "digits_val s = foldl (\<lambda>a c. 10 * a + digit_val c) 0 s"

text \<open>\<open>strconv.Atoi\<close> on a 64-bit platform: \<open>None\<close> is a syntax or range error.\<close>

definition Atoi_sign :: "string \<Rightarrow> bool \<times> string" where
  "Atoi_sign s = (case s of [] \<Rightarrow> (False, [])
     | c # r \<Rightarrow> if c = CHR ''-'' then (True, r) else if c = CHR ''+'' then (False, r) else (False, s))"

definition Atoi :: "string \<Rightarrow> int option" where
  "Atoi s = (let (neg, ds) = Atoi_sign s in
     if ds = [] \<or> \<not> list_all is_digit ds then None
     else let v = (if neg then - digits_val ds else digits_val ds)
          in if is_int64 v then Some v else None)"

text \<open>The number that \<open>strconv.Atoi\<close> returns beside its error: zero for a syntax error, the nearest bound for a number out of range.\<close>

definition Atoi_value :: "string \<Rightarrow> int" where
  "Atoi_value s = (let (neg, ds) = Atoi_sign s in
     if ds = [] \<or> \<not> list_all is_digit ds then 0
     else let v = (if neg then - digits_val ds else digits_val ds)
          in if v < - (2 ^ 63) then - (2 ^ 63) else if v \<ge> 2 ^ 63 then 2 ^ 63 - 1 else v)"

lemma Atoi_value_Atoi: "Atoi s = Some v \<Longrightarrow> Atoi_value s = v"
  by (auto simp: Atoi_def Atoi_value_def is_int64_def Let_def split: prod.splits if_splits)

lemma show_nat_ne [simp]: "show_nat n \<noteq> []"
  by (subst show_nat.simps) simp

lemma show_nat_digits: "list_all is_digit (show_nat n)"
proof (induction n rule: show_nat.induct)
  case (1 n)
  then show ?case by (subst show_nat.simps) auto
qed

lemma digits_val_snoc: "digits_val (s @ [c]) = 10 * digits_val s + digit_val c"
  by (simp add: digits_val_def)

lemma digits_val_show_nat: "digits_val (show_nat n) = int n"
proof (induction n rule: show_nat.induct)
  case (1 n)
  show ?case
  proof (cases "n < 10")
    case True
    then show ?thesis by (subst show_nat.simps) (simp add: digits_val_def)
  next
    case False
    with 1 have "digits_val (show_nat (n div 10)) = int (n div 10)" by simp
    moreover have "10 * int (n div 10) + int (n mod 10) = int n"
      by (metis mult_div_mod_eq of_nat_add of_nat_mult of_nat_numeral)
    ultimately show ?thesis using False
      by (subst show_nat.simps) (simp add: digits_val_snoc del: of_nat_mod of_nat_div)
  qed
qed

lemma not_is_digit_sign [simp]: "\<not> is_digit (CHR ''-'')" "\<not> is_digit (CHR ''+'')"
  by (simp_all add: is_digit_def byte_def)

lemma show_nat_Atoi_sign [simp]: "Atoi_sign (show_nat n) = (False, show_nat n)"
  using show_nat_digits [of n] show_nat_ne [of n]
  by (cases "show_nat n") (auto simp: Atoi_sign_def)

lemma Atoi_Itoa: "is_int64 i \<Longrightarrow> Atoi (Itoa i) = Some i"
  by (auto simp: Itoa_def Atoi_def Atoi_sign_def [of "_ # _"] show_nat_digits digits_val_show_nat)

lemma Itoa_ne [simp]: "Itoa i \<noteq> []"
  by (simp add: Itoa_def)

lemma show_nat_inject: "show_nat m = show_nat n \<longleftrightarrow> m = n"
  by (metis digits_val_show_nat of_nat_eq_iff)

definition query_safe :: "char \<Rightarrow> bool" where
  "query_safe c \<longleftrightarrow> c \<notin> {CHR ''&'', CHR '';'', CHR ''='', CHR ''%'', CHR ''+''}"

lemma query_safe_iff: "query_safe c \<longleftrightarrow> byte c \<notin> {38, 59, 61, 37, 43}"
proof -
  have "{38, 59, 61, 37, 43} = byte ` {CHR ''&'', CHR '';'', CHR ''='', CHR ''%'', CHR ''+''}"
    by (simp add: byte_def)
  then show ?thesis
    unfolding query_safe_def by (simp add: inj_image_mem_iff inj_on_def byte_inject)
qed

lemma query_safe_digit: "is_digit c \<Longrightarrow> query_safe c"
  by (auto simp: query_safe_def is_digit_def byte_def)

lemma Itoa_query_safe: "list_all query_safe (Itoa i)"
  using show_nat_digits by (auto simp: Itoa_def list_all_iff intro: query_safe_digit)
    (simp_all add: query_safe_def)

section \<open>encoding/hex\<close>

definition hex_char :: "nat \<Rightarrow> char" where
  "hex_char n = (if n < 10 then byte_chr (48 + n) else byte_chr (87 + n))"

definition hex_val :: "char \<Rightarrow> nat option" where
  "hex_val c = (let b = byte c in
     if 48 \<le> b \<and> b \<le> 57 then Some (b - 48)
     else if 97 \<le> b \<and> b \<le> 102 then Some (b - 87)
     else if 65 \<le> b \<and> b \<le> 70 then Some (b - 55) else None)"

definition hex_encode :: "bytes \<Rightarrow> string" where
  "hex_encode bs = concat (map (\<lambda>c. [hex_char (byte c div 16), hex_char (byte c mod 16)]) bs)"

text \<open>\<open>hex.Decode\<close>: \<open>None\<close> is an invalid digit or an odd length.\<close>

fun hex_decode :: "string \<Rightarrow> bytes option" where
  "hex_decode [] = Some []"
| "hex_decode [c] = None"
| "hex_decode (c # d # r) =
     (case (hex_val c, hex_val d) of
        (Some x, Some y) \<Rightarrow> map_option ((#) (byte_chr (16 * x + y))) (hex_decode r)
      | _ \<Rightarrow> None)"

lemma hex_val_hex_char [simp]: "n < 16 \<Longrightarrow> hex_val (hex_char n) = Some n"
  by (auto simp: hex_val_def hex_char_def Let_def)

lemma byte_nibbles [simp]: "byte c div 16 < 16" "byte c mod 16 < 16"
  by (simp_all add: less_mult_imp_div_less)

lemma hex_decode_encode: "hex_decode (hex_encode bs) = Some bs"
proof (induction bs)
  case Nil
  then show ?case by (simp add: hex_encode_def)
next
  case (Cons c bs)
  have "16 * (byte c div 16) + byte c mod 16 = byte c" by simp
  then show ?case using Cons by (simp add: hex_encode_def)
qed

lemma hex_encode_inject: "hex_encode a = hex_encode b \<longleftrightarrow> a = b"
  by (metis hex_decode_encode option.inject)

lemma hex_encode_Nil_iff [simp]: "hex_encode bs = [] \<longleftrightarrow> bs = []"
  by (cases bs) (simp_all add: hex_encode_def)

lemma byte_hex_char: "n < 16 \<Longrightarrow> byte (hex_char n) = (if n < 10 then 48 + n else 87 + n)"
  by (simp add: hex_char_def)

lemma hex_char_query_safe: "n < 16 \<Longrightarrow> query_safe (hex_char n)"
  by (simp add: query_safe_iff byte_hex_char)

lemma length_hex_encode [simp]: "length (hex_encode bs) = 2 * length bs"
  by (induction bs) (simp_all add: hex_encode_def)

lemma hex_encode_query_safe: "list_all query_safe (hex_encode bs)"
  by (auto simp: hex_encode_def list_all_iff intro: hex_char_query_safe)

end
