(* ===== verification/GoJson.thy ===== *)
theory GoJson
  imports GoStd
begin

text \<open>
  Go's \<open>encoding/json\<close> as far as the SDK uses it. \<open>json\<close> is the tree of a JSON text; a number keeps
  its literal and an object keeps its members in order, duplicates included. A \<open>json.RawMessage\<close>
  is \<open>None\<close> when it is an empty byte slice and \<open>Some j\<close> when it holds the text of \<open>j\<close>; the
  decoder stores \<open>Some JNull\<close> (the four bytes \<open>null\<close>) for a null member, as Go's does. Decoding into a
  struct matches member names without regard to case and lets the last of several matching
  members win. Decoding into a user's type \<open>T\<close> is a parameter, the record \<open>gotype\<close>.
\<close>

section \<open>JSON trees and raw messages\<close>

datatype json = JNull | JBool bool | JNum string | JStr string | JArr "json list"
  | JObj "(string \<times> json) list"

type_synonym RawMessage = "json option"

text \<open>What the SDK uses of a Go type that the user chooses: its zero value; \<open>decode\<close>, what
  \<open>json.Unmarshal\<close> leaves in a fresh variable of the type and whether it succeeded; \<open>marshal\<close>, what \<open>json.Marshal\<close>
  returns (\<open>None\<close>: an error); the kind \<open>reflect\<close> reports for its zero value; and, for a pointer type, \<open>decode_elem\<close>,
  the pointer to a fresh element that \<open>json.Unmarshal\<close> decoded into.\<close>

datatype gokind = KPtr | KInterface | KOther

record 'v gotype =
  zero :: 'v
  decode :: "json \<Rightarrow> 'v \<times> bool"
  marshal :: "'v \<Rightarrow> json option"
  kind :: gokind
  decode_elem :: "json \<Rightarrow> 'v \<times> bool"

text \<open>\<open>json.Unmarshal(raw, &v)\<close> for a raw message: an empty input is an error and leaves the variable alone.\<close>

definition unmarshal :: "'v gotype \<Rightarrow> json \<Rightarrow> 'v option" where
  "unmarshal T j = (if snd (decode T j) then Some (fst (decode T j)) else None)"

definition Unmarshal :: "'v gotype \<Rightarrow> RawMessage \<Rightarrow> 'v option" where
  "Unmarshal T raw = (case raw of None \<Rightarrow> None | Some j \<Rightarrow> unmarshal T j)"

lemma Unmarshal_simps [simp]: "Unmarshal T None = None" "Unmarshal T (Some j) = unmarshal T j"
  by (simp_all add: Unmarshal_def)

section \<open>Decoding structs and maps\<close>

definition to_lower :: "char \<Rightarrow> char" where
  "to_lower c = (if 65 \<le> byte c \<and> byte c \<le> 90 then byte_chr (byte c + 32) else c)"

definition fold_name :: "string \<Rightarrow> string" where
  "fold_name s = map to_lower s"

definition members :: "string \<Rightarrow> (string \<times> json) list \<Rightarrow> json list" where
  "members f kvs = map snd (filter (\<lambda>(k, _). fold_name k = fold_name f) kvs)"

text \<open>A field of type \<open>json.RawMessage\<close>: the last matching member, null included.\<close>

definition raw_field :: "string \<Rightarrow> (string \<times> json) list \<Rightarrow> RawMessage" where
  "raw_field f kvs = (let vs = members f kvs in if vs = [] then None else Some (last vs))"

text \<open>A field of type \<open>string\<close>: null leaves it alone, another kind of value is an error.\<close>

definition is_string_or_null :: "json \<Rightarrow> bool" where
  "is_string_or_null j = (case j of JStr _ \<Rightarrow> True | JNull \<Rightarrow> True | _ \<Rightarrow> False)"

definition string_field :: "string \<Rightarrow> (string \<times> json) list \<Rightarrow> string option" where
  "string_field f kvs = (let vs = members f kvs in
     if list_all is_string_or_null vs
     then Some (fold (\<lambda>v s. case v of JStr t \<Rightarrow> t | _ \<Rightarrow> s) vs []) else None)"

definition bool_field :: "string \<Rightarrow> (string \<times> json) list \<Rightarrow> bool option" where
  "bool_field f kvs = (let vs = members f kvs in
     if list_all (\<lambda>v. case v of JBool _ \<Rightarrow> True | JNull \<Rightarrow> True | _ \<Rightarrow> False) vs
     then Some (fold (\<lambda>v b. case v of JBool c \<Rightarrow> c | _ \<Rightarrow> b) vs False) else None)"

definition int_field :: "string \<Rightarrow> (string \<times> json) list \<Rightarrow> int option" where
  "int_field f kvs = (let vs = members f kvs in
     if list_all (\<lambda>v. case v of JNum t \<Rightarrow> Atoi t \<noteq> None | JNull \<Rightarrow> True | _ \<Rightarrow> False) vs
     then Some (fold (\<lambda>v i. case v of JNum t \<Rightarrow> (case Atoi t of Some n \<Rightarrow> n | None \<Rightarrow> i) | _ \<Rightarrow> i) vs 0)
     else None)"

definition uint_field :: "string \<Rightarrow> (string \<times> json) list \<Rightarrow> int option" where
  "uint_field f kvs = (let vs = members f kvs in
     if list_all (\<lambda>v. case v of JNum t \<Rightarrow> t \<noteq> [] \<and> list_all is_digit t \<and> digits_val t < 2 ^ 64 | JNull \<Rightarrow> True | _ \<Rightarrow> False) vs
     then Some (fold (\<lambda>v i. case v of JNum t \<Rightarrow> digits_val t | _ \<Rightarrow> i) vs 0) else None)"

text \<open>A field of a struct type. Several matching members are decoded into the same struct one after the other, which is
  decoding their concatenation; null leaves the struct alone.\<close>

definition struct_field :: "string \<Rightarrow> (string \<times> json) list \<Rightarrow> (string \<times> json) list option" where
  "struct_field f kvs = (let vs = members f kvs in
     if list_all (\<lambda>v. case v of JObj _ \<Rightarrow> True | JNull \<Rightarrow> True | _ \<Rightarrow> False) vs
     then Some (concat (map (\<lambda>v. case v of JObj ms \<Rightarrow> ms | _ \<Rightarrow> []) vs)) else None)"

text \<open>A field of type \<open>[]json.RawMessage\<close> or \<open>[]string\<close>: null is the nil slice.\<close>

definition raw_list_field :: "string \<Rightarrow> (string \<times> json) list \<Rightarrow> json list option" where
  "raw_list_field f kvs = (let vs = members f kvs in
     if list_all (\<lambda>v. case v of JArr _ \<Rightarrow> True | JNull \<Rightarrow> True | _ \<Rightarrow> False) vs
     then Some (if vs = [] then [] else (case last vs of JArr js \<Rightarrow> js | _ \<Rightarrow> [])) else None)"

definition string_list_field :: "string \<Rightarrow> (string \<times> json) list \<Rightarrow> string list option" where
  "string_list_field f kvs = (case raw_list_field f kvs of
     Some js \<Rightarrow> if list_all is_string_or_null js then Some (map (\<lambda>j. case j of JStr t \<Rightarrow> t | _ \<Rightarrow> []) js) else None
   | None \<Rightarrow> None)"

text \<open>A field of type \<open>map[string]json.RawMessage\<close>: null makes the map nil, an object adds to it.\<close>

definition raw_map_field :: "string \<Rightarrow> (string \<times> json) list \<Rightarrow> (string \<rightharpoonup> json) option" where
  "raw_map_field f kvs = (let vs = members f kvs in
     if list_all (\<lambda>v. case v of JObj _ \<Rightarrow> True | JNull \<Rightarrow> True | _ \<Rightarrow> False) vs
     then Some (fold (\<lambda>v m. case v of JObj ms \<Rightarrow> m ++ map_of (rev ms) | _ \<Rightarrow> Map.empty) vs Map.empty) else None)"

text \<open>A \<open>map[string]json.RawMessage\<close>: exact keys, the last member of a key wins; null gives a nil
  map and any other kind of value is an error.\<close>

definition Unmarshal_raw_map :: "RawMessage \<Rightarrow> (string \<rightharpoonup> json) option" where
  "Unmarshal_raw_map raw = (case raw of
     Some JNull \<Rightarrow> Some Map.empty
   | Some (JObj kvs) \<Rightarrow> Some (map_of (rev kvs))
   | _ \<Rightarrow> None)"

section \<open>Text of a JSON tree\<close>

text \<open>\<open>json.Marshal\<close> writes compact text and escapes the characters HTML gives a meaning to. Bytes
  from 128 on are passed through (they are well-formed UTF-8 in the texts the SDK writes).\<close>

definition u_escape :: "nat \<Rightarrow> string" where
  "u_escape n = [CHR 0x5C, CHR ''u'', CHR ''0'', CHR ''0''] @ [hex_char (n div 16), hex_char (n mod 16)]"

definition escape_json_char :: "char \<Rightarrow> string" where
  "escape_json_char c = (let b = byte c in
     if b = 34 \<or> b = 92 then [CHR 0x5C, c]
     else if b = 8 then [CHR 0x5C, CHR ''b''] else if b = 12 then [CHR 0x5C, CHR ''f'']
     else if b = 10 then [CHR 0x5C, CHR ''n''] else if b = 13 then [CHR 0x5C, CHR ''r'']
     else if b = 9 then [CHR 0x5C, CHR ''t'']
     else if b < 32 \<or> b \<in> {38, 60, 62} then u_escape b
     else [c])"

definition quote_json :: "string \<Rightarrow> string" where
  "quote_json s = [CHR 0x22] @ concat (map escape_json_char s) @ [CHR 0x22]"

fun comma_sep :: "string list \<Rightarrow> string" where
  "comma_sep [] = []"
| "comma_sep [s] = s"
| "comma_sep (s # t # r) = s @ CHR '','' # comma_sep (t # r)"

fun json_text :: "json \<Rightarrow> string" where
  "json_text JNull = ''null''"
| "json_text (JBool b) = (if b then ''true'' else ''false'')"
| "json_text (JNum t) = t"
| "json_text (JStr s) = quote_json s"
| "json_text (JArr js) = [CHR ''[''] @ comma_sep (map json_text js) @ [CHR '']'']"
| "json_text (JObj kvs) =
     [CHR 0x7B] @ comma_sep (map (\<lambda>kv. quote_json (fst kv) @ CHR '':'' # json_text (snd kv)) kvs) @ [CHR 0x7D]"

section \<open>Reading a JSON text\<close>

type_synonym 'a parser = "string \<Rightarrow> ('a \<times> string) option"

definition is_ws :: "char \<Rightarrow> bool" where
  "is_ws c \<longleftrightarrow> byte c \<in> {32, 9, 10, 13}"

abbreviation skip_ws :: "string \<Rightarrow> string" where
  "skip_ws \<equiv> dropWhile is_ws"

definition utf8 :: "nat \<Rightarrow> string" where
  "utf8 n = (if n < 128 then [byte_chr n]
     else if n < 2048 then [byte_chr (192 + n div 64), byte_chr (128 + n mod 64)]
     else if n < 65536 then [byte_chr (224 + n div 4096), byte_chr (128 + n div 64 mod 64), byte_chr (128 + n mod 64)]
     else [byte_chr (240 + n div 262144), byte_chr (128 + n div 4096 mod 64), byte_chr (128 + n div 64 mod 64),
           byte_chr (128 + n mod 64)])"

fun hex4 :: "nat parser" where
  "hex4 (a # b # c # d # r) =
     (case (hex_val a, hex_val b, hex_val c, hex_val d) of
        (Some w, Some x, Some y, Some z) \<Rightarrow> Some (((w * 16 + x) * 16 + y) * 16 + z, r)
      | _ \<Rightarrow> None)"
| "hex4 _ = None"

text \<open>After backslash and \<open>u\<close>: a surrogate pair is one code point, a lone surrogate becomes U+FFFD.\<close>

definition u_seq :: "string parser" where
  "u_seq s = (case hex4 s of None \<Rightarrow> None
     | Some (n, r) \<Rightarrow>
         if 55296 \<le> n \<and> n < 56320 then
           (case r of b # u # r' \<Rightarrow>
              if b = CHR 0x5C \<and> u = CHR ''u'' then
                (case hex4 r' of
                   Some (m, r'') \<Rightarrow> if 56320 \<le> m \<and> m < 57344
                     then Some (utf8 (65536 + (n - 55296) * 1024 + (m - 56320)), r'') else Some (utf8 65533, r)
                 | None \<Rightarrow> Some (utf8 65533, r))
              else Some (utf8 65533, r)
            | _ \<Rightarrow> Some (utf8 65533, r))
         else if 56320 \<le> n \<and> n < 57344 then Some (utf8 65533, r)
         else Some (utf8 n, r))"

definition simple_escape :: "char \<Rightarrow> string option" where
  "simple_escape c = (if c \<in> {CHR 0x22, CHR 0x5C, CHR ''/''} then Some [c]
     else if c = CHR ''b'' then Some [CHR 0x08] else if c = CHR ''f'' then Some [CHR 0x0C]
     else if c = CHR ''n'' then Some [CHR 0x0A] else if c = CHR ''r'' then Some [CHR 0x0D]
     else if c = CHR ''t'' then Some [CHR 0x09] else None)"

fun parse_str :: "nat \<Rightarrow> string parser" where
  "parse_str 0 s = None"
| "parse_str (Suc n) [] = None"
| "parse_str (Suc n) (c # r) =
     (if c = CHR 0x22 then Some ([], r)
      else if byte c < 32 then None
      else if c = CHR 0x5C then
        (case r of [] \<Rightarrow> None
         | e # r' \<Rightarrow>
             (case (if e = CHR ''u'' then u_seq r' else map_option (\<lambda>t. (t, r')) (simple_escape e)) of
                None \<Rightarrow> None
              | Some (t, r'') \<Rightarrow> map_option (\<lambda>(u, q). (t @ u, q)) (parse_str n r'')))
      else map_option (\<lambda>(u, q). (c # u, q)) (parse_str n r))"

definition digits1 :: "string parser" where
  "digits1 s = (let d = takeWhile is_digit s in if d = [] then None else Some (d, dropWhile is_digit s))"

definition parse_int_part :: "string parser" where
  "parse_int_part s = (case s of
     c # r \<Rightarrow> if c = CHR ''0'' then Some ([c], r) else digits1 s | [] \<Rightarrow> None)"

definition opt_part :: "(char \<Rightarrow> bool) \<Rightarrow> string parser \<Rightarrow> string parser" where
  "opt_part P p s = (case s of
     c # r \<Rightarrow> if P c then map_option (\<lambda>(u, q). (c # u, q)) (p r) else Some ([], s) | [] \<Rightarrow> Some ([], []))"

definition parse_num :: "string parser" where
  "parse_num s =
     (let (sg, s1) = (case s of c # r \<Rightarrow> if c = CHR ''-'' then ([c], r) else ([], s) | [] \<Rightarrow> ([], []))
      in case parse_int_part s1 of None \<Rightarrow> None
       | Some (i, s2) \<Rightarrow>
           (case opt_part (\<lambda>c. c = CHR ''.'') digits1 s2 of None \<Rightarrow> None
            | Some (f, s3) \<Rightarrow>
                (case opt_part (\<lambda>c. c = CHR ''e'' \<or> c = CHR ''E'')
                        (opt_part (\<lambda>c. c = CHR ''-'' \<or> c = CHR ''+'') digits1) s3 of None \<Rightarrow> None
                 | Some (x, s4) \<Rightarrow> Some (sg @ i @ f @ x, s4))))"

text \<open>The fuel bounds the nesting and the length; \<open>json_parse\<close> gives one unit per byte and more,
  and every call consumes a byte.\<close>

fun parse_value :: "nat \<Rightarrow> json parser"
  and parse_elems :: "nat \<Rightarrow> json list parser"
  and parse_members :: "nat \<Rightarrow> (string \<times> json) list parser"
where
  "parse_value 0 s = None"
| "parse_value (Suc n) s =
     (case skip_ws s of [] \<Rightarrow> None
      | c # r \<Rightarrow>
          if c = CHR 0x22 then map_option (\<lambda>(t, q). (JStr t, q)) (parse_str (Suc (length r)) r)
          else if c = CHR ''['' then
            (case skip_ws r of
               d # q \<Rightarrow> if d = CHR '']'' then Some (JArr [], q)
                        else map_option (\<lambda>(js, q). (JArr js, q)) (parse_elems n r)
             | [] \<Rightarrow> None)
          else if c = CHR 0x7B then
            (case skip_ws r of
               d # q \<Rightarrow> if d = CHR 0x7D then Some (JObj [], q)
                        else map_option (\<lambda>(kvs, q). (JObj kvs, q)) (parse_members n r)
             | [] \<Rightarrow> None)
          else (case cut_prefix ''null'' (c # r) of Some q \<Rightarrow> Some (JNull, q)
            | None \<Rightarrow> (case cut_prefix ''true'' (c # r) of Some q \<Rightarrow> Some (JBool True, q)
              | None \<Rightarrow> (case cut_prefix ''false'' (c # r) of Some q \<Rightarrow> Some (JBool False, q)
                | None \<Rightarrow> map_option (\<lambda>(t, q). (JNum t, q)) (parse_num (c # r))))))"
| "parse_elems 0 s = None"
| "parse_elems (Suc n) s =
     (case parse_value n s of None \<Rightarrow> None
      | Some (j, r) \<Rightarrow>
          (case skip_ws r of
             c # q \<Rightarrow> if c = CHR '']'' then Some ([j], q)
                      else if c = CHR '','' then map_option (\<lambda>(js, p). (j # js, p)) (parse_elems n q)
                      else None
           | [] \<Rightarrow> None))"
| "parse_members 0 s = None"
| "parse_members (Suc n) s =
     (case skip_ws s of [] \<Rightarrow> None
      | c # r \<Rightarrow>
          if c \<noteq> CHR 0x22 then None
          else (case parse_str (Suc (length r)) r of None \<Rightarrow> None
            | Some (k, r1) \<Rightarrow>
                (case skip_ws r1 of [] \<Rightarrow> None
                 | d # r2 \<Rightarrow>
                     if d \<noteq> CHR '':'' then None
                     else (case parse_value n r2 of None \<Rightarrow> None
                       | Some (j, r3) \<Rightarrow>
                           (case skip_ws r3 of
                              e # q \<Rightarrow> if e = CHR 0x7D then Some ([(k, j)], q)
                                       else if e = CHR '','' then
                                         map_option (\<lambda>(kvs, p). ((k, j) # kvs, p)) (parse_members n q)
                                       else None
                            | [] \<Rightarrow> None)))))"

definition json_parse :: "string \<Rightarrow> json option" where
  "json_parse s = (case parse_value (3 * length s + 3) s of
     Some (j, r) \<Rightarrow> if skip_ws r = [] then Some j else None | None \<Rightarrow> None)"

end
