(* ===== verification/GoTime.thy ===== *)
theory GoTime
  imports GoStd
begin

text \<open>
  Go's \<open>time.Time\<close>: signed 64-bit seconds since 1 January of year 1 and nanoseconds within the
  second. \<open>time.Unix\<close> shifts by a constant with 64-bit wrap-around, \<open>Time.Sub\<close> saturates at the
  largest and smallest \<open>time.Duration\<close> (64-bit nanoseconds). Monotonic clock readings and
  locations play no part in what the SDK computes and are left out.
\<close>

type_synonym duration = int

definition Second :: duration where
  "Second = 1000000000"

definition Minute :: duration where
  "Minute = 60 * Second"

record gotime =
  isec :: int
  nsec :: int

definition unixToInternal :: int where
  "unixToInternal = 62135596800"

definition time_Unix :: "int \<Rightarrow> int \<Rightarrow> gotime" where
  "time_Unix s n = \<lparr>isec = wrap64 (s + unixToInternal), nsec = n\<rparr>"

text \<open>\<open>Time.Unix()\<close> and \<open>Time.IsZero()\<close>.\<close>

definition Unix :: "gotime \<Rightarrow> int" where
  "Unix t = wrap64 (isec t - unixToInternal)"

definition IsZero :: "gotime \<Rightarrow> bool" where
  "IsZero t \<longleftrightarrow> isec t = 0 \<and> nsec t = 0"

definition saturate64 :: "int \<Rightarrow> int" where
  "saturate64 d = (if d < - (2 ^ 63) then - (2 ^ 63) else if d > 2 ^ 63 - 1 then 2 ^ 63 - 1 else d)"

definition time_Sub :: "gotime \<Rightarrow> gotime \<Rightarrow> duration" where
  "time_Sub t u = saturate64 ((isec t - isec u) * Second + (nsec t - nsec u))"

definition time_Before :: "gotime \<Rightarrow> gotime \<Rightarrow> bool" where
  "time_Before t u \<longleftrightarrow> isec t < isec u \<or> isec t = isec u \<and> nsec t < nsec u"

definition time_Add :: "gotime \<Rightarrow> duration \<Rightarrow> gotime" where
  "time_Add t d = \<lparr>isec = wrap64 (isec t + (nsec t + d) div Second), nsec = (nsec t + d) mod Second\<rparr>"

text \<open>The readings of a clock: the nanoseconds are within a second.\<close>

definition valid_time :: "gotime \<Rightarrow> bool" where
  "valid_time t \<longleftrightarrow> is_int64 (isec t) \<and> 0 \<le> nsec t \<and> nsec t < Second"

lemma time_Add_0 [simp]: "valid_time t \<Longrightarrow> time_Add t 0 = t"
  by (simp add: time_Add_def valid_time_def div_pos_pos_trivial)

lemma Unix_time_Unix [simp]: "is_int64 s \<Longrightarrow> Unix (time_Unix s n) = s"
  by (simp add: Unix_def time_Unix_def)

lemma is_int64_Unix [simp]: "is_int64 (Unix t)"
  by (simp add: Unix_def)

lemma isec_time_Unix_Unix: "is_int64 (isec t) \<Longrightarrow> isec (time_Unix (Unix t) 0) = isec t"
  by (simp add: Unix_def time_Unix_def)

lemma time_Sub_self [simp]: "time_Sub t t = 0"
  by (simp add: time_Sub_def saturate64_def)

section \<open>Duration.String\<close>

text \<open>The fraction of \<open>prec\<close> digits without its trailing zeros, with its point.\<close>

definition strip_zeros :: "string \<Rightarrow> string" where
  "strip_zeros s = rev (dropWhile (\<lambda>c. c = CHR ''0'') (rev s))"

definition fmtFrac :: "nat \<Rightarrow> nat \<Rightarrow> string" where
  "fmtFrac v prec = (let ds = show_nat (v mod 10 ^ prec);
       f = strip_zeros (replicate (prec - length ds) (CHR ''0'') @ ds)
     in if f = [] then [] else CHR ''.'' # f)"

definition Duration_String :: "int \<Rightarrow> string" where
  "Duration_String d =
     (let u = nat (abs d);
          t = (if u = 0 then ''0s''
               else if u < 1000 then show_nat u @ ''ns''
               else if u < 1000000 then show_nat (u div 1000) @ fmtFrac u 3 @ [CHR 0xC2, CHR 0xB5, CHR ''s'']
               else if u < 1000000000 then show_nat (u div 1000000) @ fmtFrac u 6 @ ''ms''
               else let sec = u div 1000000000; mn = sec div 60; hr = mn div 60
                 in (if hr > 0 then show_nat hr @ ''h'' else []) @
                    (if mn > 0 then show_nat (mn mod 60) @ ''m'' else []) @
                    show_nat (sec mod 60) @ fmtFrac u 9 @ ''s'')
      in if d < 0 then CHR ''-'' # t else t)"

end
