(* ===== verification/Errors.thy ===== *)
theory Errors
  imports GoJson GoTime
begin

text \<open>
  Go's error values as the SDK builds and inspects them: \<open>errors/errors.go\<close> (\<open>StepError\<close>,
  \<open>NoRetryError\<close>, \<open>RetryAtError\<close>), the sentinels of \<open>handler.go\<close>, \<open>signature.go\<close>, \<open>step\<close> and
  \<open>connect\<close>, the wrapping errors of \<open>connect/handshake.go\<close>, and the vendored \<open>publicerr.Error\<close> and
  \<open>syscode.Error\<close> structs. A nil \<open>error\<close> is \<open>None\<close>.

  \<open>errors.Is\<close> and \<open>errors.As\<close> walk the chain in pre-order, following \<open>Unwrap() error\<close> and
  \<open>Unwrap() []error\<close>. \<open>Error()\<close> returns \<open>None\<close> where the Go method dereferences a nil wrapped
  error and panics; \<open>fmt\<close> catches that panic and prints it.
\<close>

section \<open>Error values\<close>

datatype sentinel =
    ErrTypeMismatch | errBadRequest | errFunctionMissing | errUnauthorized
  | ErrExpiredSignature | ErrInvalidSignature | ErrInvalidTimestamp
  | ErrEventNotReceived | ErrNotInFunction
  | ErrUnauthenticated | ErrTooManyConnections | errGatewayDraining
  | io_EOF | net_ErrClosed

record StepError =
  se_Name :: string
  se_Message :: string
  se_Data :: RawMessage

text \<open>\<open>Errorf m es\<close> is the value of \<open>fmt.Errorf\<close> with text \<open>m\<close> and the errors \<open>es\<close> of its \<open>%w\<close> verbs;
  \<open>CloseErr r m\<close> is \<open>websocket.CloseError\<close> with reason \<open>r\<close> and text \<open>m\<close>.\<close>

datatype goerr =
    Sentinel sentinel
  | Errorf string "goerr list"
  | StepErr StepError
  | noRetryError "goerr option"
  | retryAtError "goerr option" gotime
  | PublicErr string int "goerr option"
  | SysErr string string
  | ReconnectErr goerr
  | CloseErr string string

definition sentinel_text :: "sentinel \<Rightarrow> string" where
  "sentinel_text s = (case s of
     ErrTypeMismatch \<Rightarrow> ''cannot invoke function with mismatched types''
   | errBadRequest \<Rightarrow> ''bad request''
   | errFunctionMissing \<Rightarrow> ''function not found''
   | errUnauthorized \<Rightarrow> ''unauthorized''
   | ErrExpiredSignature \<Rightarrow> ''expired signature''
   | ErrInvalidSignature \<Rightarrow> ''invalid signature''
   | ErrInvalidTimestamp \<Rightarrow> ''invalid timestamp''
   | ErrEventNotReceived \<Rightarrow> ''event not received''
   | ErrNotInFunction \<Rightarrow> ''step called without function context''
   | ErrUnauthenticated \<Rightarrow> ''authentication failed''
   | ErrTooManyConnections \<Rightarrow> ''too many connections''
   | errGatewayDraining \<Rightarrow> ''gateway is draining''
   | io_EOF \<Rightarrow> ''EOF''
   | net_ErrClosed \<Rightarrow> ''use of closed network connection'')"

text \<open>What \<open>fmt\<close> prints when the \<open>Error\<close> method of its argument panics on a nil dereference.\<close>

definition fmt_panic_text :: "char \<Rightarrow> string" where
  "fmt_panic_text verb = CHR ''%'' # CHR ''!'' # verb #
     ''(PANIC=Error method: runtime error: invalid memory address or nil pointer dereference)''"

fun Error :: "goerr \<Rightarrow> string option" where
  "Error (Sentinel s) = Some (sentinel_text s)"
| "Error (Errorf m es) = Some m"
| "Error (StepErr e) = Some (se_Message e)"
| "Error (noRetryError None) = None"
| "Error (noRetryError (Some e)) = Error e"
| "Error (retryAtError None t) = None"
| "Error (retryAtError (Some e) t) = Error e"
| "Error (PublicErr m st None) = None"
| "Error (PublicErr m st (Some e)) = Error e"
| "Error (SysErr c m) = Some (if m \<noteq> [] then m else c)"
| "Error (ReconnectErr e) =
     Some (''reconnect error: '' @ (case Error e of Some m \<Rightarrow> m | None \<Rightarrow> fmt_panic_text (CHR ''v'')))"
| "Error (CloseErr r m) = Some m"

text \<open>An error printed by a verb of \<open>fmt\<close>.\<close>

definition fmt_err :: "char \<Rightarrow> goerr \<Rightarrow> string" where
  "fmt_err verb e = (case Error e of Some m \<Rightarrow> m | None \<Rightarrow> fmt_panic_text verb)"

text \<open>\<open>fmt.Errorf(prefix + "%w", err)\<close>.\<close>

definition wrapf :: "string \<Rightarrow> goerr \<Rightarrow> goerr" where
  "wrapf prefix e = Errorf (prefix @ fmt_err (CHR ''v'') e) [e]"

section \<open>errors.Is and errors.As\<close>

fun Unwrap :: "goerr \<Rightarrow> goerr list" where
  "Unwrap (Errorf m es) = es"
| "Unwrap (noRetryError (Some e)) = [e]"
| "Unwrap (retryAtError (Some e) t) = [e]"
| "Unwrap (PublicErr m st (Some e)) = [e]"
| "Unwrap (ReconnectErr e) = [e]"
| "Unwrap _ = []"

lemma Unwrap_size: "d \<in> set (Unwrap e) \<Longrightarrow> size d < size e"
  by (cases e rule: Unwrap.cases) (auto dest: size_list_estimation' [OF _ order_refl] simp: less_Suc_eq_le)

text \<open>The first value \<open>f\<close> gives along the chain, in the order the Go library visits it.\<close>

function errors_As :: "(goerr \<Rightarrow> 'a option) \<Rightarrow> goerr \<Rightarrow> 'a option" where
  "errors_As f e = (case f e of Some a \<Rightarrow> Some a | None \<Rightarrow> find_first (errors_As f) (Unwrap e))"
  by pat_completeness auto
termination
  by (relation "measure (\<lambda>(f, e). size e)") (auto simp: Unwrap_size)

declare errors_As.simps [simp del]

definition errors_Is :: "(goerr \<Rightarrow> bool) \<Rightarrow> goerr option \<Rightarrow> bool" where
  "errors_Is P err = (case err of None \<Rightarrow> False
     | Some e \<Rightarrow> errors_As (\<lambda>d. if P d then Some () else None) e \<noteq> None)"

definition is_StepErr :: "goerr \<Rightarrow> bool" where
  "is_StepErr e = (case e of StepErr _ \<Rightarrow> True | _ \<Rightarrow> False)"

definition is_noRetryError :: "goerr \<Rightarrow> bool" where
  "is_noRetryError e = (case e of noRetryError _ \<Rightarrow> True | _ \<Rightarrow> False)"

definition retryAt_of :: "goerr \<Rightarrow> gotime option" where
  "retryAt_of e = (case e of retryAtError _ t \<Rightarrow> Some t | _ \<Rightarrow> None)"

lemma error_kind_iff:
  "is_StepErr e \<longleftrightarrow> (\<exists>x. e = StepErr x)"
  "is_noRetryError e \<longleftrightarrow> (\<exists>x. e = noRetryError x)"
  "retryAt_of e = Some t \<longleftrightarrow> (\<exists>x. e = retryAtError x t)"
  "retryAt_of e = None \<longleftrightarrow> (\<forall>x t. e \<noteq> retryAtError x t)"
  by (cases e; simp add: is_StepErr_def is_noRetryError_def retryAt_of_def)+

section \<open>errors/errors.go\<close>

definition IsStepError :: "goerr option \<Rightarrow> bool" where
  "IsStepError err = errors_Is is_StepErr err"

definition NoRetryError :: "goerr option \<Rightarrow> goerr" where
  "NoRetryError err = noRetryError err"

definition IsNoRetryError :: "goerr option \<Rightarrow> bool" where
  "IsNoRetryError err = errors_Is is_noRetryError err"

definition RetryAtError :: "goerr option \<Rightarrow> gotime \<Rightarrow> goerr" where
  "RetryAtError err at = retryAtError err at"

definition GetRetryAtTime :: "goerr option \<Rightarrow> gotime option" where
  "GetRetryAtTime err = (case err of None \<Rightarrow> None | Some e \<Rightarrow> errors_As retryAt_of e)"

definition Is_sentinel :: "sentinel \<Rightarrow> goerr option \<Rightarrow> bool" where
  "Is_sentinel s err = errors_Is (\<lambda>e. e = Sentinel s) err"

text \<open>\<open>json.Unmarshal(raw, &StepError{})\<close>.\<close>

definition Unmarshal_StepError :: "RawMessage \<Rightarrow> StepError option" where
  "Unmarshal_StepError raw = (case raw of
     Some JNull \<Rightarrow> Some \<lparr>se_Name = [], se_Message = [], se_Data = None\<rparr>
   | Some (JObj kvs) \<Rightarrow>
       (case (string_field ''name'' kvs, string_field ''message'' kvs) of
          (Some n, Some m) \<Rightarrow> Some \<lparr>se_Name = n, se_Message = m, se_Data = raw_field ''data'' kvs\<rparr>
        | _ \<Rightarrow> None)
   | _ \<Rightarrow> None)"

section \<open>The error chain\<close>

text \<open>The specification of the two walks: \<open>in_chain e d\<close> when \<open>d\<close> is \<open>e\<close> or is wrapped by it.\<close>

inductive in_chain :: "goerr \<Rightarrow> goerr \<Rightarrow> bool" where
  here: "in_chain e e"
| wrapped: "d \<in> set (Unwrap e) \<Longrightarrow> in_chain d c \<Longrightarrow> in_chain e c"

lemma in_chain_unfold: "in_chain e c \<longleftrightarrow> c = e \<or> (\<exists>d \<in> set (Unwrap e). in_chain d c)"
  by (meson in_chain.cases in_chain.here in_chain.wrapped)

lemma all_in_chain: "(\<forall>c. in_chain e c \<longrightarrow> P c) \<longleftrightarrow> P e \<and> (\<forall>d \<in> set (Unwrap e). \<forall>c. in_chain d c \<longrightarrow> P c)"
  by (metis in_chain_unfold)

lemma ex_in_chain: "(\<exists>c. in_chain e c \<and> P c) \<longleftrightarrow> P e \<or> (\<exists>d \<in> set (Unwrap e). \<exists>c. in_chain d c \<and> P c)"
  by (metis in_chain_unfold)

lemma errors_As_None_iff: "errors_As f e = None \<longleftrightarrow> (\<forall>d. in_chain e d \<longrightarrow> f d = None)"
proof (induction f e rule: errors_As.induct)
  case (1 f e)
  show ?case
  proof (cases "f e")
    case None
    have "errors_As f e = find_first (errors_As f) (Unwrap e)"
      using None by (subst errors_As.simps) simp
    with None 1 show ?thesis by (simp add: find_first_None_iff all_in_chain [of e])
  next
    case (Some a)
    then have "errors_As f e = Some a" by (subst errors_As.simps) simp
    with Some in_chain.here [of e] show ?thesis by auto
  qed
qed

lemma errors_As_in_chain: "errors_As f e = Some a \<Longrightarrow> \<exists>d. in_chain e d \<and> f d = Some a"
proof (induction f e rule: errors_As.induct)
  case (1 f e)
  show ?case
  proof (cases "f e")
    case None
    with 1(2) have "find_first (errors_As f) (Unwrap e) = Some a" by (subst (asm) errors_As.simps) simp
    then obtain d where "d \<in> set (Unwrap e)" "errors_As f d = Some a" by (auto dest: find_first_Some)
    with 1(1) None show ?thesis by (blast intro: in_chain.wrapped)
  next
    case (Some b)
    then have "errors_As f e = Some b" by (subst errors_As.simps) simp
    with Some 1(2) in_chain.here [of e] show ?thesis by auto
  qed
qed

lemma errors_Is_iff: "errors_Is P (Some e) \<longleftrightarrow> (\<exists>d. in_chain e d \<and> P d)"
  by (auto simp: errors_Is_def errors_As_None_iff split: if_splits)

lemma errors_Is_None [simp]: "\<not> errors_Is P None"
  by (simp add: errors_Is_def)

lemma errors_Is_unfold: "errors_Is P (Some e) \<longleftrightarrow> P e \<or> (\<exists>d \<in> set (Unwrap e). errors_Is P (Some d))"
  unfolding errors_Is_iff by (rule ex_in_chain)

lemma classify_None [simp, err_simps]:
  "\<not> IsStepError None" "\<not> IsNoRetryError None" "\<not> Is_sentinel s None" "GetRetryAtTime None = None"
  by (simp_all add: IsStepError_def IsNoRetryError_def Is_sentinel_def GetRetryAtTime_def)

lemma IsStepError_simps [simp, err_simps]:
  "\<not> IsStepError (Some (Sentinel s))"
  "IsStepError (Some (Errorf m es)) \<longleftrightarrow> (\<exists>e \<in> set es. IsStepError (Some e))"
  "IsStepError (Some (StepErr se))"
  "IsStepError (Some (noRetryError err)) \<longleftrightarrow> IsStepError err"
  "IsStepError (Some (retryAtError err t)) \<longleftrightarrow> IsStepError err"
  "IsStepError (Some (PublicErr pm st err)) \<longleftrightarrow> IsStepError err"
  "IsStepError (Some (ReconnectErr e)) \<longleftrightarrow> IsStepError (Some e)"
  unfolding IsStepError_def by (subst errors_Is_unfold, simp add: is_StepErr_def; cases err; simp)+

lemma IsNoRetryError_simps [simp, err_simps]:
  "\<not> IsNoRetryError (Some (Sentinel s))"
  "IsNoRetryError (Some (Errorf m es)) \<longleftrightarrow> (\<exists>e \<in> set es. IsNoRetryError (Some e))"
  "\<not> IsNoRetryError (Some (StepErr se))"
  "IsNoRetryError (Some (noRetryError err))"
  "IsNoRetryError (Some (retryAtError err t)) \<longleftrightarrow> IsNoRetryError err"
  "IsNoRetryError (Some (PublicErr pm st err)) \<longleftrightarrow> IsNoRetryError err"
  unfolding IsNoRetryError_def by (subst errors_Is_unfold, simp add: is_noRetryError_def; cases err; simp)+

lemma Is_sentinel_simps [simp, err_simps]:
  "Is_sentinel s (Some (Sentinel s')) \<longleftrightarrow> s' = s"
  "Is_sentinel s (Some (Errorf m es)) \<longleftrightarrow> (\<exists>e \<in> set es. Is_sentinel s (Some e))"
  "\<not> Is_sentinel s (Some (StepErr se))"
  "Is_sentinel s (Some (noRetryError err)) \<longleftrightarrow> Is_sentinel s err"
  "Is_sentinel s (Some (retryAtError err t)) \<longleftrightarrow> Is_sentinel s err"
  "Is_sentinel s (Some (PublicErr pm st err)) \<longleftrightarrow> Is_sentinel s err"
  "Is_sentinel s (Some (ReconnectErr e)) \<longleftrightarrow> Is_sentinel s (Some e)"
  "\<not> Is_sentinel s (Some (CloseErr r m))"
  unfolding Is_sentinel_def by (subst errors_Is_unfold, simp; cases err; simp)+

lemma GetRetryAtTime_simps [simp, err_simps]:
  "GetRetryAtTime (Some (Sentinel s)) = None"
  "GetRetryAtTime (Some (Errorf m [])) = None"
  "GetRetryAtTime (Some (Errorf m [e])) = GetRetryAtTime (Some e)"
  "GetRetryAtTime (Some (StepErr se)) = None"
  "GetRetryAtTime (Some (noRetryError err)) = GetRetryAtTime err"
  "GetRetryAtTime (Some (retryAtError err t)) = Some t"
  "GetRetryAtTime (Some (PublicErr pm st err)) = GetRetryAtTime err"
  unfolding GetRetryAtTime_def
  by (simp_all add: retryAt_of_def errors_As.simps [of _ "Sentinel s"] errors_As.simps [of _ "Errorf m _"]
      errors_As.simps [of _ "StepErr se"] errors_As.simps [of _ "noRetryError err"]
      errors_As.simps [of _ "retryAtError err t"] errors_As.simps [of _ "PublicErr pm st err"]
      split: option.splits)

text \<open>The three classifiers the handlers use decide exactly what the wrapping chain of an error
  holds, at any depth and through every kind of wrapping: \<open>IsNoRetryError\<close> and \<open>IsStepError\<close> are
  true if and only if the chain holds such an error, \<open>GetRetryAtTime\<close> is nil if and only if the chain
  holds no \<open>retryAtError\<close>, and otherwise it returns the time of one that is in the chain.\<close>

theorem error_classification:
  "(IsNoRetryError (Some e) \<longleftrightarrow> (\<exists>x. in_chain e (noRetryError x))) \<and>
   (IsStepError (Some e) \<longleftrightarrow> (\<exists>x. in_chain e (StepErr x))) \<and>
   (GetRetryAtTime (Some e) = None \<longleftrightarrow> \<not> (\<exists>x t. in_chain e (retryAtError x t))) \<and>
   GetRetryAtTime (Some e) \<in> insert None (Some ` {t. \<exists>x. in_chain e (retryAtError x t)})"
proof (intro conjI)
  show "IsNoRetryError (Some e) \<longleftrightarrow> (\<exists>x. in_chain e (noRetryError x))"
    by (auto simp: IsNoRetryError_def errors_Is_iff error_kind_iff)
  show "IsStepError (Some e) \<longleftrightarrow> (\<exists>x. in_chain e (StepErr x))"
    by (auto simp: IsStepError_def errors_Is_iff error_kind_iff)
  show "GetRetryAtTime (Some e) = None \<longleftrightarrow> \<not> (\<exists>x t. in_chain e (retryAtError x t))"
    by (auto simp: GetRetryAtTime_def errors_As_None_iff error_kind_iff)
  show "GetRetryAtTime (Some e) \<in> insert None (Some ` {t. \<exists>x. in_chain e (retryAtError x t)})"
    by (cases "errors_As retryAt_of e")
      (auto simp: GetRetryAtTime_def error_kind_iff dest!: errors_As_in_chain intro!: imageI)
qed

end
