(* ===== verification/GoCrypto.thy ===== *)
theory GoCrypto
  imports GoStd "HOL-Library.Word"
begin

text \<open>
  The hash functions of Go's \<open>crypto\<close> packages the SDK calls, on 32-bit words: SHA-1 (step IDs),
  SHA-256 (hashed keys) and HMAC-SHA-256 (signatures). They are written out from FIPS 180-4 and
  RFC 2104 so that every definition that uses them computes.
\<close>

unbundle bit_operations_syntax

type_synonym u32 = "32 word"

section \<open>Padding and blocks\<close>

definition rotr32 :: "nat \<Rightarrow> u32 \<Rightarrow> u32" where
  "rotr32 n x = drop_bit n x OR push_bit (32 - n) x"

definition be_bytes32 :: "u32 \<Rightarrow> bytes" where
  "be_bytes32 w = map (\<lambda>i. char_of (uint (drop_bit i w))) [24, 16, 8, 0]"

definition be_bytes64 :: "int \<Rightarrow> bytes" where
  "be_bytes64 n = map (\<lambda>i. char_of (drop_bit i n)) [56, 48, 40, 32, 24, 16, 8, 0]"

definition sha_pad :: "bytes \<Rightarrow> bytes" where
  "sha_pad m = m @ CHR 0x80 # replicate ((119 - length m mod 64) mod 64) (CHR 0x00)
     @ be_bytes64 (8 * int (length m))"

fun words32 :: "bytes \<Rightarrow> u32 list" where
  "words32 (a # b # c # d # r) =
     word_of_int (((of_char a * 256 + of_char b) * 256 + of_char c) * 256 + of_char d) # words32 r"
| "words32 _ = []"

function blocks16 :: "u32 list \<Rightarrow> u32 list list" where
  "blocks16 ws = (if length ws < 16 then [] else take 16 ws # blocks16 (drop 16 ws))"
  by pat_completeness auto
termination by (relation "measure length") auto

declare blocks16.simps [simp del]

section \<open>SHA-256\<close>

definition sha256_K :: "u32 list" where
  "sha256_K =
    [1116352408, 1899447441, 3049323471, 3921009573, 961987163, 1508970993, 2453635748, 2870763221,
     3624381080, 310598401, 607225278, 1426881987, 1925078388, 2162078206, 2614888103, 3248222580,
     3835390401, 4022224774, 264347078, 604807628, 770255983, 1249150122, 1555081692, 1996064986,
     2554220882, 2821834349, 2952996808, 3210313671, 3336571891, 3584528711, 113926993, 338241895,
     666307205, 773529912, 1294757372, 1396182291, 1695183700, 1986661051, 2177026350, 2456956037,
     2730485921, 2820302411, 3259730800, 3345764771, 3516065817, 3600352804, 4094571909, 275423344,
     430227734, 506948616, 659060556, 883997877, 958139571, 1322822218, 1537002063, 1747873779,
     1955562222, 2024104815, 2227730452, 2361852424, 2428436474, 2756734187, 3204031479, 3329325298]"

definition sha256_H0 :: "u32 list" where
  "sha256_H0 = [0x6a09e667, 0xbb67ae85, 0x3c6ef372, 0xa54ff53a, 0x510e527f, 0x9b05688c, 0x1f83d9ab, 0x5be0cd19]"

text \<open>The message schedule, newest word first: word \<open>t\<close> from words \<open>t-2\<close>, \<open>t-7\<close>, \<open>t-15\<close>, \<open>t-16\<close>.\<close>

definition sha256_next :: "u32 list \<Rightarrow> u32" where
  "sha256_next rws = (let w2 = rws ! 1; w7 = rws ! 6; w15 = rws ! 14; w16 = rws ! 15;
     s0 = rotr32 7 w15 XOR rotr32 18 w15 XOR drop_bit 3 w15;
     s1 = rotr32 17 w2 XOR rotr32 19 w2 XOR drop_bit 10 w2
   in w16 + s0 + w7 + s1)"

primrec sha_extend :: "(u32 list \<Rightarrow> u32) \<Rightarrow> nat \<Rightarrow> u32 list \<Rightarrow> u32 list" where
  "sha_extend f 0 rws = rws"
| "sha_extend f (Suc n) rws = sha_extend f n (f rws # rws)"

fun sha256_round :: "u32 list \<Rightarrow> u32 \<times> u32 \<Rightarrow> u32 list" where
  "sha256_round [a, b, c, d, e, f, g, h] (k, w) =
     (let S1 = rotr32 6 e XOR rotr32 11 e XOR rotr32 25 e;
          ch = (e AND f) XOR (NOT e AND g);
          t1 = h + S1 + ch + k + w;
          S0 = rotr32 2 a XOR rotr32 13 a XOR rotr32 22 a;
          maj = (a AND b) XOR (a AND c) XOR (b AND c)
      in [t1 + S0 + maj, a, b, c, d + t1, e, f, g])"
| "sha256_round s _ = s"

definition sha256_block :: "u32 list \<Rightarrow> u32 list \<Rightarrow> u32 list" where
  "sha256_block hs ws =
     map2 (+) hs (foldl sha256_round hs (zip sha256_K (rev (sha_extend sha256_next 48 (rev ws)))))"

definition sha256 :: "bytes \<Rightarrow> bytes" where
  "sha256 m = concat (map be_bytes32 (foldl sha256_block sha256_H0 (blocks16 (words32 (sha_pad m)))))"

section \<open>SHA-1\<close>

definition sha1_next :: "u32 list \<Rightarrow> u32" where
  "sha1_next rws = rotr32 31 (rws ! 2 XOR rws ! 7 XOR rws ! 13 XOR rws ! 15)"

fun sha1_round :: "u32 list \<Rightarrow> nat \<times> u32 \<Rightarrow> u32 list" where
  "sha1_round [a, b, c, d, e] (t, w) =
     (let (f, k) = (if t < 20 then ((b AND c) OR (NOT b AND d), 0x5a827999)
                    else if t < 40 then (b XOR c XOR d, 0x6ed9eba1)
                    else if t < 60 then ((b AND c) OR (b AND d) OR (c AND d), 0x8f1bbcdc)
                    else (b XOR c XOR d, 0xca62c1d6))
      in [rotr32 27 a + f + e + k + w, a, rotr32 2 b, c, d])"
| "sha1_round s _ = s"

definition sha1_block :: "u32 list \<Rightarrow> u32 list \<Rightarrow> u32 list" where
  "sha1_block hs ws =
     map2 (+) hs (foldl sha1_round hs (zip [0..<80] (rev (sha_extend sha1_next 64 (rev ws)))))"

definition sha1 :: "bytes \<Rightarrow> bytes" where
  "sha1 m = concat (map be_bytes32
     (foldl sha1_block [0x67452301, 0xefcdab89, 0x98badcfe, 0x10325476, 0xc3d2e1f0]
        (blocks16 (words32 (sha_pad m)))))"

section \<open>HMAC\<close>

definition xor_byte :: "int \<Rightarrow> char \<Rightarrow> char" where
  "xor_byte n c = char_of (of_char c XOR n)"

definition hmac_key :: "bytes \<Rightarrow> bytes" where
  "hmac_key key = (let k = (if length key > 64 then sha256 key else key)
     in k @ replicate (64 - length k) (CHR 0x00))"

definition hmac_sha256 :: "bytes \<Rightarrow> bytes \<Rightarrow> bytes" where
  "hmac_sha256 key msg = (let k = hmac_key key
     in sha256 (map (xor_byte 0x5c) k @ sha256 (map (xor_byte 0x36) k @ msg)))"

section \<open>Lengths\<close>

lemma be_bytes32_ne [simp]: "be_bytes32 w \<noteq> []"
  by (simp add: be_bytes32_def)

lemma foldl_length: "(\<And>x y. length x = n \<Longrightarrow> length (f x y) = n) \<Longrightarrow> length x = n \<Longrightarrow> length (foldl f x ys) = n"
  by (induction ys arbitrary: x) simp_all

lemma sha256_round_length: "length hs = 8 \<Longrightarrow> length (sha256_round hs kw) = 8"
  by (cases "(hs, kw)" rule: sha256_round.cases) (simp_all add: Let_def)

lemma sha256_block_length: "length hs = 8 \<Longrightarrow> length (sha256_block hs ws) = 8"
  by (simp add: sha256_block_def foldl_length [of 8] sha256_round_length)

lemma sha1_round_length: "length hs = 5 \<Longrightarrow> length (sha1_round hs tw) = 5"
  by (cases "(hs, tw)" rule: sha1_round.cases) (simp_all add: Let_def split: if_splits)

lemma sha1_block_length: "length hs = 5 \<Longrightarrow> length (sha1_block hs ws) = 5"
  by (simp add: sha1_block_def foldl_length [of 5] sha1_round_length)

lemma sha256_H0_length: "length sha256_H0 = 8"
  by (simp add: sha256_H0_def)

lemma concat_be_bytes32_length: "length (concat (map be_bytes32 ws)) = 4 * length ws"
  by (induction ws) (simp_all add: be_bytes32_def)

lemma length_sha256 [simp]: "length (sha256 m) = 32"
  by (simp add: sha256_def concat_be_bytes32_length foldl_length [of 8] sha256_block_length sha256_H0_length)

lemma length_sha1 [simp]: "length (sha1 m) = 20"
  by (simp add: sha1_def concat_be_bytes32_length foldl_length [of 5] sha1_block_length)

lemma length_hmac_sha256 [simp]: "length (hmac_sha256 key msg) = 32"
  by (simp add: hmac_sha256_def Let_def)

lemma hmac_sha256_ne [simp]: "hmac_sha256 key msg \<noteq> []"
  by (metis length_hmac_sha256 list.size(3) zero_neq_numeral)

section \<open>Evaluating SHA-1 by rewriting\<close>

text \<open>The words of the schedule, oldest first, from a window of the last sixteen.\<close>

primrec window_words :: "(u32 list \<Rightarrow> u32) \<Rightarrow> nat \<Rightarrow> u32 list \<Rightarrow> u32 list" where
  "window_words f 0 win = []"
| "window_words f (Suc n) win = last win # window_words f n (f win # butlast win)"

lemma window_words_take: "n \<le> length win \<Longrightarrow> window_words f n win = take n (rev win)"
proof (induction n arbitrary: win)
  case (Suc n)
  then have "win \<noteq> []" by auto
  then obtain xs x where "win = xs @ [x]" by (metis append_butlast_last_id)
  with Suc show ?case by simp
qed simp

lemma window_words_extend:
  assumes "\<And>win tail. length win = 16 \<Longrightarrow> f (win @ tail) = f win"
  shows "length win = 16 \<Longrightarrow> rev (sha_extend f n (win @ tail)) = rev tail @ window_words f (n + 16) win"
proof (induction n arbitrary: win tail)
  case 0
  then show ?case by (simp add: window_words_take)
next
  case (Suc n)
  from Suc.prems obtain xs x where win: "win = xs @ [x]" by (metis append_butlast_last_id list.size(3) zero_neq_numeral)
  with Suc.IH [of "f win # xs" "x # tail"] Suc.prems assms [OF Suc.prems, of tail]
  show ?case by (simp only: add_Suc window_words.simps) simp
qed

text \<open>The rounds of a block over the window.\<close>

primrec sha1_run :: "nat \<Rightarrow> nat \<Rightarrow> u32 list \<Rightarrow> u32 list \<Rightarrow> u32 list" where
  "sha1_run 0 t hs win = hs"
| "sha1_run (Suc n) t hs win = sha1_run n (Suc t) (sha1_round hs (t, last win)) (sha1_next win # butlast win)"

lemma sha1_run_eq: "foldl sha1_round hs (zip [t..<t + n] (window_words sha1_next n win)) = sha1_run n t hs win"
proof (induction n arbitrary: t hs win)
  case (Suc n)
  have "[t..<t + Suc n] = t # [Suc t..<Suc t + n]" by (simp only: upt_conv_Cons less_add_same_cancel1 add_Suc_shift zero_less_Suc)
  then show ?case by (simp only: window_words.simps zip_Cons_Cons foldl_Cons Suc sha1_run.simps)
qed simp

lemma sha1_block_run:
  assumes "length ws = 16"
  shows "sha1_block hs ws = map2 (+) hs (sha1_run 80 0 hs (rev ws))"
proof -
  have "sha1_next (win @ tail) = sha1_next win" if "length win = 16" for win tail
    using that by (simp add: sha1_next_def nth_append)
  from window_words_extend [of sha1_next, OF this, of "rev ws" 64 "[]"] assms
  have "rev (sha_extend sha1_next 64 (rev ws)) = window_words sha1_next 80 (rev ws)" by simp
  with sha1_run_eq [of hs 0 80 "rev ws"] show ?thesis by (simp add: sha1_block_def)
qed

text \<open>Rewriting computes with word numerals of any size; \<open>norm32\<close> marks the places where they are reduced.\<close>

definition norm32 :: "u32 \<Rightarrow> u32" where
  "norm32 x = x"

lemma norm32_of_int: "norm32 (word_of_int i) = word_of_int (take_bit 32 i)"
  unfolding norm32_def by transfer simp

lemma norm32_simps [simp]: "norm32 0 = 0" "norm32 1 = 1" "norm32 (numeral k) = word_of_int (take_bit 32 (numeral k))"
  "norm32 (- numeral k) = word_of_int (take_bit 32 (- numeral k))"
proof -
  show "norm32 0 = 0" "norm32 1 = 1" by (simp_all add: norm32_def)
  show "norm32 (numeral k) = word_of_int (take_bit 32 (numeral k))" "norm32 (- numeral k) = word_of_int (take_bit 32 (- numeral k))"
    unfolding norm32_of_int [symmetric] by simp_all
qed

lemma sha1_round_norm:
  "sha1_round [a, b, c, d, e] (t, w) =
     (let (f, k) = (if t < 20 then ((b AND c) OR (norm32 (NOT b) AND d), 0x5a827999)
                    else if t < 40 then (b XOR c XOR d, 0x6ed9eba1)
                    else if t < 60 then ((b AND c) OR (b AND d) OR (c AND d), 0x8f1bbcdc)
                    else (b XOR c XOR d, 0xca62c1d6))
      in [norm32 (rotr32 27 a + f + e + k + w), a, rotr32 2 b, c, d])"
  by (simp add: norm32_def)

lemma rotr32_norm: "rotr32 n x = drop_bit n x OR norm32 (push_bit (32 - n) x)"
  by (simp add: norm32_def rotr32_def)

lemma sha1_run_numeral:
  "sha1_run (numeral k) t hs win = sha1_run (pred_numeral k) (t + 1) (sha1_round hs (t, last win)) (sha1_next win # butlast win)"
  by (simp add: numeral_eq_Suc)

lemmas sha1_eval = sha1_block_run sha1_next_def rotr32_norm sha1_round_norm sha1_run_numeral

end
