(* ===== verification/Manager.thy ===== *)
theory Manager
  imports Errors GoCrypto "HOL-Library.Monad_Syntax"
begin

text \<open>
  The invocation manager: \<open>internal/sdkrequest/request.go\<close> and \<open>internal/sdkrequest/manager.go\<close>. The
  manager lives for one call of a user function. It holds the incoming request (with the memoised
  results of earlier steps, keyed by hashed step ID), the error a step recorded, the opcodes to report
  and, per step ID, the index of its last use. Its mutex makes each method atomic, so each method is
  one state transformer.

  The numbering contract the step tools rely on is the locale \<open>op_numbering\<close>.
\<close>

section \<open>The executor's request\<close>

record CallStack =
  cs_Current :: int
  cs_Stack :: "string list"

record CallCtx =
  DisableImmediateExecution :: bool
  cc_Env :: string
  cc_FunctionID :: string
  cc_RunID :: string
  cc_StepID :: string
  cc_Stack :: CallStack
  cc_Attempt :: int

record Request =
  rq_Event :: RawMessage
  rq_Events :: "json list"
  rq_Steps :: "string \<rightharpoonup> json"
  rq_CallCtx :: CallCtx
  rq_UseAPI :: bool

text \<open>The zero values of the structs.\<close>

definition zero_CallCtx :: CallCtx where
  "zero_CallCtx = \<lparr>DisableImmediateExecution = False, cc_Env = [], cc_FunctionID = [], cc_RunID = [], cc_StepID = [],
     cc_Stack = \<lparr>cs_Current = 0, cs_Stack = []\<rparr>, cc_Attempt = 0\<rparr>"

definition zero_Request :: Request where
  "zero_Request = \<lparr>rq_Event = None, rq_Events = [], rq_Steps = Map.empty, rq_CallCtx = zero_CallCtx, rq_UseAPI = False\<rparr>"

text \<open>\<open>json.Unmarshal(body, request)\<close>.\<close>

definition Unmarshal_CallStack :: "(string \<times> json) list \<Rightarrow> CallStack option" where
  "Unmarshal_CallStack kvs = (case (uint_field ''current'' kvs, string_list_field ''stack'' kvs) of
     (Some c, Some st) \<Rightarrow> Some \<lparr>cs_Current = c, cs_Stack = st\<rparr> | _ \<Rightarrow> None)"

definition Unmarshal_CallCtx :: "(string \<times> json) list \<Rightarrow> CallCtx option" where
  "Unmarshal_CallCtx kvs =
     do { d \<leftarrow> bool_field ''disable_immediate_execution'' kvs;
          env \<leftarrow> string_field ''env'' kvs;
          fn \<leftarrow> string_field ''fn_id'' kvs;
          run \<leftarrow> string_field ''run_id'' kvs;
          st \<leftarrow> string_field ''step_id'' kvs;
          ms \<leftarrow> struct_field ''stack'' kvs;
          stack \<leftarrow> Unmarshal_CallStack ms;
          a \<leftarrow> int_field ''attempt'' kvs;
          Some \<lparr>DisableImmediateExecution = d, cc_Env = env, cc_FunctionID = fn, cc_RunID = run, cc_StepID = st,
                cc_Stack = stack, cc_Attempt = a\<rparr> }"

definition Unmarshal_Request :: "json \<Rightarrow> Request option" where
  "Unmarshal_Request j =
     do { kvs \<leftarrow> (case j of JObj kvs \<Rightarrow> Some kvs | JNull \<Rightarrow> Some [] | _ \<Rightarrow> None);
          evs \<leftarrow> raw_list_field ''events'' kvs;
          steps \<leftarrow> raw_map_field ''steps'' kvs;
          cs \<leftarrow> struct_field ''ctx'' kvs;
          cc \<leftarrow> Unmarshal_CallCtx cs;
          api \<leftarrow> bool_field ''use_api'' kvs;
          Some \<lparr>rq_Event = raw_field ''event'' kvs, rq_Events = evs, rq_Steps = steps, rq_CallCtx = cc, rq_UseAPI = api\<rparr> }"

section \<open>Opcodes\<close>

datatype Opcode = OpcodeNone | OpcodeStep | OpcodeStepRun | OpcodeStepError | OpcodeStepPlanned
  | OpcodeSleep | OpcodeWaitForEvent | OpcodeInvokeFunction | OpcodeAIGateway

record UserError =
  ue_Name :: string
  ue_Message :: string
  ue_Data :: RawMessage

record GeneratorOpcode =
  op_Op :: Opcode
  op_ID :: string
  op_Name :: string
  op_Opts :: "json option"
  op_Data :: RawMessage
  op_Error :: "UserError option"

record UnhashedOp =
  uo_Op :: Opcode
  uo_ID :: string
  uo_Name :: string
  uo_Opts :: "json option"
  uo_Pos :: nat

definition hash_input :: "UnhashedOp \<Rightarrow> string" where
  "hash_input u = (if uo_Pos u > 0 then uo_ID u @ '':'' @ show_nat (uo_Pos u) else uo_ID u)"

text \<open>\<open>Hash\<close> never fails, so \<open>MustHash\<close> never panics.\<close>

definition Hash :: "UnhashedOp \<Rightarrow> string" where
  "Hash u = hex_encode (sha1 (hash_input u))"

definition MustHash :: "UnhashedOp \<Rightarrow> string" where
  "MustHash u = Hash u"

section \<open>The manager\<close>

record manager =
  m_err :: "goerr option"
  m_ops :: "GeneratorOpcode list"
  m_request :: Request
  m_indexes :: "string \<rightharpoonup> nat"

definition NewManager :: "Request \<Rightarrow> manager" where
  "NewManager req = \<lparr>m_err = None, m_ops = [], m_request = req, m_indexes = Map.empty\<rparr>"

definition SetErr :: "goerr \<Rightarrow> manager \<Rightarrow> manager" where
  "SetErr e m = m\<lparr>m_err := Some e\<rparr>"

definition AppendOp :: "GeneratorOpcode \<Rightarrow> manager \<Rightarrow> manager" where
  "AppendOp op m = m\<lparr>m_ops := m_ops m @ [op]\<rparr>"

definition Step :: "manager \<Rightarrow> UnhashedOp \<Rightarrow> json option" where
  "Step m u = rq_Steps (m_request m) (MustHash u)"

definition NewOp :: "Opcode \<Rightarrow> string \<Rightarrow> json option \<Rightarrow> manager \<Rightarrow> UnhashedOp \<times> manager" where
  "NewOp op sid opts m =
     (let n = (case m_indexes m sid of Some n \<Rightarrow> n + 1 | None \<Rightarrow> 0)
      in (\<lparr>uo_Op = op, uo_ID = sid, uo_Name = [], uo_Opts = opts, uo_Pos = n\<rparr>,
          m\<lparr>m_indexes := (m_indexes m)(sid \<mapsto> n)\<rparr>))"

section \<open>Frame facts\<close>

lemma manager_frame [simp, frame_simps]:
  "m_ops (SetErr e m) = m_ops m" "m_request (SetErr e m) = m_request m" "m_indexes (SetErr e m) = m_indexes m"
  "m_err (SetErr e m) = Some e"
  "m_ops (AppendOp op m) = m_ops m @ [op]" "m_err (AppendOp op m) = m_err m"
  "m_request (AppendOp op m) = m_request m" "m_indexes (AppendOp op m) = m_indexes m"
  "m_ops (snd (NewOp k sid opts m)) = m_ops m" "m_err (snd (NewOp k sid opts m)) = m_err m"
  "m_request (snd (NewOp k sid opts m)) = m_request m"
  by (simp_all add: SetErr_def AppendOp_def NewOp_def Let_def)

lemma Step_frame [simp, frame_simps]:
  "Step (snd (NewOp k sid opts m)) u = Step m u" "Step (SetErr e m) u = Step m u" "Step (AppendOp op m) u = Step m u"
  by (simp_all add: Step_def)

text \<open>The position the next operation with an ID will get.\<close>

definition next_pos :: "manager \<Rightarrow> string \<Rightarrow> nat" where
  "next_pos m sid = (case m_indexes m sid of Some n \<Rightarrow> n + 1 | None \<Rightarrow> 0)"

lemma NewOp_fst: "fst (NewOp k sid opts m) = \<lparr>uo_Op = k, uo_ID = sid, uo_Name = [], uo_Opts = opts, uo_Pos = next_pos m sid\<rparr>"
  by (simp add: NewOp_def next_pos_def Let_def)

lemma next_pos_NewOp: "next_pos (snd (NewOp k sid opts m)) = (next_pos m)(sid := Suc (next_pos m sid))"
  by (rule ext) (simp add: NewOp_def next_pos_def Let_def)

lemma next_pos_frame [simp, frame_simps]:
  "next_pos (SetErr e m) = next_pos m" "next_pos (AppendOp op m) = next_pos m" "next_pos (NewManager req) sid = 0"
  by (simp_all add: next_pos_def NewManager_def fun_eq_iff)

section \<open>Numbering\<close>

locale op_numbering =
  fixes position :: "'m \<Rightarrow> string \<Rightarrow> nat"
    and advance :: "string \<Rightarrow> 'm \<Rightarrow> 'm"
  assumes advance: "position (advance sid m) = (position m)(sid := Suc (position m sid))"
begin

text \<open>The keys (ID, position) a sequence of calls gets.\<close>

fun keys :: "'m \<Rightarrow> string list \<Rightarrow> (string \<times> nat) list" where
  "keys m [] = []"
| "keys m (sid # ids) = (sid, position m sid) # keys (advance sid m) ids"

lemma keys_nth: "i < length ids \<Longrightarrow> keys m ids ! i = (ids ! i, position m (ids ! i) + count_list (take i ids) (ids ! i))"
proof (induction ids arbitrary: m i)
  case (Cons sid ids)
  then show ?case by (cases i) (auto simp: advance)
qed simp

lemma keys_length [simp]: "length (keys m ids) = length ids"
  by (induction ids arbitrary: m) auto

lemma keys_lower: "(x, p) \<in> set (keys m ids) \<Longrightarrow> position m x \<le> p"
proof (induction ids arbitrary: m)
  case (Cons sid ids)
  then show ?case by (cases "sid = x") (force simp: advance)+
qed simp

lemma keys_distinct: "distinct (keys m ids)"
proof (induction ids arbitrary: m)
  case (Cons sid ids)
  have "(sid, position m sid) \<notin> set (keys (advance sid m) ids)"
    using keys_lower [of sid "position m sid" "advance sid m" ids] by (auto simp: advance)
  with Cons show ?case by simp
qed simp

end

interpretation mgr_num: op_numbering next_pos "\<lambda>sid m. snd (NewOp k sid opts m)" for k opts
  by unfold_locales (rule next_pos_NewOp)

text \<open>The operations a run of \<open>NewOp\<close> calls creates, in order.\<close>

fun new_ops :: "manager \<Rightarrow> (Opcode \<times> string \<times> json option) list \<Rightarrow> UnhashedOp list" where
  "new_ops m [] = []"
| "new_ops m ((k, sid, opts) # cs) = fst (NewOp k sid opts m) # new_ops (snd (NewOp k sid opts m)) cs"

lemma new_ops_keys:
  "map (\<lambda>u. (uo_ID u, uo_Pos u)) (new_ops m cs) = mgr_num.keys k opts m (map (fst \<circ> snd) cs)"
proof (induction m cs rule: new_ops.induct)
  case (2 m k' sid opts' cs)
  have "mgr_num.keys k opts (snd (NewOp k' sid opts' m)) ids = mgr_num.keys k opts (snd (NewOp k sid opts m)) ids" for ids
    by (simp add: NewOp_def Let_def)
  with 2 show ?case by (simp add: NewOp_fst)
qed simp

section \<open>Properties\<close>

text \<open>C14: Step numbering. In one invocation the i-th step call with a given ID gets the position i, whatever
  tools the calls use and however they interleave, and no two calls share a pair (ID, position): a function that
  reaches its steps in the same order on every invocation sees the same keys every time.\<close>

theorem NewOp_positions:
  "(\<forall>i < length cs. uo_Pos (new_ops (NewManager req) cs ! i)
      = count_list (take i (map (fst \<circ> snd) cs)) (map (fst \<circ> snd) cs ! i)) \<and>
   distinct (map (\<lambda>u. (uo_ID u, uo_Pos u)) (new_ops (NewManager req) cs))"
proof (intro conjI allI impI)
  let ?ids = "map (fst \<circ> snd) cs"
  have keys: "map (\<lambda>u. (uo_ID u, uo_Pos u)) (new_ops (NewManager req) cs)
      = mgr_num.keys OpcodeStep None (NewManager req) ?ids"
    by (rule new_ops_keys)
  show "distinct (map (\<lambda>u. (uo_ID u, uo_Pos u)) (new_ops (NewManager req) cs))"
    unfolding keys by (rule mgr_num.keys_distinct)
  fix i assume i: "i < length cs"
  have len: "length (new_ops (NewManager req) cs) = length cs"
    using arg_cong [OF keys, of length] by simp
  have "map (\<lambda>u. (uo_ID u, uo_Pos u)) (new_ops (NewManager req) cs) ! i
      = (?ids ! i, next_pos (NewManager req) (?ids ! i) + count_list (take i ?ids) (?ids ! i))"
    unfolding keys using i by (simp add: mgr_num.keys_nth)
  then show "uo_Pos (new_ops (NewManager req) cs ! i) = count_list (take i ?ids) (?ids ! i)"
    using i len by simp
qed

theorem NewOp_positions_witness:
  "uo_Pos (new_ops (NewManager zero_Request) [(OpcodeStep, ''a'', None), (OpcodeSleep, ''b'', None), (OpcodeStep, ''a'', None)] ! 2) = 1"
  using NewOp_positions [of "[(OpcodeStep, ''a'', None), (OpcodeSleep, ''b'', None), (OpcodeStep, ''a'', None)]" zero_Request]
  by (auto dest: spec [where x = 2] simp: numeral_2_eq_2)

lemma hash_input_takeWhile:
  "CHR '':'' \<notin> set (uo_ID u) \<Longrightarrow> takeWhile (\<lambda>c. c \<noteq> CHR '':'') (hash_input u) = uo_ID u"
  by (auto simp: hash_input_def takeWhile_append takeWhile_eq_all_conv)

text \<open>C15: Two step calls of one run are told apart by their keys whenever their IDs hold no colon: the text
  that is hashed is the same only for the same ID at the same position.\<close>

theorem step_key_unambiguous:
  assumes "CHR '':'' \<notin> set (uo_ID u)" "CHR '':'' \<notin> set (uo_ID v)"
  shows "hash_input u = hash_input v \<longleftrightarrow> uo_ID u = uo_ID v \<and> uo_Pos u = uo_Pos v"
proof
  assume eq: "hash_input u = hash_input v"
  with assms have ids: "uo_ID u = uo_ID v" by (metis hash_input_takeWhile)
  with eq have "uo_Pos u = uo_Pos v"
    by (auto simp: hash_input_def show_nat_inject split: if_splits)
  with ids show "uo_ID u = uo_ID v \<and> uo_Pos u = uo_Pos v" ..
qed (simp add: hash_input_def)

theorem step_key_unambiguous_witness:
  "hash_input \<lparr>uo_Op = OpcodeStep, uo_ID = ''a'', uo_Name = [], uo_Opts = None, uo_Pos = 1\<rparr>
   \<noteq> hash_input \<lparr>uo_Op = OpcodeStep, uo_ID = ''a'', uo_Name = [], uo_Opts = None, uo_Pos = 2\<rparr>"
  by (subst step_key_unambiguous) simp_all

text \<open>The separator is not escaped: the second and later uses of an ID \<open>x\<close> share their hash with the first
  use of the IDs \<open>x:1\<close>, \<open>x:2\<close> and so on, whatever their kinds and options.\<close>

theorem step_key_collision:
  "Hash \<lparr>uo_Op = k, uo_ID = x @ '':'' @ show_nat (Suc n), uo_Name = a, uo_Opts = opts, uo_Pos = 0\<rparr>
   = Hash \<lparr>uo_Op = k', uo_ID = x, uo_Name = a', uo_Opts = opts', uo_Pos = Suc n\<rparr>"
  by (simp add: Hash_def hash_input_def)

end
