(* ===== verification/GoUrl.thy ===== *)
theory GoUrl
  imports GoStd "HOL-Library.List_Lexorder" "HOL-Library.Char_ord"
begin

text \<open>
  Query strings of Go's \<open>net/url\<close>. A \<open>url.Values\<close> is the list of its (key, value) pairs: the order
  of the values of one key is the list order, the order of different keys has no meaning, as in
  Go's map of slices. \<open>ParseQuery\<close> returns the pairs it could read and whether it met an error.
\<close>

section \<open>Escaping\<close>

definition unreserved :: "char \<Rightarrow> bool" where
  "unreserved c \<longleftrightarrow> (let b = byte c in
     48 \<le> b \<and> b \<le> 57 \<or> 65 \<le> b \<and> b \<le> 90 \<or> 97 \<le> b \<and> b \<le> 122 \<or> b \<in> {45, 46, 95, 126})"

definition upper_hex :: "nat \<Rightarrow> char" where
  "upper_hex n = (if n < 10 then byte_chr (48 + n) else byte_chr (55 + n))"

definition escape_char :: "char \<Rightarrow> string" where
  "escape_char c = (if unreserved c then [c] else if c = CHR '' '' then [CHR ''+'']
     else [CHR ''%'', upper_hex (byte c div 16), upper_hex (byte c mod 16)])"

definition QueryEscape :: "string \<Rightarrow> string" where
  "QueryEscape s = concat (map escape_char s)"

fun QueryUnescape :: "string \<Rightarrow> string option" where
  "QueryUnescape [] = Some []"
| "QueryUnescape (c # r) =
     (if c = CHR ''%'' then
        (case r of a # b # r' \<Rightarrow>
           (case (hex_val a, hex_val b) of
              (Some x, Some y) \<Rightarrow> map_option ((#) (byte_chr (16 * x + y))) (QueryUnescape r')
            | _ \<Rightarrow> None)
         | _ \<Rightarrow> None)
      else map_option ((#) (if c = CHR ''+'' then CHR '' '' else c)) (QueryUnescape r))"

lemma hex_val_upper_hex [simp]: "n < 16 \<Longrightarrow> hex_val (upper_hex n) = Some n"
  by (auto simp: hex_val_def upper_hex_def Let_def)

lemma QueryUnescape_char: "QueryUnescape (escape_char c @ r) = map_option ((#) c) (QueryUnescape r)"
proof -
  have "16 * (byte c div 16) + byte c mod 16 = byte c" by simp
  moreover have "unreserved c \<Longrightarrow> c \<noteq> CHR ''%'' \<and> c \<noteq> CHR ''+''"
    by (auto simp: unreserved_def byte_def)
  ultimately show ?thesis by (auto simp: escape_char_def)
qed

lemma QueryUnescape_QueryEscape [simp]: "QueryUnescape (QueryEscape s) = Some s"
  by (induction s) (simp_all add: QueryEscape_def QueryUnescape_char)

lemma QueryUnescape_safe: "list_all query_safe s \<Longrightarrow> QueryUnescape s = Some s"
  by (induction s) (auto simp: query_safe_def)

definition no_sep :: "char \<Rightarrow> bool" where
  "no_sep c \<longleftrightarrow> c \<notin> {CHR ''&'', CHR '';'', CHR ''=''}"

lemma no_sep_iff: "no_sep c \<longleftrightarrow> byte c \<notin> {38, 59, 61}"
proof -
  have "{38, 59, 61} = byte ` {CHR ''&'', CHR '';'', CHR ''=''}"
    by (simp add: byte_def)
  then show ?thesis
    unfolding no_sep_def by (simp add: inj_image_mem_iff inj_on_def byte_inject)
qed

lemma query_safe_no_sep: "query_safe c \<Longrightarrow> no_sep c"
  by (auto simp: query_safe_def no_sep_def)

lemma byte_upper_hex: "n < 16 \<Longrightarrow> byte (upper_hex n) = (if n < 10 then 48 + n else 55 + n)"
  by (simp add: upper_hex_def)

lemma escape_char_no_sep: "list_all no_sep (escape_char c)"
proof -
  have "unreserved c \<Longrightarrow> no_sep c" by (auto simp: unreserved_def no_sep_iff Let_def)
  then show ?thesis
    by (auto simp: escape_char_def no_sep_iff byte_upper_hex) (auto simp: byte_def)
qed

lemma QueryEscape_no_sep: "list_all no_sep (QueryEscape s)"
  using escape_char_no_sep by (auto simp: QueryEscape_def list_all_iff)

section \<open>Parsing and encoding\<close>

type_synonym url_values = "(string \<times> string) list"

definition cut_char :: "char \<Rightarrow> string \<Rightarrow> string \<times> string" where
  "cut_char c s = (takeWhile (\<lambda>x. x \<noteq> c) s, drop 1 (dropWhile (\<lambda>x. x \<noteq> c) s))"

lemma cut_char_rest_less: "s \<noteq> [] \<Longrightarrow> length (snd (cut_char c s)) < length s"
proof -
  assume "s \<noteq> []"
  then have "0 < length s" by simp
  moreover have "length (dropWhile (\<lambda>x. x \<noteq> c) s) \<le> length s" by (rule length_dropWhile_le)
  ultimately have "length (dropWhile (\<lambda>x. x \<noteq> c) s) - 1 < length s" by linarith
  then show ?thesis by (simp add: cut_char_def)
qed

text \<open>One \<open>key=value\<close> segment: \<open>None\<close> is an error, \<open>Some None\<close> an empty segment.\<close>

definition parse_segment :: "string \<Rightarrow> (string \<times> string) option option" where
  "parse_segment seg =
     (if CHR '';'' \<in> set seg then None
      else if seg = [] then Some None
      else case cut_char (CHR ''='') seg of (k, v) \<Rightarrow>
        (case (QueryUnescape k, QueryUnescape v) of
           (Some k', Some v') \<Rightarrow> Some (Some (k', v'))
         | _ \<Rightarrow> None))"

function ParseQuery :: "string \<Rightarrow> url_values \<times> bool" where
  "ParseQuery s =
     (if s = [] then ([], False)
      else case cut_char (CHR ''&'') s of (seg, rest) \<Rightarrow>
        (case ParseQuery rest of (m, e) \<Rightarrow>
           (case parse_segment seg of
              None \<Rightarrow> (m, True)
            | Some None \<Rightarrow> (m, e)
            | Some (Some kv) \<Rightarrow> (kv # m, e))))"
  by pat_completeness auto
termination
proof (relation "measure length")
  fix s seg rest :: string
  assume "s \<noteq> []" and "(seg, rest) = cut_char (CHR ''&'') s"
  then show "(rest, s) \<in> measure length"
    using cut_char_rest_less [of s "CHR ''&''"] by (metis in_measure snd_conv)
qed simp

declare ParseQuery.simps [simp del]

definition values_Get :: "url_values \<Rightarrow> string \<Rightarrow> string" where
  "values_Get m k = (case map_of m k of None \<Rightarrow> [] | Some v \<Rightarrow> v)"

definition values_Del :: "url_values \<Rightarrow> string \<Rightarrow> url_values" where
  "values_Del m k = filter (\<lambda>(k', _). k' \<noteq> k) m"

definition values_Set :: "url_values \<Rightarrow> string \<Rightarrow> string \<Rightarrow> url_values" where
  "values_Set m k v = values_Del m k @ [(k, v)]"

fun join_amp :: "string list \<Rightarrow> string" where
  "join_amp [] = []"
| "join_amp [s] = s"
| "join_amp (s # t # r) = s @ CHR ''&'' # join_amp (t # r)"

definition encode_pair :: "string \<times> string \<Rightarrow> string" where
  "encode_pair kv = QueryEscape (fst kv) @ CHR ''='' # QueryEscape (snd kv)"

text \<open>\<open>Values.Encode\<close> sorts by key and keeps the order of the values of one key.\<close>

definition sorted_values :: "url_values \<Rightarrow> url_values" where
  "sorted_values m = sort_key fst m"

definition values_Encode :: "url_values \<Rightarrow> string" where
  "values_Encode m = join_amp (map encode_pair (sorted_values m))"

lemma values_Get_Set [simp]: "values_Get (values_Set m k v) k = v"
proof -
  have "map_of (values_Del m k) k = None"
    by (auto simp: values_Del_def map_of_eq_None_iff)
  then show ?thesis by (simp add: values_Get_def values_Set_def map_add_def)
qed

lemma values_Get_Set_other [simp]: "k' \<noteq> k \<Longrightarrow> values_Get (values_Set m k v) k' = values_Get m k'"
proof -
  assume "k' \<noteq> k"
  moreover have "map_of (values_Del m k) k' = (if k' = k then None else map_of m k')"
    unfolding values_Del_def by (induction m) auto
  ultimately show ?thesis by (simp add: values_Get_def values_Set_def map_add_def split: option.splits)
qed

lemma values_Get_Del [simp]: "values_Get (values_Del m k) k = []"
proof -
  have "map_of (values_Del m k) k = None"
    by (auto simp: values_Del_def map_of_eq_None_iff)
  then show ?thesis by (simp add: values_Get_def)
qed

lemma map_of_by_filter:
  "map_of m k = (case filter (\<lambda>kv. fst kv = k) m of [] \<Rightarrow> None | kv # _ \<Rightarrow> Some (snd kv))"
  by (induction m) auto

lemma values_Get_sorted [simp]: "values_Get (sorted_values m) k = values_Get m k"
proof -
  have "map_of (sorted_values m) k = map_of m k"
    by (simp add: sorted_values_def map_of_by_filter sort_key_stable)
  then show ?thesis by (simp add: values_Get_def)
qed

lemma no_sep_sepD: "no_sep x \<Longrightarrow> c \<in> {CHR ''&'', CHR '';'', CHR ''=''} \<Longrightarrow> x \<noteq> c"
  by (auto simp: no_sep_def)

lemma all_no_sep: "list_all no_sep s \<Longrightarrow> c \<in> {CHR ''&'', CHR '';'', CHR ''=''} \<Longrightarrow> \<forall>x \<in> set s. x \<noteq> c"
  by (auto simp: list_all_iff dest: no_sep_sepD)

lemma cut_char_stop: "\<forall>x \<in> set a. x \<noteq> c \<Longrightarrow> cut_char c (a @ c # b) = (a, b)"
  by (simp add: cut_char_def)

lemma cut_char_end: "\<forall>x \<in> set a. x \<noteq> c \<Longrightarrow> cut_char c a = (a, [])"
proof -
  assume a: "\<forall>x \<in> set a. x \<noteq> c"
  then have "takeWhile (\<lambda>x. x \<noteq> c) a = a" and "dropWhile (\<lambda>x. x \<noteq> c) a = []"
    by (simp_all only: takeWhile_eq_all_conv dropWhile_eq_Nil_conv)
  then show ?thesis unfolding cut_char_def by (simp only: drop_Nil)
qed

lemma parse_segment_pair:
  assumes "list_all no_sep k" and "list_all no_sep v"
    and "QueryUnescape k = Some k'" and "QueryUnescape v = Some v'"
  shows "parse_segment (k @ CHR ''='' # v) = Some (Some (k', v'))"
proof -
  have "cut_char (CHR ''='') (k @ CHR ''='' # v) = (k, v)"
    by (rule cut_char_stop) (simp add: all_no_sep [OF assms(1)])
  moreover have "CHR '';'' \<notin> set (k @ CHR ''='' # v)"
    using all_no_sep [OF assms(1), of "CHR '';''"] all_no_sep [OF assms(2), of "CHR '';''"] by auto
  ultimately show ?thesis using assms by (simp add: parse_segment_def)
qed

lemma ParseQuery_Nil [simp]: "ParseQuery [] = ([], False)"
  by (simp add: ParseQuery.simps)

lemma ParseQuery_single:
  assumes "seg \<noteq> []" and "CHR ''&'' \<notin> set seg" and "parse_segment seg = Some (Some kv)"
  shows "ParseQuery seg = ([kv], False)"
proof -
  have "cut_char (CHR ''&'') seg = (seg, [])" using assms by (intro cut_char_end) auto
  then show ?thesis using assms by (subst ParseQuery.simps) simp
qed

lemma ParseQuery_Cons:
  assumes "seg \<noteq> []" and "CHR ''&'' \<notin> set seg" and "parse_segment seg = Some (Some kv)"
    and "ParseQuery r = (m, e)"
  shows "ParseQuery (seg @ CHR ''&'' # r) = (kv # m, e)"
proof -
  have "cut_char (CHR ''&'') (seg @ CHR ''&'' # r) = (seg, r)" using assms by (intro cut_char_stop) auto
  then show ?thesis using assms by (subst ParseQuery.simps) simp
qed

lemma encode_pair_parse:
  "parse_segment (encode_pair kv) = Some (Some kv)" "encode_pair kv \<noteq> []" "CHR ''&'' \<notin> set (encode_pair kv)"
proof -
  show "parse_segment (encode_pair kv) = Some (Some kv)"
    using parse_segment_pair [OF QueryEscape_no_sep QueryEscape_no_sep
        QueryUnescape_QueryEscape QueryUnescape_QueryEscape, of "fst kv" "snd kv"]
    by (simp add: encode_pair_def)
  show "encode_pair kv \<noteq> []" by (simp add: encode_pair_def)
  show "CHR ''&'' \<notin> set (encode_pair kv)"
    using all_no_sep [OF QueryEscape_no_sep, of "CHR ''&''"] by (auto simp: encode_pair_def)
qed

lemma ParseQuery_join: "ParseQuery (join_amp (map encode_pair m)) = (m, False)"
proof (induction "map encode_pair m" arbitrary: m rule: join_amp.induct)
  case (2 s)
  then show ?case using ParseQuery_single encode_pair_parse by (auto simp: map_eq_Cons_conv)
next
  case (3 s t r)
  then obtain kv m' where m: "m = kv # m'" "s = encode_pair kv" "t # r = map encode_pair m'"
    by (auto simp: Cons_eq_map_conv)
  have "ParseQuery (join_amp (map encode_pair m')) = (m', False)"
    by (rule "3.hyps"(1)) (rule m(3))
  with m(3) have "ParseQuery (join_amp (t # r)) = (m', False)" by simp
  then have "ParseQuery (encode_pair kv @ CHR ''&'' # join_amp (t # r)) = (kv # m', False)"
    using ParseQuery_Cons encode_pair_parse by blast
  with m show ?case by (metis join_amp.simps(3) list.simps(9))
qed simp

text \<open>The round trip: a query string that \<open>Encode\<close> wrote is read back without error.\<close>

lemma ParseQuery_Encode: "ParseQuery (values_Encode m) = (sorted_values m, False)"
  by (simp add: values_Encode_def ParseQuery_join)

section \<open>URLs\<close>

text \<open>\<open>url.URL\<close> and \<open>url.Parse\<close>. User information is kept as written; zone identifiers of IPv6
  literals are not treated apart.\<close>

record url =
  url_Scheme :: string
  url_Opaque :: string
  url_User :: "string option"
  url_Host :: string
  url_Path :: string
  url_RawPath :: string
  url_ForceQuery :: bool
  url_RawQuery :: string
  url_Fragment :: string

definition zero_url :: url where
  "zero_url = \<lparr>url_Scheme = [], url_Opaque = [], url_User = None, url_Host = [], url_Path = [],
     url_RawPath = [], url_ForceQuery = False, url_RawQuery = [], url_Fragment = []\<rparr>"

definition is_letter :: "char \<Rightarrow> bool" where
  "is_letter c \<longleftrightarrow> (let b = byte c in 65 \<le> b \<and> b \<le> 90 \<or> 97 \<le> b \<and> b \<le> 122)"

definition lower_char :: "char \<Rightarrow> char" where
  "lower_char c = (if 65 \<le> byte c \<and> byte c \<le> 90 then byte_chr (byte c + 32) else c)"

definition ToLower :: "string \<Rightarrow> string" where
  "ToLower s = map lower_char s"

text \<open>The outer \<open>None\<close> is the error ``missing protocol scheme''; \<open>Some ([], s)\<close> means no scheme.\<close>

definition getScheme :: "string \<Rightarrow> (string \<times> string) option" where
  "getScheme raw = (let ok = (\<lambda>c. is_letter c \<or> is_digit c \<or> c \<in> {CHR ''+'', CHR ''-'', CHR ''.''});
       sch = takeWhile ok raw; rest = dropWhile ok raw
     in case rest of
          [] \<Rightarrow> Some ([], raw)
        | c # r \<Rightarrow>
            if sch \<noteq> [] \<and> \<not> is_letter (hd sch) then Some ([], raw)
            else if c = CHR '':'' then (if sch = [] then None else Some (sch, r))
            else Some ([], raw))"

text \<open>Percent decoding in a path (any byte) and in a host (only non-ASCII bytes and \<open>%25\<close>).\<close>

definition host_char_ok :: "char \<Rightarrow> bool" where
  "host_char_ok c \<longleftrightarrow> unreserved c \<or> 128 \<le> byte c \<or> byte c \<in> {33, 34, 36, 38, 39, 40, 41, 42, 43, 44, 58, 59, 60, 61, 62, 91, 93}"

fun unescape_with :: "(nat \<Rightarrow> bool) \<Rightarrow> (char \<Rightarrow> bool) \<Rightarrow> string \<Rightarrow> string option" where
  "unescape_with pct ok [] = Some []"
| "unescape_with pct ok (c # r) =
     (if c = CHR ''%'' then
        (case r of a # b # r' \<Rightarrow>
           (case (hex_val a, hex_val b) of
              (Some x, Some y) \<Rightarrow>
                if pct (16 * x + y) then map_option ((#) (byte_chr (16 * x + y))) (unescape_with pct ok r') else None
            | _ \<Rightarrow> None)
         | _ \<Rightarrow> None)
      else if ok c then map_option ((#) c) (unescape_with pct ok r) else None)"

definition unescape_path :: "string \<Rightarrow> string option" where
  "unescape_path s = unescape_with (\<lambda>_. True) (\<lambda>_. True) s"

definition unescape_host :: "string \<Rightarrow> string option" where
  "unescape_host s = unescape_with (\<lambda>n. 128 \<le> n \<or> n = 37) host_char_ok s"

definition escape_path :: "string \<Rightarrow> string" where
  "escape_path s = concat (map (\<lambda>c. if unreserved c \<or> byte c \<in> {36, 38, 43, 44, 47, 58, 59, 61, 64} then [c]
     else [CHR ''%'', upper_hex (byte c div 16), upper_hex (byte c mod 16)]) s)"

definition cut_last :: "char \<Rightarrow> string \<Rightarrow> (string \<times> string) option" where
  "cut_last c s = (if c \<in> set s
     then Some (rev (drop 1 (dropWhile (\<lambda>x. x \<noteq> c) (rev s))), rev (takeWhile (\<lambda>x. x \<noteq> c) (rev s)))
     else None)"

definition valid_port :: "string \<Rightarrow> bool" where
  "valid_port s \<longleftrightarrow> (case s of [] \<Rightarrow> True | c # r \<Rightarrow> c = CHR '':'' \<and> list_all is_digit r)"

definition parseHost :: "string \<Rightarrow> string option" where
  "parseHost h =
     (if take 1 h = ''['' then
        (case cut_last (CHR '']'') h of None \<Rightarrow> None
         | Some (_, port) \<Rightarrow> if valid_port port then unescape_host h else None)
      else (case cut_last (CHR '':'') h of
              Some (_, port) \<Rightarrow> if list_all is_digit port then unescape_host h else None
            | None \<Rightarrow> unescape_host h))"

definition valid_userinfo :: "string \<Rightarrow> bool" where
  "valid_userinfo s \<longleftrightarrow> list_all (\<lambda>c. unreserved c \<or> byte c \<in> {33, 36, 37, 38, 39, 40, 41, 42, 43, 44, 58, 59, 61, 64}) s
     \<and> unescape_path s \<noteq> None"

definition parseAuthority :: "string \<Rightarrow> (string option \<times> string) option" where
  "parseAuthority a = (case cut_last (CHR ''@'') a of
     None \<Rightarrow> map_option (\<lambda>h. (None, h)) (parseHost a)
   | Some (u, h) \<Rightarrow> if valid_userinfo u then map_option (\<lambda>h'. (Some u, h')) (parseHost h) else None)"

definition has_ctl :: "string \<Rightarrow> bool" where
  "has_ctl s \<longleftrightarrow> list_ex (\<lambda>c. byte c < 32 \<or> byte c = 127) s"

definition setPath :: "url \<Rightarrow> string \<Rightarrow> url option" where
  "setPath u p = (case unescape_path p of None \<Rightarrow> None
     | Some path \<Rightarrow> Some (u\<lparr>url_Path := path, url_RawPath := (if escape_path path = p then [] else p)\<rparr>))"

text \<open>What follows the scheme and precedes the query: an opaque part, an authority and a path, or
  a path alone.\<close>

definition parse_rest :: "url \<Rightarrow> string \<Rightarrow> url option" where
  "parse_rest u rest =
     (if take 1 rest \<noteq> ''/'' \<and> url_Scheme u \<noteq> [] then Some (u\<lparr>url_Opaque := rest\<rparr>)
      else if take 1 rest \<noteq> ''/'' \<and> CHR '':'' \<in> set (takeWhile (\<lambda>c. c \<noteq> CHR ''/'') rest) then None
      else if take 2 rest = ''//'' \<and> (url_Scheme u \<noteq> [] \<or> take 3 rest \<noteq> ''///'') then
        (let a = drop 2 rest; auth = takeWhile (\<lambda>c. c \<noteq> CHR ''/'') a; path = dropWhile (\<lambda>c. c \<noteq> CHR ''/'') a
         in case parseAuthority auth of None \<Rightarrow> None
          | Some (usr, h) \<Rightarrow> setPath (u\<lparr>url_User := usr, url_Host := h\<rparr>) path)
      else setPath u rest)"

definition url_Parse :: "string \<Rightarrow> url option" where
  "url_Parse raw0 = (let (raw, frag) = cut_char (CHR ''#'') raw0 in
     if has_ctl raw0 then None
     else if raw = ''*'' then Some (zero_url\<lparr>url_Path := ''*''\<rparr>)
     else case getScheme raw of None \<Rightarrow> None
      | Some (sch, r) \<Rightarrow>
          (let (rest, q) = cut_char (CHR ''?'') r;
               force = (r \<noteq> [] \<and> last r = CHR ''?'' \<and> q = [])
           in case parse_rest (zero_url\<lparr>url_Scheme := ToLower sch, url_ForceQuery := force, url_RawQuery := q\<rparr>) rest of
                None \<Rightarrow> None
              | Some u \<Rightarrow> (case unescape_path frag of None \<Rightarrow> None
                  | Some f \<Rightarrow> Some (u\<lparr>url_Fragment := f\<rparr>))))"

definition EscapedPath :: "url \<Rightarrow> string" where
  "EscapedPath u = (if url_RawPath u \<noteq> [] \<and> unescape_path (url_RawPath u) = Some (url_Path u)
     then url_RawPath u else if url_Path u = ''*'' then ''*'' else escape_path (url_Path u))"

definition url_String :: "url \<Rightarrow> string" where
  "url_String u =
     (if url_Scheme u \<noteq> [] then url_Scheme u @ '':'' else []) @
     (if url_Opaque u \<noteq> [] then url_Opaque u
      else (if url_Scheme u \<noteq> [] \<or> url_Host u \<noteq> [] \<or> url_User u \<noteq> None
            then (if url_Host u \<noteq> [] \<or> url_Path u \<noteq> [] \<or> url_User u \<noteq> None then ''//'' else []) @
                 (case url_User u of Some s \<Rightarrow> s @ ''@'' | None \<Rightarrow> []) @ url_Host u
            else []) @
           (let p = EscapedPath u in
            (if p \<noteq> [] \<and> hd p \<noteq> CHR ''/'' \<and> url_Host u \<noteq> [] then ''/'' else []) @ p)) @
     (if url_ForceQuery u \<or> url_RawQuery u \<noteq> [] then CHR ''?'' # url_RawQuery u else []) @
     (if url_Fragment u \<noteq> [] then CHR ''#'' # escape_path (url_Fragment u) else [])"

definition url_Query :: "url \<Rightarrow> url_values" where
  "url_Query u = fst (ParseQuery (url_RawQuery u))"

end
