(* ===== verification/Env.thy ===== *)
theory Env
  imports GoUrl
begin

text \<open>
  Constants, headers and the process environment: \<open>consts.go\<close>, \<open>headers.go\<close>, \<open>env.go\<close> and
  \<open>platform.go\<close>, with the \<open>http.Header\<close> operations and the \<open>http.ResponseWriter\<close> they act on.
  \<open>os.Getenv\<close> is a function from names to values, the empty string when unset. A header is the list
  of its (canonical name, value) pairs.
\<close>

section \<open>http.Header and http.ResponseWriter\<close>

type_synonym header = "(string \<times> string) list"

definition upper_char :: "char \<Rightarrow> char" where
  "upper_char c = (if 97 \<le> byte c \<and> byte c \<le> 122 then byte_chr (byte c - 32) else c)"

fun canonical_from :: "bool \<Rightarrow> string \<Rightarrow> string" where
  "canonical_from up [] = []"
| "canonical_from up (c # r) = (if up then upper_char c else lower_char c) # canonical_from (c = CHR ''-'') r"

definition CanonicalHeaderKey :: "string \<Rightarrow> string" where
  "CanonicalHeaderKey k = canonical_from True k"

definition header_Get :: "header \<Rightarrow> string \<Rightarrow> string" where
  "header_Get h k = (case map_of h (CanonicalHeaderKey k) of None \<Rightarrow> [] | Some v \<Rightarrow> v)"

definition header_Set :: "header \<Rightarrow> string \<Rightarrow> string \<Rightarrow> header" where
  "header_Set h k v = filter (\<lambda>(k', _). k' \<noteq> CanonicalHeaderKey k) h @ [(CanonicalHeaderKey k, v)]"

definition header_Add :: "header \<Rightarrow> string \<Rightarrow> string \<Rightarrow> header" where
  "header_Add h k v = h @ [(CanonicalHeaderKey k, v)]"

text \<open>The response: the header map that can still be changed, and, once \<open>WriteHeader\<close> or the first
  \<open>Write\<close> has happened, the status and the header that went out.\<close>

record response_writer =
  rw_header :: header
  rw_sent :: "(int \<times> header) option"
  rw_body :: bytes

definition new_response :: response_writer where
  "new_response = \<lparr>rw_header = [], rw_sent = None, rw_body = []\<rparr>"

definition rw_Set :: "string \<Rightarrow> string \<Rightarrow> response_writer \<Rightarrow> response_writer" where
  "rw_Set k v w = w\<lparr>rw_header := header_Set (rw_header w) k v\<rparr>"

definition rw_Add :: "string \<Rightarrow> string \<Rightarrow> response_writer \<Rightarrow> response_writer" where
  "rw_Add k v w = w\<lparr>rw_header := header_Add (rw_header w) k v\<rparr>"

definition WriteHeader :: "int \<Rightarrow> response_writer \<Rightarrow> response_writer" where
  "WriteHeader code w = (if rw_sent w = None then w\<lparr>rw_sent := Some (code, rw_header w)\<rparr> else w)"

definition rw_Write :: "bytes \<Rightarrow> response_writer \<Rightarrow> response_writer" where
  "rw_Write b w = (let w' = WriteHeader 200 w in w'\<lparr>rw_body := rw_body w' @ b\<rparr>)"

text \<open>The status the client sees: 200 when the handler returns without writing.\<close>

definition rw_status :: "response_writer \<Rightarrow> int" where
  "rw_status w = (case rw_sent w of Some (code, _) \<Rightarrow> code | None \<Rightarrow> 200)"

definition rw_final_header :: "response_writer \<Rightarrow> header" where
  "rw_final_header w = (case rw_sent w of Some (_, h) \<Rightarrow> h | None \<Rightarrow> rw_header w)"

section \<open>consts.go and headers.go\<close>

definition SDKAuthor :: string where "SDKAuthor = ''inngest''"

definition SDKLanguage :: string where "SDKLanguage = ''go''"

definition SDKVersion :: string where "SDKVersion = ''0.8.0''"

definition SyncKindInBand :: string where "SyncKindInBand = ''in_band''"

definition SyncKindOutOfBand :: string where "SyncKindOutOfBand = ''out_of_band''"

definition devServerOrigin :: string where "devServerOrigin = ''http://127.0.0.1:8288''"

definition defaultAPIOrigin :: string where "defaultAPIOrigin = ''https://api.inngest.com''"

definition defaultEventAPIOrigin :: string where "defaultEventAPIOrigin = ''https://inn.gs''"

definition HeaderKeyAuthorization :: string where "HeaderKeyAuthorization = ''Authorization''"

definition HeaderKeyContentType :: string where "HeaderKeyContentType = ''Content-Type''"

definition HeaderKeyEnv :: string where "HeaderKeyEnv = ''X-Inngest-Env''"

definition HeaderKeyExpectedServerKind :: string where
  "HeaderKeyExpectedServerKind = ''X-Inngest-Expected-Server-Kind''"

definition HeaderKeyNoRetry :: string where "HeaderKeyNoRetry = ''X-Inngest-No-Retry''"

definition HeaderKeyRetryAfter :: string where "HeaderKeyRetryAfter = ''Retry-After''"

definition HeaderKeySDK :: string where "HeaderKeySDK = ''X-Inngest-SDK''"

definition HeaderKeyServerKind :: string where "HeaderKeyServerKind = ''X-Inngest-Server-Kind''"

definition HeaderKeySignature :: string where "HeaderKeySignature = ''X-Inngest-Signature''"

definition HeaderKeySyncKind :: string where "HeaderKeySyncKind = ''x-inngest-sync-kind''"

definition HeaderKeyUserAgent :: string where "HeaderKeyUserAgent = ''User-Agent''"

definition HeaderValueSDK :: string where
  "HeaderValueSDK = SDKLanguage @ '':v'' @ SDKVersion"

definition SetBasicRequestHeaders :: "header \<Rightarrow> header" where
  "SetBasicRequestHeaders h =
     header_Set (header_Set (header_Set h HeaderKeyContentType ''application/json'')
       HeaderKeySDK HeaderValueSDK) HeaderKeyUserAgent HeaderValueSDK"

definition SetBasicResponseHeaders :: "response_writer \<Rightarrow> response_writer" where
  "SetBasicResponseHeaders w =
     rw_Set HeaderKeyUserAgent HeaderValueSDK
       (rw_Set HeaderKeySDK HeaderValueSDK (rw_Set HeaderKeyContentType ''application/json'' w))"

section \<open>env.go and platform.go\<close>

type_synonym getenv = "string \<Rightarrow> string"

definition IsDev :: "getenv \<Rightarrow> bool" where
  "IsDev env \<longleftrightarrow> env ''INNGEST_DEV'' \<noteq> []"

definition DevServerURL :: "getenv \<Rightarrow> string" where
  "DevServerURL env = (let dev = env ''INNGEST_DEV'' in
     if dev \<noteq> [] then
       (case url_Parse dev of Some u \<Rightarrow> if url_Host u \<noteq> [] then dev else devServerOrigin
        | None \<Rightarrow> devServerOrigin)
     else devServerOrigin)"

definition isTrue :: "string \<Rightarrow> bool" where
  "isTrue val = (let v = ToLower val in if v = ''true'' \<or> v = ''1'' then True else False)"

definition platform :: "getenv \<Rightarrow> string" where
  "platform env = (let region = env ''AWS_REGION'' in
     if region \<noteq> [] then ''aws-'' @ region
     else if env ''VERCEL'' \<noteq> [] then ''vercel''
     else if env ''NETLIFY'' \<noteq> [] then ''netlify''
     else [])"

section \<open>Lemmas on headers and responses\<close>

lemma header_Get_Set [simp]: "header_Get (header_Set h k v) k = v"
  by (auto simp: header_Get_def header_Set_def map_add_def map_of_eq_None_iff split: option.splits)
    (auto dest!: map_of_SomeD)

lemma rw_sent_frame [simp, frame_simps]:
  "rw_sent (rw_Set k v w) = rw_sent w" "rw_sent (rw_Add k v w) = rw_sent w"
  "rw_body (rw_Set k v w) = rw_body w" "rw_body (rw_Add k v w) = rw_body w"
  "rw_sent (SetBasicResponseHeaders w) = rw_sent w" "rw_body (SetBasicResponseHeaders w) = rw_body w"
  by (simp_all add: rw_Set_def rw_Add_def SetBasicResponseHeaders_def)

text \<open>The first status written is the one the client gets.\<close>

lemma WriteHeader_sticky [simp]: "rw_sent w = Some s \<Longrightarrow> WriteHeader c w = w"
  by (simp add: WriteHeader_def)

lemma rw_status_WriteHeader [simp]: "rw_sent w = None \<Longrightarrow> rw_status (WriteHeader c w) = c"
  by (simp add: rw_status_def WriteHeader_def)

lemma rw_status_Write [simp]:
  "rw_status (rw_Write b w) = (case rw_sent w of Some (c, _) \<Rightarrow> c | None \<Rightarrow> 200)"
  by (auto simp: rw_Write_def WriteHeader_def rw_status_def split: option.splits)

lemma rw_status_frame [simp, frame_simps]:
  "rw_status (rw_Set k v w) = rw_status w" "rw_status (rw_Add k v w) = rw_status w"
  "rw_status (SetBasicResponseHeaders w) = rw_status w"
  by (simp_all add: rw_status_def)

end
