(* ===== verification/Steps.thy ===== *)
theory Steps
  imports Manager Env
begin

text \<open>
  The step tools of \<open>step/*.go\<close> and \<open>experimental/group/group.go\<close>.

  A tool runs in a context (\<open>ctx\<close>: the target step ID, the parallel flag, whether there is a
  manager) and a state (\<open>st\<close>: the manager, whether the invocation's context was cancelled, and the
  world that user code acts on). It returns, unwinds the user function with the panic value
  \<open>ControlHijack\<close>, or panics with another value, of which the model keeps the text (\<open>outcome\<close>).
  User code is a function of the same type, so a step body may call tools itself. \<open>durString\<close> stands for
  \<open>str2duration.String\<close>. The texts of \<open>encoding/json\<close>'s errors are not modelled: every failed
  decoding is the one value \<open>json_error\<close>.
\<close>

section \<open>Contexts, states, outcomes\<close>

record ctx =
  targetStepID :: "string option"
  ParallelKey :: bool
  hasManager :: bool

record 'w st =
  st_mgr :: manager
  st_cancelled :: bool
  st_world :: 'w

datatype 'a outcome = Returned 'a | Hijacked | Panicked string

type_synonym ('w, 'a) M = "'w st \<Rightarrow> 'a outcome \<times> 'w st"

definition json_error :: goerr where
  "json_error = Errorf ''json error'' []"

definition nil_deref :: string where
  "nil_deref = ''runtime error: invalid memory address or nil pointer dereference''"

section \<open>step.go\<close>

definition getTargetStepID :: "ctx \<Rightarrow> string option" where
  "getTargetStepID cx = targetStepID cx"

definition SetTargetStepID :: "ctx \<Rightarrow> string \<Rightarrow> ctx" where
  "SetTargetStepID cx sid = (if sid = [] \<or> sid = ''step'' then cx else cx\<lparr>targetStepID := Some sid\<rparr>)"

definition isParallel :: "ctx \<Rightarrow> bool" where
  "isParallel cx = ParallelKey cx"

text \<open>\<open>preflight\<close> checks the context and hands the manager to the rest of the tool, \<open>k\<close>.\<close>

definition preflight :: "ctx \<Rightarrow> ('w, 'a) M \<Rightarrow> ('w, 'a) M" where
  "preflight cx k s =
     (if st_cancelled s then (Hijacked, s)
      else if \<not> hasManager cx then (Panicked (sentinel_text ErrNotInFunction), s)
      else k s)"

text \<open>The calls on the manager as state transformers: \<open>mgr.SetErr(e); panic(ControlHijack{})\<close>, the same for \<open>AppendOp\<close>, and
  \<open>NewOp\<close> followed by the rest.\<close>

definition fail_with :: "goerr \<Rightarrow> ('w, 'a) M" where
  "fail_with e s = (Hijacked, s\<lparr>st_mgr := SetErr e (st_mgr s)\<rparr>)"

definition report_op :: "GeneratorOpcode \<Rightarrow> ('w, 'a) M" where
  "report_op op s = (Hijacked, s\<lparr>st_mgr := AppendOp op (st_mgr s)\<rparr>)"

definition with_op :: "Opcode \<Rightarrow> string \<Rightarrow> json option \<Rightarrow> (UnhashedOp \<Rightarrow> ('w, 'a) M) \<Rightarrow> ('w, 'a) M" where
  "with_op k sid opts f s =
     (let (u, m) = NewOp k sid opts (st_mgr s) in f u (s\<lparr>st_mgr := m\<rparr>))"

definition cancel :: "'w st \<Rightarrow> 'w st" where
  "cancel s = s\<lparr>st_cancelled := True\<rparr>"

section \<open>run.go\<close>

record response =
  rs_Data :: RawMessage
  rs_Error :: RawMessage

definition Unmarshal_response :: "json \<Rightarrow> response option" where
  "Unmarshal_response j = (case j of
     JObj kvs \<Rightarrow> Some \<lparr>rs_Data = raw_field ''data'' kvs, rs_Error = raw_field ''error'' kvs\<rparr>
   | JNull \<Rightarrow> Some \<lparr>rs_Data = None, rs_Error = None\<rparr>
   | _ \<Rightarrow> None)"

definition step_text :: "string \<Rightarrow> string \<Rightarrow> string" where
  "step_text what sid = what @ '' step '' @ [CHR 0x27] @ sid @ [CHR 0x27] @ '': ''"

text \<open>The branch for a step that has state.\<close>

definition run_memo :: "'v gotype \<Rightarrow> string \<Rightarrow> json \<Rightarrow> ('w, 'v \<times> goerr option) M" where
  "run_memo T sid val s =
     (let state_error = wrapf (step_text ''error unmarshalling state for'' sid) json_error;
          plain = (\<lambda>j. case unmarshal T j of
             None \<Rightarrow> fail_with state_error s
           | Some v \<Rightarrow> (Returned (v, None), s))
      in case Unmarshal_response val of
           None \<Rightarrow> plain val
         | Some unwrapped \<Rightarrow>
             (if rs_Error unwrapped \<noteq> None then
                (case Unmarshal_StepError (rs_Error unwrapped) of
                   None \<Rightarrow> fail_with (wrapf (step_text ''error unmarshalling error for'' sid) json_error) s
                 | Some err \<Rightarrow>
                     (case Unmarshal T (se_Data err) of
                        None \<Rightarrow> fail_with state_error s
                      | Some v \<Rightarrow> (Returned (v, Some (StepErr err)), s)))
              else (case rs_Data unwrapped of Some d \<Rightarrow> plain d | None \<Rightarrow> plain val)))"

text \<open>The opcodes of a step that was executed, after the body returned \<open>(result, err)\<close>.\<close>

definition run_op :: "Opcode \<Rightarrow> string \<Rightarrow> string \<Rightarrow> GeneratorOpcode" where
  "run_op k hashedID sid = \<lparr>op_Op = k, op_ID = hashedID, op_Name = sid, op_Opts = None, op_Data = None, op_Error = None\<rparr>"

definition run_failed :: "'v gotype \<Rightarrow> string \<Rightarrow> string \<Rightarrow> 'v \<Rightarrow> goerr \<Rightarrow> ('w, 'a) M" where
  "run_failed T hashedID sid result e s =
     (if IsStepError (Some e) then fail_with (Errorf (''Unhandled step error: '' @ fmt_err (CHR ''s'') e) []) s
      else case Error e of
        None \<Rightarrow> (Panicked nil_deref, s)
      | Some m \<Rightarrow>
          fail_with e (s\<lparr>st_mgr := AppendOp ((run_op OpcodeStepError hashedID sid)
            \<lparr>op_Error := Some \<lparr>ue_Name = ''Step failed'', ue_Message = m, ue_Data = marshal T result\<rparr>\<rparr>) (st_mgr s)\<rparr>))"

definition run_succeeded :: "'v gotype \<Rightarrow> string \<Rightarrow> string \<Rightarrow> 'v \<Rightarrow> ('w, 'a) M" where
  "run_succeeded T hashedID sid result s =
     (let byt = marshal T result;
          m = (if byt = None
               then SetErr (wrapf (''unable to marshal run respone for '' @ [CHR 0x27] @ sid @ [CHR 0x27] @ '': '') json_error) (st_mgr s)
               else st_mgr s)
      in report_op ((run_op OpcodeStepRun hashedID sid)\<lparr>op_Data := byt\<rparr>) (s\<lparr>st_mgr := m\<rparr>))"

text \<open>The branch that calls the body. The deferred \<open>mgr.Cancel()\<close> runs on every way out.\<close>

definition run_body :: "'v gotype \<Rightarrow> string \<Rightarrow> string \<Rightarrow> (ctx \<Rightarrow> ('w, 'v \<times> goerr option) M) \<Rightarrow> ctx \<Rightarrow> ('w, 'a) M" where
  "run_body T hashedID sid f cx s =
     (let (oc, s') = f cx s;
          (oc', s'') = (case oc of
             Returned (result, Some e) \<Rightarrow> run_failed T hashedID sid result e s'
           | Returned (result, None) \<Rightarrow> run_succeeded T hashedID sid result s'
           | Hijacked \<Rightarrow> (Hijacked, s')
           | Panicked p \<Rightarrow> (Panicked p, s'))
      in (oc', cancel s''))"

definition Run :: "'v gotype \<Rightarrow> string \<Rightarrow> (ctx \<Rightarrow> ('w, 'v \<times> goerr option) M) \<Rightarrow> ctx \<Rightarrow> ('w, 'v \<times> goerr option) M" where
  "Run T sid f cx = preflight cx (with_op OpcodeStep sid None (\<lambda>op s.
     let targetID = getTargetStepID cx; hashedID = MustHash op
     in case Step (st_mgr s) op of
          Some val \<Rightarrow> run_memo T sid val s
        | None \<Rightarrow>
            if targetID \<noteq> None \<and> targetID \<noteq> Some hashedID then (Hijacked, s)
            else if targetID = None \<and> isParallel cx
                    \<or> targetID = None \<and> DisableImmediateExecution (rq_CallCtx (m_request (st_mgr s)))
              then report_op (run_op OpcodeStepPlanned hashedID sid) s
            else run_body T hashedID sid f cx s))"

section \<open>sleep.go\<close>

definition Sleep :: "(int \<Rightarrow> string) \<Rightarrow> string \<Rightarrow> int \<Rightarrow> ctx \<Rightarrow> ('w, unit) M" where
  "Sleep durString sid duration cx = preflight cx (with_op OpcodeSleep sid None (\<lambda>op s.
     case Step (st_mgr s) op of
       Some _ \<Rightarrow> (Returned (), s)
     | None \<Rightarrow> report_op ((run_op OpcodeSleep (MustHash op) sid)
                 \<lparr>op_Opts := Some (JObj [(''duration'', JStr (durString duration))])\<rparr>) s))"

section \<open>wait_for_event.go\<close>

record WaitForEventOpts =
  we_Name :: string
  we_Event :: string
  we_Timeout :: int
  we_If :: "string option"

definition wait_args :: "(int \<Rightarrow> string) \<Rightarrow> WaitForEventOpts \<Rightarrow> json" where
  "wait_args durString opts = JObj ([(''event'', JStr (we_Event opts))] @
     (case we_If opts of Some e \<Rightarrow> [(''if'', JStr e)] | None \<Rightarrow> []) @
     [(''timeout'', JStr (durString (we_Timeout opts)))])"

definition WaitForEvent ::
  "(int \<Rightarrow> string) \<Rightarrow> 'v gotype \<Rightarrow> string \<Rightarrow> WaitForEventOpts \<Rightarrow> ctx \<Rightarrow> ('w, 'v \<times> goerr option) M" where
  "WaitForEvent durString T stepID opts cx = preflight cx (with_op OpcodeWaitForEvent stepID (Some (wait_args durString opts)) (\<lambda>op s.
     case Step (st_mgr s) op of
       Some val \<Rightarrow>
         (if val = JNull then (Returned (zero T, Some (Sentinel ErrEventNotReceived)), s)
          else case unmarshal T val of
            None \<Rightarrow> fail_with (wrapf (''error unmarshalling wait for event value in '' @ [CHR 0x27] @ we_Event opts @ [CHR 0x27] @ '': '') json_error) s
          | Some v \<Rightarrow> (Returned (v, None), s))
     | None \<Rightarrow> report_op ((run_op (uo_Op op) (MustHash op) (if we_Name opts = [] then stepID else we_Name opts))
                 \<lparr>op_Opts := uo_Opts op\<rparr>) s))"

section \<open>invoke.go\<close>

text \<open>\<open>Data\<close> and \<open>User\<close> are the JSON values they marshal to.\<close>

record InvokeOpts =
  io_FunctionId :: string
  io_Data :: json
  io_User :: json
  io_Timeout :: int

definition invoke_args :: "(int \<Rightarrow> string) \<Rightarrow> InvokeOpts \<Rightarrow> json" where
  "invoke_args durString opts = JObj
     ([(''function_id'', JStr (io_FunctionId opts)),
       (''payload'', JObj [(''data'', io_Data opts), (''user'', io_User opts)])] @
      (if io_Timeout opts > 0 then [(''timeout'', JStr (durString (io_Timeout opts)))] else []))"

definition invoke_text :: "string \<Rightarrow> InvokeOpts \<Rightarrow> string" where
  "invoke_text what opts = what @ [CHR 0x27] @ io_FunctionId opts @ [CHR 0x27]"

definition invoke_memo :: "'v gotype \<Rightarrow> InvokeOpts \<Rightarrow> json \<Rightarrow> ('w, 'v \<times> goerr option) M" where
  "invoke_memo T opts val s =
     (case Unmarshal_raw_map (Some val) of
        None \<Rightarrow> fail_with (wrapf (invoke_text ''error unmarshalling invoke value for '' opts @ '': '') json_error) s
      | Some valMap \<Rightarrow>
          (case valMap ''data'' of
             Some data \<Rightarrow>
               (case unmarshal T data of
                  None \<Rightarrow> fail_with (wrapf (invoke_text ''error unmarshalling invoke data for '' opts @ '': '') json_error) s
                | Some v \<Rightarrow> (Returned (v, None), s))
           | None \<Rightarrow>
               (case valMap ''error'' of
                  Some errorVal \<Rightarrow>
                    (case (case errorVal of JObj kvs \<Rightarrow> string_field ''message'' kvs | JNull \<Rightarrow> Some [] | _ \<Rightarrow> None) of
                       None \<Rightarrow> fail_with (wrapf (invoke_text ''error unmarshalling invoke error for '' opts @ '': '') json_error) s
                     | Some message \<Rightarrow> (Returned (zero T, Some (NoRetryError (Some (Errorf message [])))), s))
                | None \<Rightarrow> fail_with (Errorf (invoke_text ''error parsing invoke value for '' opts @ ''; unknown shape'') []) s)))"

definition Invoke ::
  "(int \<Rightarrow> string) \<Rightarrow> 'v gotype \<Rightarrow> string \<Rightarrow> InvokeOpts \<Rightarrow> ctx \<Rightarrow> ('w, 'v \<times> goerr option) M" where
  "Invoke durString T sid opts cx = preflight cx (with_op OpcodeInvokeFunction sid (Some (invoke_args durString opts)) (\<lambda>op s.
     case Step (st_mgr s) op of
       Some val \<Rightarrow> invoke_memo T opts val s
     | None \<Rightarrow> report_op ((run_op (uo_Op op) (MustHash op) sid)\<lparr>op_Opts := uo_Opts op\<rparr>) s))"

section \<open>infer.go\<close>

datatype InferFormat = InferFormatOpenAIChat | InferFormatAnthropic | InferFormatGemini | InferFormatBedrock
  | OtherFormat string

definition InferFormat_text :: "InferFormat \<Rightarrow> string" where
  "InferFormat_text f = (case f of InferFormatOpenAIChat \<Rightarrow> ''openai-chat'' | InferFormatAnthropic \<Rightarrow> ''anthropic''
     | InferFormatGemini \<Rightarrow> ''gemini'' | InferFormatBedrock \<Rightarrow> ''bedrock'' | OtherFormat s \<Rightarrow> s)"

text \<open>\<open>Headers\<close> lists the map's entries in the order of its keys, the order \<open>json.Marshal\<close> writes them in.\<close>

record InferRequestOpts =
  io_URL :: string
  io_Headers :: "(string \<times> string) list"
  io_AuthKey :: string
  io_Format :: InferFormat

definition inferOpcodeOpts :: "InferRequestOpts \<Rightarrow> json \<Rightarrow> json" where
  "inferOpcodeOpts opts body = JObj
     ([(''url'', JStr (io_URL opts))] @
      (if io_Headers opts = [] then [] else [(''headers'', JObj (map (\<lambda>(k, v). (k, JStr v)) (io_Headers opts)))]) @
      [(''auth_key'', JStr (io_AuthKey opts)), (''format'', JStr (InferFormat_text (io_Format opts))), (''body'', body)])"

definition infer_decode :: "'v gotype \<Rightarrow> json \<Rightarrow> ('w, 'v \<times> goerr option) M" where
  "infer_decode T val s =
     (let ret = (\<lambda>(v, ok). (Returned (v, if ok then None else Some json_error), s))
      in case kind T of
           KInterface \<Rightarrow> (Panicked ''reflect: New(nil)'', s)
         | KOther \<Rightarrow> ret (decode T val)
         | KPtr \<Rightarrow> ret (decode_elem T val))"

definition infer_memo :: "'v gotype \<Rightarrow> string \<Rightarrow> json \<Rightarrow> ('w, 'v \<times> goerr option) M" where
  "infer_memo T sid val s =
     (case Unmarshal_response val of
        None \<Rightarrow> infer_decode T val s
      | Some unwrapped \<Rightarrow>
          (if rs_Error unwrapped \<noteq> None then
             (case Unmarshal_StepError (rs_Error unwrapped) of
                None \<Rightarrow> fail_with (wrapf (step_text ''error unmarshalling error for'' sid) json_error) s
              | Some err \<Rightarrow> (Returned (zero T, Some (StepErr err)), s))
           else (case rs_Data unwrapped of Some d \<Rightarrow> infer_decode T d s | None \<Rightarrow> infer_decode T val s)))"

text \<open>The body \<open>in.Body\<close> is given by what \<open>json.Marshal\<close> returns for it.\<close>

definition Infer ::
  "'v gotype \<Rightarrow> string \<Rightarrow> InferRequestOpts \<Rightarrow> json option \<Rightarrow> ctx \<Rightarrow> ('w, 'v \<times> goerr option) M" where
  "Infer T sid opts body cx = preflight cx (with_op OpcodeAIGateway sid None (\<lambda>op s.
     case Step (st_mgr s) op of
       Some val \<Rightarrow> infer_memo T sid val s
     | None \<Rightarrow>
         (case body of
            None \<Rightarrow> fail_with (wrapf (step_text ''error unmarshalling state for'' sid) json_error) s
          | Some reqBytes \<Rightarrow> report_op ((run_op OpcodeAIGateway (MustHash op) sid)
              \<lparr>op_Opts := Some (inferOpcodeOpts opts reqBytes), op_Data := Some reqBytes\<rparr>) s)))"

definition InferOpenAIOpts :: "(string \<Rightarrow> string) \<Rightarrow> string option \<Rightarrow> string option \<Rightarrow> InferRequestOpts" where
  "InferOpenAIOpts getenv key baseURL =
     (let api = (case key of Some k \<Rightarrow> k | None \<Rightarrow> getenv ''OPENAI_API_KEY'');
          base = (case baseURL of Some b \<Rightarrow> b | None \<Rightarrow> ''https://api.openai.com'')
      in \<lparr>io_URL = base @ ''/v1/chat/completions'', io_Headers = [], io_AuthKey = api, io_Format = InferFormatOpenAIChat\<rparr>)"

section \<open>group.go\<close>

record 'v Result =
  rs_Err :: "goerr option"
  rs_Value :: 'v

text \<open>The loop over the functions. Each runs in a goroutine, but the loop waits for it before it starts the next.\<close>

record 'v group =
  g_results :: "'v Result list"
  g_isPlanned :: bool
  g_unexpectedPanic :: "string option"

definition group_add :: "('v \<times> goerr option) outcome \<Rightarrow> 'v group \<Rightarrow> 'v group" where
  "group_add oc g = (case oc of
     Returned (value, err) \<Rightarrow> g\<lparr>g_results := g_results g @ [\<lparr>rs_Err = err, rs_Value = value\<rparr>]\<rparr>
   | Hijacked \<Rightarrow> g\<lparr>g_isPlanned := True\<rparr>
   | Panicked p \<Rightarrow> g\<lparr>g_unexpectedPanic := Some p\<rparr>)"

fun parallel_loop :: "('w, 'v \<times> goerr option) M list \<Rightarrow> 'v group \<Rightarrow> 'w st \<Rightarrow> 'v group \<times> 'w st" where
  "parallel_loop [] g s = (g, s)"
| "parallel_loop (f # fs) g s = (let (oc, s') = f s in parallel_loop fs (group_add oc g) s')"

definition group_end :: "'v group \<Rightarrow> 'v Result list outcome" where
  "group_end g = (case g_unexpectedPanic g of
     Some p \<Rightarrow> Panicked p
   | None \<Rightarrow> if g_isPlanned g then Hijacked else Returned (g_results g))"

definition Parallel :: "(ctx \<Rightarrow> ('w, 'v \<times> goerr option) M) list \<Rightarrow> ctx \<Rightarrow> ('w, 'v Result list) M" where
  "Parallel fns cx s =
     (let (g, s') = parallel_loop (map (\<lambda>fn. fn (cx\<lparr>ParallelKey := True\<rparr>)) fns)
                      \<lparr>g_results = [], g_isPlanned = False, g_unexpectedPanic = None\<rparr> s
      in (group_end g, s'))"

end
