(* ===== verification/Program.thy ===== *)
theory Program
  imports Steps
begin

text \<open>
  User functions. \<open>prog\<close> is the shape a user function has for the SDK: it returns or panics, acts on the
  world and goes on depending on it, or calls a tool and goes on with the result; the body of a step and
  the members of a group are programs too. \<open>interp\<close> runs a program on the tools of \<open>Steps\<close>.

  The locale \<open>action_post\<close> states what a predicate on (context, state before, way out, state after) must satisfy
  to hold of every run of a program without groups, and \<open>parallel_post\<close> adds what groups need. The
  properties of an invocation are interpretations of the two.
\<close>

section \<open>Programs\<close>

datatype ('w, 'v) prog =
    PReturn 'v "goerr option"
  | PPanic string
  | PAct "'w \<Rightarrow> 'w" "'w \<Rightarrow> ('w, 'v) prog"
  | PRun string "'v gotype" "('w, 'v) prog" "'v \<times> goerr option \<Rightarrow> ('w, 'v) prog"
  | PSleep string int "('w, 'v) prog"
  | PWait "'v gotype" string WaitForEventOpts "'v \<times> goerr option \<Rightarrow> ('w, 'v) prog"
  | PInvoke "'v gotype" string InvokeOpts "'v \<times> goerr option \<Rightarrow> ('w, 'v) prog"
  | PInfer "'v gotype" string InferRequestOpts "json option" "'v \<times> goerr option \<Rightarrow> ('w, 'v) prog"
  | PParallel "('w, 'v) prog list" "'v Result list \<Rightarrow> ('w, 'v) prog"

text \<open>A panic unwinds the rest of the program.\<close>

definition bindM :: "('w, 'a) M \<Rightarrow> ('a \<Rightarrow> ('w, 'b) M) \<Rightarrow> ('w, 'b) M" where
  "bindM m k s = (case m s of
     (Returned a, s') \<Rightarrow> k a s'
   | (Hijacked, s') \<Rightarrow> (Hijacked, s')
   | (Panicked p, s') \<Rightarrow> (Panicked p, s'))"

primrec interp :: "('w, 'v) prog \<Rightarrow> (int \<Rightarrow> string) \<Rightarrow> ctx \<Rightarrow> ('w, 'v \<times> goerr option) M" where
  "interp (PReturn v err) = (\<lambda>d cx s. (Returned (v, err), s))"
| "interp (PPanic p) = (\<lambda>d cx s. (Panicked p, s))"
| "interp (PAct f k) = (\<lambda>d cx s. interp (k (st_world s)) d cx (s\<lparr>st_world := f (st_world s)\<rparr>))"
| "interp (PRun sid T body k) = (\<lambda>d cx. bindM (Run T sid (interp body d) cx) (\<lambda>r. interp (k r) d cx))"
| "interp (PSleep sid dur k) = (\<lambda>d cx. bindM (Sleep d sid dur cx) (\<lambda>_. interp k d cx))"
| "interp (PWait T sid opts k) = (\<lambda>d cx. bindM (WaitForEvent d T sid opts cx) (\<lambda>r. interp (k r) d cx))"
| "interp (PInvoke T sid opts k) = (\<lambda>d cx. bindM (Invoke d T sid opts cx) (\<lambda>r. interp (k r) d cx))"
| "interp (PInfer T sid opts body k) = (\<lambda>d cx. bindM (Infer T sid opts body cx) (\<lambda>r. interp (k r) d cx))"
| "interp (PParallel ps k) = (\<lambda>d cx. bindM (Parallel (map (\<lambda>i. i d) (map interp ps)) cx) (\<lambda>rs. interp (k rs) d cx))"

primrec sequential :: "('w, 'v) prog \<Rightarrow> bool" where
  "sequential (PReturn v err) = True"
| "sequential (PPanic p) = True"
| "sequential (PAct f k) = (\<forall>w. sequential (k w))"
| "sequential (PRun sid T body k) = (sequential body \<and> (\<forall>r. sequential (k r)))"
| "sequential (PSleep sid dur k) = sequential k"
| "sequential (PWait T sid opts k) = (\<forall>r. sequential (k r))"
| "sequential (PInvoke T sid opts k) = (\<forall>r. sequential (k r))"
| "sequential (PInfer T sid opts body k) = (\<forall>r. sequential (k r))"
| "sequential (PParallel ps k) = False"

section \<open>Ways out\<close>

datatype way = TRet | THij | TPan

fun way_of :: "'a outcome \<Rightarrow> way" where
  "way_of (Returned a) = TRet"
| "way_of Hijacked = THij"
| "way_of (Panicked p) = TPan"

text \<open>How the way out of a group follows from those of its members.\<close>

fun join :: "way \<Rightarrow> way \<Rightarrow> way" where
  "join TRet t = t"
| "join TPan t = TPan"
| "join THij TPan = TPan"
| "join THij t = THij"

lemma join_TRet [simp]: "join t TRet = t" "join t u = TRet \<longleftrightarrow> t = TRet \<and> u = TRet"
  by (cases t; cases u; simp)+

definition group_way :: "'v group \<Rightarrow> way" where
  "group_way g = (if g_unexpectedPanic g \<noteq> None then TPan else if g_isPlanned g then THij else TRet)"

lemma group_way_empty [simp]: "group_way \<lparr>g_results = rs, g_isPlanned = False, g_unexpectedPanic = None\<rparr> = TRet"
  by (simp add: group_way_def)

lemma group_way_add: "group_way (group_add oc g) = join (group_way g) (way_of oc)"
  by (cases oc) (auto simp: group_way_def group_add_def)

lemma way_of_group_end [simp]: "way_of (group_end g) = group_way g"
  by (auto simp: group_end_def group_way_def)

text \<open>The kinds of opcode that report a step body that was executed, and when \<open>Run\<close> executes the step with a given hash.\<close>

definition executed :: "GeneratorOpcode \<Rightarrow> bool" where
  "executed op \<longleftrightarrow> op_Op op \<in> {OpcodeStepRun, OpcodeStepError}"

definition runs_now :: "ctx \<Rightarrow> 'w st \<Rightarrow> string \<Rightarrow> bool" where
  "runs_now cx s hashedID \<longleftrightarrow> targetStepID cx = Some hashedID \<or>
     targetStepID cx = None \<and> \<not> ParallelKey cx \<and> \<not> DisableImmediateExecution (rq_CallCtx (m_request (st_mgr s)))"

text \<open>The form of an opcode: a hashed step ID, and for every kind the fields the service needs for it and no others.\<close>

definition hashed_id :: "string \<Rightarrow> bool" where
  "hashed_id s \<longleftrightarrow> length s = 40 \<and> list_all (\<lambda>c. 48 \<le> byte c \<and> byte c \<le> 57 \<or> 97 \<le> byte c \<and> byte c \<le> 102) s"

definition text_opts :: "string list \<Rightarrow> json option \<Rightarrow> bool" where
  "text_opts keys opts \<longleftrightarrow> (case opts of
     Some (JObj kvs) \<Rightarrow> list_all (\<lambda>k. case map_of kvs k of Some (JStr _) \<Rightarrow> True | _ \<Rightarrow> False) keys
   | _ \<Rightarrow> False)"

definition wf_op :: "GeneratorOpcode \<Rightarrow> bool" where
  "wf_op op \<longleftrightarrow> hashed_id (op_ID op) \<and> (op_Error op \<noteq> None \<longleftrightarrow> op_Op op = OpcodeStepError) \<and>
     (op_Data op \<noteq> None \<longrightarrow> op_Op op \<in> {OpcodeStepRun, OpcodeAIGateway}) \<and>
     (case op_Op op of
        OpcodeStepRun \<Rightarrow> op_Opts op = None
      | OpcodeStepError \<Rightarrow> op_Opts op = None
      | OpcodeStepPlanned \<Rightarrow> op_Opts op = None
      | OpcodeSleep \<Rightarrow> text_opts [''duration''] (op_Opts op)
      | OpcodeWaitForEvent \<Rightarrow> text_opts [''event'', ''timeout''] (op_Opts op)
      | OpcodeInvokeFunction \<Rightarrow> text_opts [''function_id''] (op_Opts op)
      | OpcodeAIGateway \<Rightarrow> text_opts [''url'', ''auth_key'', ''format''] (op_Opts op) \<and> op_Data op \<noteq> None
      | _ \<Rightarrow> False)"

lemma hashed_id_MustHash [simp]: "hashed_id (MustHash u)"
proof -
  have "length (MustHash u) = 40" by (simp add: MustHash_def Hash_def)
  moreover have "byte c div 16 \<le> 15" for c using byte_nibbles(1) [of c] by linarith
  ultimately show ?thesis by (auto simp: hashed_id_def MustHash_def Hash_def list_all_iff hex_encode_def byte_hex_char)
qed

lemma run_op_simps [simp]: "op_Op (run_op k h sid) = k" "op_ID (run_op k h sid) = h"
  by (simp_all add: run_op_def)

lemma wf_op_tools:
  assumes "hashed_id h"
  shows "wf_op ((run_op OpcodeStepRun h sid)\<lparr>op_Data := raw\<rparr>)"
    "wf_op ((run_op OpcodeStepError h sid)\<lparr>op_Error := Some ue\<rparr>)"
    "wf_op (run_op OpcodeStepPlanned h sid)"
    "wf_op ((run_op OpcodeSleep h sid)\<lparr>op_Opts := Some (JObj [(''duration'', JStr dur)])\<rparr>)"
    "wf_op ((run_op OpcodeWaitForEvent h sid)\<lparr>op_Opts := Some (wait_args d wopts)\<rparr>)"
    "wf_op ((run_op OpcodeInvokeFunction h sid)\<lparr>op_Opts := Some (invoke_args d iopts)\<rparr>)"
    "wf_op ((run_op OpcodeAIGateway h sid)\<lparr>op_Opts := Some (inferOpcodeOpts fopts body), op_Data := Some body\<rparr>)"
  using assms by (auto simp: wf_op_def run_op_def text_opts_def wait_args_def invoke_args_def inferOpcodeOpts_def map_add_def split: option.splits)

section \<open>What every run satisfies\<close>

locale action_post =
  fixes Q :: "ctx \<Rightarrow> 'w st \<Rightarrow> way \<Rightarrow> 'w st \<Rightarrow> bool"
  assumes act: "Q cx s TRet (s\<lparr>st_world := w\<rparr>)"
    and panic: "Q cx s TPan s"
    and seq: "Q cx s TRet s' \<Longrightarrow> Q cx s' t s'' \<Longrightarrow> Q cx s t s''"
    and live: "Q cx s TRet s' \<Longrightarrow> st_cancelled s' = st_cancelled s \<and> m_request (st_mgr s') = m_request (st_mgr s)"
    and cancelled: "st_cancelled s \<Longrightarrow> Q cx s THij s"
    and newop: "Q cx s TRet (s\<lparr>st_mgr := snd (NewOp k sid opts (st_mgr s))\<rparr>)"
    and fail: "\<not> st_cancelled s \<Longrightarrow> Q cx s THij (s\<lparr>st_mgr := SetErr e (st_mgr s)\<rparr>)"
    and report: "\<not> st_cancelled s \<Longrightarrow> \<not> executed op \<Longrightarrow> wf_op op \<Longrightarrow> Q cx s THij (s\<lparr>st_mgr := AppendOp op (st_mgr s)\<rparr>)"
    and not_target: "\<not> st_cancelled s \<Longrightarrow> targetStepID cx \<noteq> None \<Longrightarrow> Q cx s THij s"
    and stop: "\<not> st_cancelled s \<Longrightarrow> t \<noteq> TRet \<Longrightarrow> Q cx s t s' \<Longrightarrow> Q cx s t (cancel s')"
    and exec: "\<not> st_cancelled s \<Longrightarrow> runs_now cx s (op_ID op) \<Longrightarrow> executed op \<Longrightarrow> wf_op op \<Longrightarrow>
      Q cx s THij (s\<lparr>st_mgr := AppendOp op (if err then SetErr e (st_mgr s) else st_mgr s), st_cancelled := True\<rparr>)"
begin

definition post :: "ctx \<Rightarrow> 'w st \<Rightarrow> 'a outcome \<times> 'w st \<Rightarrow> bool" where
  "post cx s r = Q cx s (way_of (fst r)) (snd r)"

lemma refl: "Q cx s TRet s"
  using act [of cx s "st_world s"] by simp

lemma post_bindM:
  "post cx s (m s) \<Longrightarrow> (\<And>a s'. post cx s' (k a s')) \<Longrightarrow> post cx s (bindM m k s)"
  by (auto simp: post_def bindM_def split: prod.splits outcome.splits intro: seq)

lemma post_preflight:
  "(\<not> st_cancelled s \<Longrightarrow> hasManager cx \<Longrightarrow> post cx s (k s)) \<Longrightarrow> post cx s (preflight cx k s)"
  by (simp add: preflight_def post_def cancelled panic)

lemma post_with_op:
  assumes "\<And>u s'. uo_Op u = k \<Longrightarrow> uo_Opts u = opts \<Longrightarrow> \<not> st_cancelled s' \<Longrightarrow> post cx s' (f u s')" and "\<not> st_cancelled s"
  shows "post cx s (with_op k sid opts f s)"
proof -
  let ?u = "fst (NewOp k sid opts (st_mgr s))" and ?s = "s\<lparr>st_mgr := snd (NewOp k sid opts (st_mgr s))\<rparr>"
  have "post cx ?s (f ?u ?s)" using assms by (simp add: NewOp_fst)
  then have "post cx s (f ?u ?s)" unfolding post_def by (rule seq [OF newop])
  then show ?thesis by (simp add: with_op_def split_beta)
qed

lemma post_simps:
  "post cx s (Returned a, s)" "post cx s (Panicked p, s)" "\<not> st_cancelled s \<Longrightarrow> post cx s (fail_with e s)"
  "\<not> st_cancelled s \<Longrightarrow> \<not> executed op \<Longrightarrow> wf_op op \<Longrightarrow> post cx s (report_op op s)"
  by (simp_all add: post_def refl panic fail_with_def fail report_op_def report)

lemma post_run_memo: "\<not> st_cancelled s \<Longrightarrow> post cx s (run_memo T sid val s)"
  by (auto simp: run_memo_def Let_def post_simps split: option.splits)

lemma post_invoke_memo: "\<not> st_cancelled s \<Longrightarrow> post cx s (invoke_memo T opts val s)"
  by (auto simp: invoke_memo_def post_simps split: option.splits)

lemma post_infer_memo: "\<not> st_cancelled s \<Longrightarrow> post cx s (infer_memo T sid val s)"
  by (auto simp: infer_memo_def infer_decode_def Let_def post_simps split: option.splits gokind.splits prod.splits)

lemma post_run_body:
  assumes live_s: "\<not> st_cancelled s" and now: "runs_now cx s hashedID" and hash: "hashed_id hashedID" and body: "\<And>s. post cx s (f cx s)"
  shows "post cx s (run_body T hashedID sid f cx s)"
proof -
  obtain oc s' where f: "f cx s = (oc, s')" by fastforce
  with body [of s] have Q: "Q cx s (way_of oc) s'" by (simp add: post_def)
  show ?thesis
  proof (cases oc)
    case (Returned r)
    obtain v err where r: "r = (v, err)" by (cases r)
    from Q Returned have Q': "Q cx s TRet s'" by simp
    from live [OF this] live_s now have live': "\<not> st_cancelled s'" and now': "runs_now cx s' hashedID"
      by (simp_all add: runs_now_def)
    have ex: "executed op \<Longrightarrow> op_ID op = hashedID \<Longrightarrow> wf_op op \<Longrightarrow>
        Q cx s THij (s'\<lparr>st_mgr := AppendOp op (if b then SetErr e (st_mgr s') else st_mgr s'), st_cancelled := True\<rparr>)" for op b e
      using exec [of s' cx op b e] live' now' seq [OF Q'] by blast
    have comm: "SetErr e (AppendOp op m) = AppendOp op (SetErr e m)" for e op m
      by (simp add: SetErr_def AppendOp_def)
    have "post cx s (run_body T hashedID sid f cx s)" if "err = Some e" "Error e \<noteq> None" "\<not> IsStepError (Some e)" for e
      using that ex [of "(run_op OpcodeStepError hashedID sid)\<lparr>op_Error := Some \<lparr>ue_Name = ''Step failed'', ue_Message = m, ue_Data = marshal T v\<rparr>\<rparr>" True for m]
        wf_op_tools(2) [OF hash, where sid = sid] unfolding run_body_def f Returned r
      by (auto simp: run_failed_def fail_with_def post_def cancel_def comm run_op_def executed_def)
    moreover have "post cx s (run_body T hashedID sid f cx s)" if "err = Some e" "IsStepError (Some e)" for e
      using that stop [OF live_s _ seq [OF Q' fail [OF live']]] unfolding run_body_def f Returned r
      by (auto simp: run_failed_def fail_with_def post_def)
    moreover have "post cx s (run_body T hashedID sid f cx s)" if "err = Some e" "Error e = None" "\<not> IsStepError (Some e)" for e
      using that stop [OF live_s _ seq [OF Q' panic]] unfolding run_body_def f Returned r
      by (auto simp: run_failed_def fail_with_def post_def)
    moreover have "post cx s (run_body T hashedID sid f cx s)" if "err = None"
      using that ex [of "(run_op OpcodeStepRun hashedID sid)\<lparr>op_Data := marshal T v\<rparr>"] wf_op_tools(1) [OF hash, where sid = sid and raw = "marshal T v"]
      unfolding run_body_def f Returned r
      by (auto simp: run_succeeded_def report_op_def post_def cancel_def run_op_def executed_def Let_def)
    ultimately show ?thesis by (cases err) auto
  next
    case Hijacked
    then show ?thesis using stop [OF live_s _ Q] by (simp add: run_body_def f post_def)
  next
    case (Panicked p)
    then show ?thesis using stop [OF live_s _ Q] by (simp add: run_body_def f post_def)
  qed
qed

lemma post_Run:
  assumes "\<And>s. post cx s (f cx s)"
  shows "post cx s (Run T sid f cx s)"
  unfolding Run_def
proof (intro post_preflight post_with_op)
  fix u :: UnhashedOp and s' :: "'w st" assume "uo_Op u = OpcodeStep" "uo_Opts u = None" "\<not> st_cancelled s'"
  then show "post cx s' (let targetID = getTargetStepID cx; hashedID = MustHash u
     in case Step (st_mgr s') u of
          Some val \<Rightarrow> run_memo T sid val s'
        | None \<Rightarrow>
            if targetID \<noteq> None \<and> targetID \<noteq> Some hashedID then (Hijacked, s')
            else if targetID = None \<and> isParallel cx
                    \<or> targetID = None \<and> DisableImmediateExecution (rq_CallCtx (m_request (st_mgr s')))
              then report_op (run_op OpcodeStepPlanned hashedID sid) s'
            else run_body T hashedID sid f cx s')"
    using assms by (auto simp: Let_def post_run_memo post_simps getTargetStepID_def isParallel_def runs_now_def executed_def
        wf_op_tools post_def [of _ _ "(Hijacked, _)"] not_target intro!: post_run_body split: option.splits)
qed auto

lemma post_Sleep: "post cx s (Sleep d sid dur cx s)"
  unfolding Sleep_def
  by (intro post_preflight post_with_op) (auto simp: post_simps wf_op_tools executed_def split: option.splits)

lemma post_WaitForEvent: "post cx s (WaitForEvent d T sid opts cx s)"
  unfolding WaitForEvent_def
  by (intro post_preflight post_with_op) (auto simp: post_simps wf_op_tools executed_def split: option.splits)

lemma post_Invoke: "post cx s (Invoke d T sid opts cx s)"
  unfolding Invoke_def
  by (intro post_preflight post_with_op) (auto simp: post_simps post_invoke_memo wf_op_tools executed_def split: option.splits)

lemma post_Infer: "post cx s (Infer T sid opts body cx s)"
  unfolding Infer_def
  by (intro post_preflight post_with_op) (auto simp: post_simps post_infer_memo wf_op_tools executed_def split: option.splits)

lemmas post_tools = post_Run post_Sleep post_WaitForEvent post_Invoke post_Infer

lemma post_sequential: "sequential p \<Longrightarrow> post cx s (interp p d cx s)"
proof (induction p arbitrary: s)
  case (PAct f k)
  then have "Q cx (s\<lparr>st_world := f (st_world s)\<rparr>) t s' \<Longrightarrow> Q cx s t s'" for t s'
    using seq [OF act] by blast
  with PAct show ?case by (simp add: post_def)
qed (auto simp: post_simps intro!: post_bindM post_tools)

end

text \<open>Groups: the members run one after the other under the parallel flag, and the ways out are joined.\<close>

locale parallel_post = action_post +
  assumes comp: "Q cx s t s' \<Longrightarrow> Q cx s' u s'' \<Longrightarrow> Q cx s (join t u) s''"
    and lift: "Q (cx\<lparr>ParallelKey := True\<rparr>) s t s' \<Longrightarrow> Q cx s t s'"
begin

lemma post_loop:
  assumes "\<forall>f \<in> set fs. \<forall>s. post cx s (f s)" and "Q cx s0 (group_way g) s"
  shows "Q cx s0 (group_way (fst (parallel_loop fs g s))) (snd (parallel_loop fs g s))"
  using assms
proof (induction fs g s rule: parallel_loop.induct)
  case (2 f fs g s)
  from 2(2,3) have "Q cx s0 (group_way (group_add (fst (f s)) g)) (snd (f s))"
    unfolding group_way_add by (auto simp: post_def intro: comp)
  with 2 show ?case by (cases "f s") simp
qed simp

lemma post_Parallel:
  assumes "\<forall>f \<in> set fs. \<forall>cx s. post cx s (f cx s)"
  shows "post cx s (Parallel fs cx s)"
proof -
  have "Q (cx\<lparr>ParallelKey := True\<rparr>) s TRet s" by (rule refl)
  with post_loop [of "map (\<lambda>fn. fn (cx\<lparr>ParallelKey := True\<rparr>)) fs" "cx\<lparr>ParallelKey := True\<rparr>"
      s "\<lparr>g_results = [], g_isPlanned = False, g_unexpectedPanic = None\<rparr>" s] assms
  show ?thesis by (auto simp: Parallel_def post_def Let_def refl split_beta intro: lift)
qed

lemma post_interp: "post cx s (interp p d cx s)"
proof (induction p arbitrary: cx s)
  case (PAct f k)
  have "Q cx (s\<lparr>st_world := f (st_world s)\<rparr>) t s' \<Longrightarrow> Q cx s t s'" for t s'
    using seq [OF act] by blast
  with PAct show ?case by (simp add: post_def)
next
  case (PParallel ps k)
  then show ?case by (auto intro!: post_bindM post_Parallel)
qed (auto simp: post_simps intro!: post_bindM post_tools)

end

section \<open>Instances\<close>

text \<open>At most one step body per invocation, and only one that may run now; a tool that returns leaves the opcodes, the
  error and the context alone.\<close>

definition once_post :: "ctx \<Rightarrow> 'w st \<Rightarrow> way \<Rightarrow> 'w st \<Rightarrow> bool" where
  "once_post cx s t s' \<longleftrightarrow> m_request (st_mgr s') = m_request (st_mgr s) \<and>
     (\<exists>ds. m_ops (st_mgr s') = m_ops (st_mgr s) @ ds \<and> length (filter executed ds) \<le> 1 \<and>
        (filter executed ds \<noteq> [] \<longrightarrow> st_cancelled s') \<and> (st_cancelled s \<longrightarrow> ds = [] \<and> st_cancelled s') \<and>
        (\<forall>op \<in> set ds. executed op \<longrightarrow> runs_now cx s (op_ID op)) \<and>
        (t = TRet \<longrightarrow> ds = [] \<and> m_err (st_mgr s') = m_err (st_mgr s) \<and> st_cancelled s' = st_cancelled s))"

lemma once_post_I:
  assumes "m_request (st_mgr s') = m_request (st_mgr s)" "m_ops (st_mgr s') = m_ops (st_mgr s) @ ds"
    "length (filter executed ds) \<le> 1" "filter executed ds \<noteq> [] \<Longrightarrow> st_cancelled s'"
    "st_cancelled s \<Longrightarrow> ds = [] \<and> st_cancelled s'" "\<And>op. op \<in> set ds \<Longrightarrow> executed op \<Longrightarrow> runs_now cx s (op_ID op)"
    "t = TRet \<Longrightarrow> ds = [] \<and> m_err (st_mgr s') = m_err (st_mgr s) \<and> st_cancelled s' = st_cancelled s"
  shows "once_post cx s t s'"
  using assms unfolding once_post_def by blast

lemma runs_now_mono:
  "runs_now (cx\<lparr>ParallelKey := True\<rparr>) s h \<Longrightarrow> runs_now cx s h"
  "m_request (st_mgr s') = m_request (st_mgr s) \<Longrightarrow> runs_now cx s' h = runs_now cx s h"
  by (auto simp: runs_now_def)

lemma once_post_comp:
  assumes "once_post cx s t s'" "once_post cx s' u s''"
  shows "once_post cx s (join t u) s''"
proof -
  from assms(1) obtain ds where ds: "m_ops (st_mgr s') = m_ops (st_mgr s) @ ds" "length (filter executed ds) \<le> 1"
    "filter executed ds \<noteq> [] \<longrightarrow> st_cancelled s'" "st_cancelled s \<longrightarrow> ds = [] \<and> st_cancelled s'"
    "\<forall>op \<in> set ds. executed op \<longrightarrow> runs_now cx s (op_ID op)" "m_request (st_mgr s') = m_request (st_mgr s)"
    "t = TRet \<longrightarrow> ds = [] \<and> m_err (st_mgr s') = m_err (st_mgr s) \<and> st_cancelled s' = st_cancelled s"
    unfolding once_post_def by blast
  from assms(2) obtain es where es: "m_ops (st_mgr s'') = m_ops (st_mgr s') @ es" "length (filter executed es) \<le> 1"
    "filter executed es \<noteq> [] \<longrightarrow> st_cancelled s''" "st_cancelled s' \<longrightarrow> es = [] \<and> st_cancelled s''"
    "\<forall>op \<in> set es. executed op \<longrightarrow> runs_now cx s' (op_ID op)" "m_request (st_mgr s'') = m_request (st_mgr s')"
    "u = TRet \<longrightarrow> es = [] \<and> m_err (st_mgr s'') = m_err (st_mgr s') \<and> st_cancelled s'' = st_cancelled s'"
    unfolding once_post_def by blast
  from ds es have "filter executed ds \<noteq> [] \<Longrightarrow> filter executed es = []" by auto
  with ds es runs_now_mono(2) [OF ds(6), of cx] show ?thesis
    by (intro once_post_I [where ds = "ds @ es"]) (auto split: if_splits)
qed

interpretation once: parallel_post once_post
proof unfold_locales
  fix cx and s s' :: "'w st" and t
  show "once_post cx s t s'" if "once_post (cx\<lparr>ParallelKey := True\<rparr>) s t s'"
    using that runs_now_mono(1) unfolding once_post_def by blast
next
  fix cx and s :: "'w st" and op err e
  show "once_post cx s THij (s\<lparr>st_mgr := AppendOp op (if err then SetErr e (st_mgr s) else st_mgr s), st_cancelled := True\<rparr>)"
    if "\<not> st_cancelled s" "runs_now cx s (op_ID op)" "executed op"
    using that by (intro once_post_I [where ds = "[op]"]) auto
next
  fix cx and s :: "'w st" and op
  show "once_post cx s THij (s\<lparr>st_mgr := AppendOp op (st_mgr s)\<rparr>)" if "\<not> st_cancelled s" "\<not> executed op"
    using that by (intro once_post_I [where ds = "[op]"]) auto
next
  fix cx and s s' s'' :: "'w st" and t
  show "once_post cx s t s''" if "once_post cx s TRet s'" "once_post cx s' t s''"
    using once_post_comp [OF that] by simp
next
  fix cx and s s' s'' :: "'w st" and t u
  show "once_post cx s (join t u) s''" if "once_post cx s t s'" "once_post cx s' u s''"
    using that by (rule once_post_comp)
qed (auto simp: once_post_def cancel_def)

text \<open>No silent stop: without a target, a function that a tool stopped has reported an opcode or an error.\<close>

definition reported :: "'w st \<Rightarrow> bool" where
  "reported s \<longleftrightarrow> m_ops (st_mgr s) \<noteq> [] \<or> m_err (st_mgr s) \<noteq> None"

definition progress_post :: "ctx \<Rightarrow> 'w st \<Rightarrow> way \<Rightarrow> 'w st \<Rightarrow> bool" where
  "progress_post cx s t s' \<longleftrightarrow> (reported s \<longrightarrow> reported s') \<and>
     (targetStepID cx = None \<and> \<not> st_cancelled s \<and> t = THij \<longrightarrow> reported s') \<and>
     (t = TRet \<longrightarrow> st_cancelled s' = st_cancelled s \<and> m_request (st_mgr s') = m_request (st_mgr s))"

interpretation progress: parallel_post progress_post
proof unfold_locales
  fix cx and s s' s'' :: "'w st" and t u
  show "progress_post cx s (join t u) s''" if "progress_post cx s t s'" "progress_post cx s' u s''"
    using that unfolding progress_post_def by (cases t; cases u) auto
qed (auto simp: progress_post_def reported_def cancel_def)

text \<open>Every opcode that is reported is well formed.\<close>

definition form_post :: "ctx \<Rightarrow> 'w st \<Rightarrow> way \<Rightarrow> 'w st \<Rightarrow> bool" where
  "form_post cx s t s' \<longleftrightarrow> (list_all wf_op (m_ops (st_mgr s)) \<longrightarrow> list_all wf_op (m_ops (st_mgr s'))) \<and>
     (t = TRet \<longrightarrow> st_cancelled s' = st_cancelled s \<and> m_request (st_mgr s') = m_request (st_mgr s))"

interpretation form: parallel_post form_post
  by unfold_locales (auto simp: form_post_def cancel_def)

text \<open>Without groups there is at most one opcode per invocation.\<close>

definition single_post :: "ctx \<Rightarrow> 'w st \<Rightarrow> way \<Rightarrow> 'w st \<Rightarrow> bool" where
  "single_post cx s t s' \<longleftrightarrow> (\<exists>ds. m_ops (st_mgr s') = m_ops (st_mgr s) @ ds \<and> length ds \<le> 1 \<and>
     (t = TRet \<longrightarrow> ds = [] \<and> st_cancelled s' = st_cancelled s \<and> m_request (st_mgr s') = m_request (st_mgr s)))"

interpretation single: action_post single_post
  by unfold_locales (auto simp: single_post_def cancel_def)

end
