(* ===== verification/Funcs.thy ===== *)
theory Funcs
  imports Program
begin

text \<open>
  \<open>funcs.go\<close>: function options, triggers and servable functions. The option types that the code only passes on
  (priority, concurrency, cancellation, throttle) are kept as the JSON they marshal to. \<open>slugMake\<close> stands
  for \<open>slug.Make\<close> of the package gosimple/slug.
\<close>

section \<open>Options\<close>

record Debounce =
  db_Key :: string
  db_Period :: duration
  db_Timeout :: "duration option"

record RateLimit =
  rl_Limit :: nat
  rl_Period :: duration
  rl_Key :: "string option"

record inngest_RateLimit =
  irl_Limit :: nat
  irl_Period :: string
  irl_Key :: "string option"

definition RateLimit_Convert :: "RateLimit \<Rightarrow> inngest_RateLimit" where
  "RateLimit_Convert r = \<lparr>irl_Limit = rl_Limit r, irl_Period = Duration_String (rl_Period r), irl_Key = rl_Key r\<rparr>"

record Timeouts =
  to_Start :: "duration option"
  to_Finish :: "duration option"

record inngest_Timeouts =
  ito_Start :: "string option"
  ito_Finish :: "string option"

definition Timeouts_Convert :: "Timeouts \<Rightarrow> inngest_Timeouts" where
  "Timeouts_Convert t =
     \<lparr>ito_Start = (case to_Start t of None \<Rightarrow> None | Some s \<Rightarrow> Some (Duration_String s)),
      ito_Finish = (case to_Finish t of None \<Rightarrow> None | Some f \<Rightarrow> Some (Duration_String f))\<rparr>"

record EventBatchConfig =
  eb_MaxSize :: int
  eb_Timeout :: string
  eb_Key :: "string option"

record FunctionOpts =
  fo_ID :: string
  fo_Name :: string
  fo_Priority :: "json option"
  fo_Concurrency :: "json list"
  fo_Idempotency :: "string option"
  fo_Retries :: "int option"
  fo_Cancel :: "json list"
  fo_Debounce :: "Debounce option"
  fo_Timeouts :: "Timeouts option"
  fo_Throttle :: "json option"
  fo_RateLimit :: "RateLimit option"
  fo_BatchEvents :: "EventBatchConfig option"

definition GetRateLimit :: "FunctionOpts \<Rightarrow> inngest_RateLimit option" where
  "GetRateLimit f = (case fo_RateLimit f of None \<Rightarrow> None | Some r \<Rightarrow> Some (RateLimit_Convert r))"

definition GetTimeouts :: "FunctionOpts \<Rightarrow> inngest_Timeouts option" where
  "GetTimeouts f = (case fo_Timeouts f of None \<Rightarrow> None | Some t \<Rightarrow> Some (Timeouts_Convert t))"

section \<open>Triggers\<close>

record EventTrigger_struct =
  et_Event :: string
  et_Expression :: "string option"

record Trigger =
  tr_EventTrigger :: "EventTrigger_struct option"
  tr_CronTrigger :: "string option"

definition EventTrigger :: "string \<Rightarrow> string option \<Rightarrow> Trigger" where
  "EventTrigger name expression =
     \<lparr>tr_EventTrigger = Some \<lparr>et_Event = name, et_Expression = expression\<rparr>, tr_CronTrigger = None\<rparr>"

definition CronTrigger :: "string \<Rightarrow> Trigger" where
  "CronTrigger cron = \<lparr>tr_EventTrigger = None, tr_CronTrigger = Some cron\<rparr>"

section \<open>Servable functions\<close>

record InputCtx =
  ic_Env :: string
  ic_FunctionID :: string
  ic_RunID :: string
  ic_StepID :: string
  ic_Attempt :: int

text \<open>An event is a value of the function's event type or, for \<open>Input[any]\<close>, a raw map: the object that was decoded or the nil map (\<open>JNull\<close>).\<close>

datatype 'v event = Typed 'v | RawMap json

record 'v Input =
  in_Event :: "'v event"
  in_Events :: "'v event list"
  in_InputCtx :: InputCtx

text \<open>The event type \<open>T\<close> of \<open>Input[T]\<close>: \<open>any\<close>, another interface type, or a concrete type.\<close>

datatype 'v event_type = AnyType | InterfaceType | ConcreteType "'v gotype"

record ('w, 'v) servableFunc =
  sf_fc :: FunctionOpts
  sf_trigger :: Trigger
  sf_type :: "'v event_type"
  sf_f :: "('v Input \<Rightarrow> ('w, 'v) prog) option"

text \<open>\<open>CreateFunction\<close> panics (\<open>None\<close>) on an interface type with methods. The function it stores is never the nil \<open>any\<close>, not
  even when it is a nil function value: that is a program that panics when it is called.\<close>

definition CreateFunction ::
  "FunctionOpts \<Rightarrow> Trigger \<Rightarrow> 'v event_type \<Rightarrow> ('v Input \<Rightarrow> ('w, 'v) prog) \<Rightarrow> ('w, 'v) servableFunc option" where
  "CreateFunction fc trigger T f =
     (case T of InterfaceType \<Rightarrow> None
      | _ \<Rightarrow> Some \<lparr>sf_fc = fc, sf_trigger = trigger, sf_type = T, sf_f = Some f\<rparr>)"

text \<open>\<open>ZeroEvent()\<close> is nil exactly for an interface type.\<close>

definition ZeroEvent :: "('w, 'v) servableFunc \<Rightarrow> 'v gotype option" where
  "ZeroEvent sf = (case sf_type sf of ConcreteType T \<Rightarrow> Some T | _ \<Rightarrow> None)"

definition Config :: "('w, 'v) servableFunc \<Rightarrow> FunctionOpts" where
  "Config sf = sf_fc sf"

definition Slug :: "(string \<Rightarrow> string) \<Rightarrow> ('w, 'v) servableFunc \<Rightarrow> string \<Rightarrow> string" where
  "Slug slugMake sf appName =
     (let fnSlug = (if fo_ID (sf_fc sf) = [] then slugMake (fo_Name (sf_fc sf)) else fo_ID (sf_fc sf))
      in if appName = [] then fnSlug else appName @ ''-'' @ fnSlug)"

definition Name :: "('w, 'v) servableFunc \<Rightarrow> string" where
  "Name sf = fo_Name (sf_fc sf)"

end
