(* ===== verification/Invoke.thy ===== *)
theory Invoke
  imports Funcs
begin

text \<open>
  The function \<open>invoke\<close> of \<open>handler.go\<close>: it decodes the events of a request into the function's input, calls the
  function with a fresh manager and turns what happened into a response, the opcodes and an error.
  \<open>stack\<close> stands for the stack trace that is printed for a panic.
\<close>

section \<open>The input\<close>

text \<open>Decoding one raw event of a list. \<open>Unmarshal\<close> gets a pointer to an interface that holds a pointer to the
  new event; null makes that interface nil, and taking its element panics.\<close>

fun typed_events :: "'v gotype \<Rightarrow> json list \<Rightarrow> (goerr + 'v event list) outcome" where
  "typed_events T [] = Returned (Inr [])"
| "typed_events T (raw # rest) =
     (if raw = JNull then Panicked ''reflect: call of reflect.Value.Elem on zero Value''
      else case unmarshal T raw of
        None \<Rightarrow> Returned (Inl (wrapf ''non-zero event: error unmarshalling event in event list: '' json_error))
      | Some v \<Rightarrow>
          (case typed_events T rest of
             Returned (Inr vs) \<Rightarrow> Returned (Inr (Typed v # vs))
           | r \<Rightarrow> r))"

text \<open>Decoding into a \<open>map[string]any\<close>.\<close>

definition is_map :: "json \<Rightarrow> bool" where
  "is_map j = (case j of JObj _ \<Rightarrow> True | JNull \<Rightarrow> True | _ \<Rightarrow> False)"

definition input_events :: "('w, 'v) servableFunc \<Rightarrow> Request \<Rightarrow> (goerr + 'v event \<times> 'v event list) outcome" where
  "input_events sf input =
     (let event_error = wrapf ''error unmarshalling event for function: '' json_error
      in case ZeroEvent sf of
           Some T \<Rightarrow>
             (case Unmarshal T (rq_Event input) of
                None \<Rightarrow> Returned (Inl event_error)
              | Some v \<Rightarrow>
                  (case typed_events T (rq_Events input) of
                     Returned (Inr vs) \<Rightarrow> Returned (Inr (Typed v, vs))
                   | Returned (Inl e) \<Rightarrow> Returned (Inl e)
                   | Hijacked \<Rightarrow> Hijacked
                   | Panicked p \<Rightarrow> Panicked p))
         | None \<Rightarrow>
             (case rq_Event input of
                None \<Rightarrow> Returned (Inl event_error)
              | Some j \<Rightarrow>
                  if \<not> is_map j then Returned (Inl event_error)
                  else if \<not> list_all is_map (rq_Events input)
                    then Returned (Inl (wrapf ''zero event: error unmarshalling event in event list: '' json_error))
                  else Returned (Inr (RawMap j, map RawMap (rq_Events input)))))"

definition input_ctx :: "CallCtx \<Rightarrow> InputCtx" where
  "input_ctx cc = \<lparr>ic_Env = cc_Env cc, ic_FunctionID = cc_FunctionID cc, ic_RunID = cc_RunID cc,
     ic_StepID = cc_StepID cc, ic_Attempt = cc_Attempt cc\<rparr>"

section \<open>The call\<close>

text \<open>The response is \<open>None\<close> when the function did not return.\<close>

record 'v invoke_result =
  iv_response :: "'v option"
  iv_ops :: "GeneratorOpcode list"
  iv_err :: "goerr option"

definition fn_ctx :: "string option \<Rightarrow> ctx" where
  "fn_ctx stepID =
     (let fCtx = \<lparr>targetStepID = None, ParallelKey = False, hasManager = True\<rparr>
      in case stepID of Some sid \<Rightarrow> SetTargetStepID fCtx sid | None \<Rightarrow> fCtx)"

definition call_result :: "string \<Rightarrow> ('v \<times> goerr option) outcome \<Rightarrow> manager \<Rightarrow> 'v invoke_result" where
  "call_result stack oc mgr =
     \<lparr>iv_response = (case oc of Returned (v, _) \<Rightarrow> Some v | _ \<Rightarrow> None),
      iv_ops = m_ops mgr,
      iv_err = (case oc of
          Panicked p \<Rightarrow> Some (Errorf (''function panicked: '' @ p @ ''.  stack:'' @ [CHR 0x0A] @ stack) [])
        | _ \<Rightarrow> (if m_err mgr \<noteq> None then m_err mgr
                else (case oc of Returned (_, err) \<Rightarrow> err | _ \<Rightarrow> None)))\<rparr>"

definition call :: "(int \<Rightarrow> string) \<Rightarrow> string \<Rightarrow> ('w, 'v) prog \<Rightarrow> Request \<Rightarrow> string option \<Rightarrow> 'w \<Rightarrow> 'v invoke_result \<times> 'w" where
  "call durString stack p input stepID w =
     (let (oc, s) = interp p durString (fn_ctx stepID) \<lparr>st_mgr = NewManager input, st_cancelled = False, st_world = w\<rparr>
      in (call_result stack oc (st_mgr s), st_world s))"

definition invoke ::
  "(int \<Rightarrow> string) \<Rightarrow> string \<Rightarrow> ('w, 'v) servableFunc \<Rightarrow> Request \<Rightarrow> string option \<Rightarrow> 'w \<Rightarrow> 'v invoke_result outcome \<times> 'w" where
  "invoke durString stack sf input stepID w =
     (case sf_f sf of
        None \<Rightarrow> (Returned \<lparr>iv_response = None, iv_ops = [], iv_err = Some (Errorf ''no function defined'' [])\<rparr>, w)
      | Some f \<Rightarrow>
          (case input_events sf input of
             Returned (Inl e) \<Rightarrow> (Returned \<lparr>iv_response = None, iv_ops = [], iv_err = Some e\<rparr>, w)
           | Returned (Inr (ev, evs)) \<Rightarrow>
               (let (r, w') = call durString stack (f \<lparr>in_Event = ev, in_Events = evs, in_InputCtx = input_ctx (rq_CallCtx input)\<rparr>)
                                input stepID w
                in (Returned r, w'))
           | Hijacked \<Rightarrow> (Hijacked, w)
           | Panicked p \<Rightarrow> (Panicked p, w)))"

section \<open>What an invocation returns\<close>

definition call_state :: "Request \<Rightarrow> 'w \<Rightarrow> 'w st" where
  "call_state input w = \<lparr>st_mgr = NewManager input, st_cancelled = False, st_world = w\<rparr>"

lemma call_unfold:
  "call d stack p input stepID w =
     (call_result stack (fst (interp p d (fn_ctx stepID) (call_state input w)))
        (st_mgr (snd (interp p d (fn_ctx stepID) (call_state input w)))),
      st_world (snd (interp p d (fn_ctx stepID) (call_state input w))))"
  by (simp add: call_def call_state_def split_beta)

lemma NewManager_simps [simp]:
  "m_ops (NewManager r) = []" "m_err (NewManager r) = None" "m_request (NewManager r) = r" "m_indexes (NewManager r) = Map.empty"
  by (simp_all add: NewManager_def)

lemma call_state_simps [simp]:
  "st_mgr (call_state input w) = NewManager input" "\<not> st_cancelled (call_state input w)" "st_world (call_state input w) = w"
  by (simp_all add: call_state_def)

text \<open>Either no function was called and the result has no opcodes, or it is the result of a call.\<close>

lemma invoke_Returned:
  assumes "fst (invoke d stack sf input stepID w) = Returned r"
  obtains (not_called) e where "r = \<lparr>iv_response = None, iv_ops = [], iv_err = Some e\<rparr>"
  | (called) f ev evs where "sf_f sf = Some f" "input_events sf input = Returned (Inr (ev, evs))"
      "r = fst (call d stack (f \<lparr>in_Event = ev, in_Events = evs, in_InputCtx = input_ctx (rq_CallCtx input)\<rparr>) input stepID w)"
  using assms by (auto simp: invoke_def split_beta split: option.splits outcome.splits sum.splits)

lemma call_once:
  "length (filter executed (iv_ops (fst (call d stack p input stepID w)))) \<le> 1"
  "op \<in> set (iv_ops (fst (call d stack p input stepID w))) \<Longrightarrow> executed op \<Longrightarrow>
     runs_now (fn_ctx stepID) (call_state input w) (op_ID op)"
  "iv_response (fst (call d stack p input stepID w)) \<noteq> None \<Longrightarrow> iv_ops (fst (call d stack p input stepID w)) = []"
  using once.post_interp [of "fn_ctx stepID" "call_state input w" p d]
  by (auto simp: once.post_def once_post_def call_unfold call_result_def split: outcome.splits)

text \<open>C2: At most one executed step is reported per invocation, whatever the function does, with nested steps and groups
  included: the opcodes hold at most one \<open>StepRun\<close> or \<open>StepError\<close>, and its step is the one the request targets or,
  when the request targets none, one reached while the request allows immediate execution.\<close>

theorem invoke_at_most_one_step:
  assumes "fst (invoke d stack sf input stepID w) = Returned r"
  shows "length (filter executed (iv_ops r)) \<le> 1 \<and>
    (\<forall>op \<in> set (iv_ops r). executed op \<longrightarrow> targetStepID (fn_ctx stepID) = Some (op_ID op) \<or>
       targetStepID (fn_ctx stepID) = None \<and> \<not> DisableImmediateExecution (rq_CallCtx input))"
  using assms
proof (cases rule: invoke_Returned)
  case (called f ev evs)
  then show ?thesis using call_once(1) [of d stack _ input stepID w] call_once(2) [of _ d stack _ input stepID w]
    by (auto simp: runs_now_def)
qed simp

text \<open>C8: An invocation without a target step never stops silently: the function returned a response (and then nothing was
  reported), or at least one opcode was reported, or there is an error.\<close>

theorem invoke_progress:
  assumes "fst (invoke d stack sf input stepID w) = Returned r" "targetStepID (fn_ctx stepID) = None"
  shows "iv_response r \<noteq> None \<and> iv_ops r = [] \<or> iv_ops r \<noteq> [] \<or> iv_err r \<noteq> None"
  using assms(1)
proof (cases rule: invoke_Returned)
  case (called f ev evs)
  let ?p = "f \<lparr>in_Event = ev, in_Events = evs, in_InputCtx = input_ctx (rq_CallCtx input)\<rparr>"
  have "progress_post (fn_ctx stepID) (call_state input w)
      (way_of (fst (interp ?p d (fn_ctx stepID) (call_state input w)))) (snd (interp ?p d (fn_ctx stepID) (call_state input w)))"
    using progress.post_interp [of "fn_ctx stepID" "call_state input w" ?p d] by (simp add: progress.post_def)
  with assms(2) called call_once(3) [of d stack ?p input stepID w] show ?thesis
    by (cases "fst (interp ?p d (fn_ctx stepID) (call_state input w))")
      (auto simp: call_unfold call_result_def progress_post_def reported_def)
qed simp

text \<open>C7: Every opcode that an invocation reports is well formed, whatever the function does: its ID is a hashed step ID (40 hexadecimal digits), it is
  of a kind the step tools produce, and it has exactly the fields that the service needs for its kind: an error only and always for a
  failed step, a duration for a sleep, an event and a timeout for a wait, a function for an invocation, the request for an inference.\<close>

theorem invoke_ops_well_formed:
  assumes "fst (invoke d stack sf input stepID w) = Returned r"
  shows "\<forall>op \<in> set (iv_ops r). wf_op op"
  using assms
proof (cases rule: invoke_Returned)
  case (called f ev evs)
  then show ?thesis
    using form.post_interp [of "fn_ctx stepID" "call_state input w" "f \<lparr>in_Event = ev, in_Events = evs, in_InputCtx = input_ctx (rq_CallCtx input)\<rparr>" d]
    by (auto simp: form.post_def form_post_def call_unfold call_result_def list_all_iff)
qed simp

text \<open>A function that uses no groups reports at most one opcode per invocation.\<close>

theorem invoke_sequential_single_op:
  assumes "fst (invoke d stack sf input stepID w) = Returned r" "sf_f sf = Some f" "\<forall>inp. sequential (f inp)"
  shows "length (iv_ops r) \<le> 1"
  using assms(1)
proof (cases rule: invoke_Returned)
  case (called f' ev evs)
  let ?p = "f \<lparr>in_Event = ev, in_Events = evs, in_InputCtx = input_ctx (rq_CallCtx input)\<rparr>"
  from assms(2,3) called have "sequential ?p" "f' = f" by auto
  with single.post_sequential [of ?p "fn_ctx stepID" "call_state input w" d] called show ?thesis
    by (auto simp: single.post_def single_post_def call_unfold call_result_def)
qed simp

text \<open>A null in the event list of a function with a concrete event type panics outside the recovery that
  protects user code, so the invocation has no result at all.\<close>

theorem null_event_panics:
  assumes "sf_f sf \<noteq> None" "ZeroEvent sf = Some T" "Unmarshal T (rq_Event input) \<noteq> None"
    "rq_Events input = good @ JNull # rest" "\<forall>j \<in> set good. j \<noteq> JNull \<and> unmarshal T j \<noteq> None"
  shows "fst (invoke d stack sf input stepID w) = Panicked ''reflect: call of reflect.Value.Elem on zero Value''"
proof -
  have "typed_events T (good @ JNull # rest) = Panicked ''reflect: call of reflect.Value.Elem on zero Value''"
    using assms(5) by (induction good) auto
  with assms show ?thesis by (auto simp: invoke_def input_events_def)
qed

section \<open>Examples\<close>

text \<open>A function with one step that counts its executions and returns the count, for the event type \<open>any\<close>.\<close>

definition int_type :: "int gotype" where
  "int_type = \<lparr>zero = 0,
     decode = (\<lambda>j. case j of JNum t \<Rightarrow> (case Atoi t of Some i \<Rightarrow> (i, True) | None \<Rightarrow> (0, False)) | JNull \<Rightarrow> (0, True) | _ \<Rightarrow> (0, False)),
     marshal = (\<lambda>i. Some (JNum (Itoa i))), kind = KOther, decode_elem = (\<lambda>j. (0, False))\<rparr>"

definition count_body :: "(int, int) prog" where
  "count_body = PAct (\<lambda>w. w + 1) (\<lambda>w. PReturn (w + 1) None)"

definition count_prog :: "(int, int) prog" where
  "count_prog = PRun ''count'' int_type count_body (\<lambda>(v, err). PReturn v err)"

definition no_opts :: FunctionOpts where
  "no_opts = \<lparr>fo_ID = ''counter'', fo_Name = ''Counter'', fo_Priority = None, fo_Concurrency = [], fo_Idempotency = None,
     fo_Retries = None, fo_Cancel = [], fo_Debounce = None, fo_Timeouts = None, fo_Throttle = None, fo_RateLimit = None,
     fo_BatchEvents = None\<rparr>"

definition count_fn :: "(int, int) servableFunc" where
  "count_fn = \<lparr>sf_fc = no_opts, sf_trigger = CronTrigger ''* * * * *'', sf_type = AnyType, sf_f = Some (\<lambda>_. count_prog)\<rparr>"

definition count_request :: Request where
  "count_request = zero_Request\<lparr>rq_Event := Some (JObj [])\<rparr>"

lemmas example_defs = count_fn_def count_prog_def count_body_def count_request_def zero_Request_def zero_CallCtx_def
  int_type_def ZeroEvent_def input_events_def is_map_def fn_ctx_def Run_def preflight_def with_op_def
  run_body_def run_succeeded_def report_op_def run_op_def cancel_def NewManager_def NewOp_def Step_def AppendOp_def
  getTargetStepID_def isParallel_def bindM_def call_def call_result_def executed_def

lemma count_invoke:
  "fst (invoke d stack count_fn count_request None 0) = Returned \<lparr>iv_response = None,
     iv_ops = [(run_op OpcodeStepRun (MustHash \<lparr>uo_Op = OpcodeStep, uo_ID = ''count'', uo_Name = [], uo_Opts = None, uo_Pos = 0\<rparr>) ''count'')
       \<lparr>op_Data := Some (JNum (Itoa 1))\<rparr>], iv_err = None\<rparr>"
  by (simp add: invoke_def example_defs)

theorem invoke_at_most_one_step_witness:
  "\<exists>r. fst (invoke (\<lambda>_. []) [] count_fn count_request None 0) = Returned r \<and> length (filter executed (iv_ops r)) \<le> 1"
  using invoke_at_most_one_step [OF count_invoke [of "\<lambda>_. []" "[]"]] count_invoke [of "\<lambda>_. []" "[]"] by blast

theorem invoke_ops_well_formed_witness:
  "\<exists>r op. fst (invoke (\<lambda>_. []) [] count_fn count_request None 0) = Returned r \<and> iv_ops r = [op] \<and> wf_op op"
  using invoke_ops_well_formed [OF count_invoke [of "\<lambda>_. []" "[]"]] count_invoke [of "\<lambda>_. []" "[]"] by auto

theorem invoke_progress_witness:
  "\<exists>r. fst (invoke (\<lambda>_. []) [] count_fn count_request None 0) = Returned r \<and>
     (iv_response r \<noteq> None \<and> iv_ops r = [] \<or> iv_ops r \<noteq> [] \<or> iv_err r \<noteq> None)"
  using invoke_progress [OF count_invoke [of "\<lambda>_. []" "[]"]] count_invoke [of "\<lambda>_. []" "[]"]
  by (auto simp: fn_ctx_def)

theorem invoke_sequential_single_op_witness:
  "\<exists>r. fst (invoke (\<lambda>_. []) [] count_fn count_request None 0) = Returned r \<and> length (iv_ops r) \<le> 1"
  using invoke_sequential_single_op [OF count_invoke [of "\<lambda>_. []" "[]"], of "\<lambda>_. count_prog"] count_invoke [of "\<lambda>_. []" "[]"]
  by (auto simp: count_fn_def count_prog_def count_body_def)

theorem null_event_panics_witness:
  "fst (invoke (\<lambda>_. []) [] (count_fn\<lparr>sf_type := ConcreteType int_type\<rparr>)
     (zero_Request\<lparr>rq_Event := Some (JNum ''1''), rq_Events := [JNull]\<rparr>) None 0)
   = Panicked ''reflect: call of reflect.Value.Elem on zero Value''"
proof (rule null_event_panics [where T = int_type and good = "[]" and rest = "[]"])
  have "Atoi ''1'' = Some 1" by code_simp
  then show "Unmarshal int_type (rq_Event (zero_Request\<lparr>rq_Event := Some (JNum ''1''), rq_Events := [JNull]\<rparr>)) \<noteq> None"
    by (simp add: unmarshal_def int_type_def)
qed (simp_all add: count_fn_def ZeroEvent_def)

end
