(* ===== verification/Replay.thy ===== *)
theory Replay
  imports Invoke
begin

text \<open>
  Durable execution, its statement and its parts. The specification is \<open>direct\<close>: the steps run in place, one after the other, each
  attempted at most \<open>A\<close> times until it succeeds, and its value passes through its JSON encoding; the members of a group run
  one after the other. The implementation is \<open>drive\<close>: the SDK's \<open>call\<close> in a loop with the service that stores step results.

  The service is not part of the repository: \<open>settle\<close> is what the SDK specification says it stores (\<open>{"data": ...}\<close> for a step that ran,
  \<open>{"error": ...}\<close> for one that failed for good, null for a sleep), \<open>env\<close> is what it stores for waits, invocations and inference
  requests, by hashed step ID, and a step that was planned is called for with its hashed ID as the target.

  The functions covered are those whose effects are all inside step bodies (\<open>durable\<close>); the members of a group are single steps (\<open>branch\<close>).
  This theory shows what one invocation does: the stored steps are replayed (\<open>replay\<close>), and the first one without a value is run,
  planned or reported. \<open>Durable\<close> puts the invocations together.
\<close>

section \<open>Bodies and functions\<close>

primrec tool_free :: "('w, 'v) prog \<Rightarrow> bool" where
  "tool_free (PReturn v err) = True"
| "tool_free (PPanic p) = True"
| "tool_free (PAct f k) = (\<forall>w. tool_free (k w))"
| "tool_free (PRun sid T body k) = False"
| "tool_free (PSleep sid dur k) = False"
| "tool_free (PWait T sid opts k) = False"
| "tool_free (PInvoke T sid opts k) = False"
| "tool_free (PInfer T sid opts body k) = False"
| "tool_free (PParallel ps k) = False"

text \<open>A member of a group: one step and a result that is computed from what the step returns.\<close>

definition returns :: "('w, 'v) prog \<Rightarrow> ('v \<times> goerr option) option" where
  "returns p = (case p of PReturn v err \<Rightarrow> Some (v, err) | _ \<Rightarrow> None)"

definition branch :: "('w, 'v) prog \<Rightarrow> bool" where
  "branch p = (case p of PRun sid T body k \<Rightarrow> tool_free body \<and> (\<forall>r. returns (k r) \<noteq> None) | _ \<Rightarrow> False)"

primrec durable :: "('w, 'v) prog \<Rightarrow> bool" where
  "durable (PReturn v err) = True"
| "durable (PPanic p) = False"
| "durable (PAct f k) = False"
| "durable (PRun sid T body k) = (tool_free body \<and> (\<forall>r. durable (k r)))"
| "durable (PSleep sid dur k) = durable k"
| "durable (PWait T sid opts k) = (\<forall>r. durable (k r))"
| "durable (PInvoke T sid opts k) = (\<forall>r. durable (k r))"
| "durable (PInfer T sid opts body k) = (body \<noteq> None \<and> (\<forall>r. durable (k r)))"
| "durable (PParallel ps k) = ((\<forall>p \<in> set ps. branch p) \<and> (\<forall>rs. durable (k rs)))"

text \<open>What a body does to the world; a body that panics has no value.\<close>

primrec body_run :: "('w, 'v) prog \<Rightarrow> 'w \<Rightarrow> ('v \<times> goerr option) option \<times> 'w" where
  "body_run (PReturn v err) = (\<lambda>w. (Some (v, err), w))"
| "body_run (PPanic p) = (\<lambda>w. (None, w))"
| "body_run (PAct f k) = (\<lambda>w. body_run (k w) (f w))"
| "body_run (PRun sid T body k) = (\<lambda>w. (None, w))"
| "body_run (PSleep sid dur k) = (\<lambda>w. (None, w))"
| "body_run (PWait T sid opts k) = (\<lambda>w. (None, w))"
| "body_run (PInvoke T sid opts k) = (\<lambda>w. (None, w))"
| "body_run (PInfer T sid opts body k) = (\<lambda>w. (None, w))"
| "body_run (PParallel ps k) = (\<lambda>w. (None, w))"

section \<open>The specification\<close>

text \<open>A step error that the SDK can report: not itself a step error, and with a text.\<close>

definition reportable :: "goerr \<Rightarrow> string option" where
  "reportable e = (if IsStepError (Some e) then None else Error e)"

text \<open>One step: at most \<open>A\<close> attempts, each acting on the world, until one succeeds.\<close>

fun attempts :: "nat \<Rightarrow> ('w, 'v) prog \<Rightarrow> 'w \<Rightarrow> (('v \<times> string option) \<times> 'w) option" where
  "attempts 0 body w = None"
| "attempts (Suc A) body w =
     (case body_run body w of
        (Some (v, None), w') \<Rightarrow> Some ((v, None), w')
      | (Some (v, Some e), w') \<Rightarrow>
          (case reportable e of None \<Rightarrow> None
           | Some m \<Rightarrow> if A = 0 then Some ((v, Some m), w') else attempts A body w')
      | (None, w') \<Rightarrow> None)"

text \<open>What the function sees of a step: the value after a round trip through JSON and, when the last attempt failed, the error as
  a \<open>StepError\<close>.\<close>

definition seen :: "'v gotype \<Rightarrow> 'v \<times> string option \<Rightarrow> ('v \<times> goerr option) option" where
  "seen T r = (case r of (v, err) \<Rightarrow>
     (case marshal T v of None \<Rightarrow> None
      | Some j \<Rightarrow>
          (case unmarshal T j of None \<Rightarrow> None
           | Some v' \<Rightarrow> Some (v', map_option (\<lambda>m. StepErr \<lparr>se_Name = ''Step failed'', se_Message = m, se_Data = Some j\<rparr>) err))))"

text \<open>The key of the n-th use of an ID, and what a tool returns for a stored value.\<close>

definition key_hash :: "string \<times> nat \<Rightarrow> string" where
  "key_hash k = MustHash \<lparr>uo_Op = OpcodeStep, uo_ID = fst k, uo_Name = [], uo_Opts = None, uo_Pos = snd k\<rparr>"

definition answer :: "'a outcome \<Rightarrow> 'a option" where
  "answer oc = (case oc of Returned a \<Rightarrow> Some a | _ \<Rightarrow> None)"

definition wait_memo :: "'v gotype \<Rightarrow> json \<Rightarrow> ('v \<times> goerr option) option" where
  "wait_memo T val = (if val = JNull then Some (zero T, Some (Sentinel ErrEventNotReceived))
     else map_option (\<lambda>v. (v, None)) (unmarshal T val))"

definition idle :: "unit st" where
  "idle = \<lparr>st_mgr = NewManager zero_Request, st_cancelled = False, st_world = ()\<rparr>"

text \<open>The uses of IDs after the keys \<open>ks\<close>, and the members of a group one after the other.\<close>

definition used :: "(string \<times> nat) list \<Rightarrow> (string \<Rightarrow> nat) \<Rightarrow> string \<Rightarrow> nat" where
  "used ks pos = fold (\<lambda>(sid, n) pos. pos(sid := Suc n)) ks pos"

fun run_group :: "((string \<Rightarrow> nat) \<Rightarrow> 'w \<Rightarrow> (('v \<times> goerr option) \<times> 'w \<times> (string \<times> nat) list) option) list \<Rightarrow> (string \<Rightarrow> nat) \<Rightarrow> 'w \<Rightarrow>
    ('v Result list \<times> 'w \<times> (string \<times> nat) list \<times> (string \<Rightarrow> nat)) option" where
  "run_group [] pos w = Some ([], w, [], pos)"
| "run_group (f # fs) pos w =
     (case f pos w of None \<Rightarrow> None
      | Some ((v, err), w1, ks) \<Rightarrow>
          map_option (\<lambda>(rs, w2, ks', pos'). (\<lparr>rs_Err = err, rs_Value = v\<rparr> # rs, w2, ks @ ks', pos')) (run_group fs (used ks pos) w1))"

primrec direct :: "('w, 'v) prog \<Rightarrow> nat \<Rightarrow> (string \<Rightarrow> json) \<Rightarrow> (string \<Rightarrow> nat) \<Rightarrow> 'w \<Rightarrow>
    (('v \<times> goerr option) \<times> 'w \<times> (string \<times> nat) list) option" where
  "direct (PReturn v err) = (\<lambda>A env pos w. Some ((v, err), w, []))"
| "direct (PPanic p) = (\<lambda>A env pos w. None)"
| "direct (PAct f k) = (\<lambda>A env pos w. None)"
| "direct (PRun sid T body k) = (\<lambda>A env pos w.
     case attempts A body w of None \<Rightarrow> None
     | Some (r, w') \<Rightarrow>
         (case seen T r of None \<Rightarrow> None
          | Some r' \<Rightarrow> map_option (\<lambda>(a, w'', ks). (a, w'', (sid, pos sid) # ks))
                         (direct (k r') A env (pos(sid := Suc (pos sid))) w')))"
| "direct (PSleep sid dur k) = (\<lambda>A env pos w.
     map_option (\<lambda>(a, w', ks). (a, w', (sid, pos sid) # ks)) (direct k A env (pos(sid := Suc (pos sid))) w))"
| "direct (PWait T sid opts k) = (\<lambda>A env pos w.
     case wait_memo T (env (key_hash (sid, pos sid))) of None \<Rightarrow> None
     | Some r \<Rightarrow> map_option (\<lambda>(a, w', ks). (a, w', (sid, pos sid) # ks)) (direct (k r) A env (pos(sid := Suc (pos sid))) w))"
| "direct (PInvoke T sid opts k) = (\<lambda>A env pos w.
     case answer (fst (invoke_memo T opts (env (key_hash (sid, pos sid))) idle)) of None \<Rightarrow> None
     | Some r \<Rightarrow> map_option (\<lambda>(a, w', ks). (a, w', (sid, pos sid) # ks)) (direct (k r) A env (pos(sid := Suc (pos sid))) w))"
| "direct (PInfer T sid opts body k) = (\<lambda>A env pos w.
     case answer (fst (infer_memo T sid (env (key_hash (sid, pos sid))) idle)) of None \<Rightarrow> None
     | Some r \<Rightarrow> map_option (\<lambda>(a, w', ks). (a, w', (sid, pos sid) # ks)) (direct (k r) A env (pos(sid := Suc (pos sid))) w))"
| "direct (PParallel ps k) = (\<lambda>A env pos w.
     case run_group (map (\<lambda>f. f A env) (map direct ps)) pos w of None \<Rightarrow> None
     | Some (rs, w1, ks, pos') \<Rightarrow> map_option (\<lambda>(a, w', ks'). (a, w', ks @ ks')) (direct (k rs) A env pos' w1))"

section \<open>The implementation: invocations and stored steps\<close>

datatype settled = Retry | Store json

definition settle :: "nat \<Rightarrow> (string \<Rightarrow> json) \<Rightarrow> nat \<Rightarrow> GeneratorOpcode \<Rightarrow> settled" where
  "settle A env att op = (case op_Op op of
     OpcodeStepRun \<Rightarrow> Store (JObj (case op_Data op of Some j \<Rightarrow> [(''data'', j)] | None \<Rightarrow> []))
   | OpcodeStepError \<Rightarrow>
       (if Suc att < A then Retry
        else Store (JObj [(''error'', (case op_Error op of
               Some ue \<Rightarrow> JObj ([(''name'', JStr (ue_Name ue)), (''message'', JStr (ue_Message ue))] @
                            (case ue_Data ue of Some j \<Rightarrow> [(''data'', j)] | None \<Rightarrow> []))
             | None \<Rightarrow> JNull))]))
   | OpcodeSleep \<Rightarrow> Store JNull
   | _ \<Rightarrow> Store (env (op_ID op)))"

text \<open>A planned step: the service calls for it by its hash until the step's result can be stored, \<open>B\<close> more times at most.\<close>

primrec exec_planned :: "nat \<Rightarrow> nat \<Rightarrow> (string \<Rightarrow> json) \<Rightarrow> (int \<Rightarrow> string) \<Rightarrow> string \<Rightarrow> ('w, 'v) prog \<Rightarrow> Request \<Rightarrow> string \<Rightarrow> nat \<Rightarrow> 'w \<Rightarrow>
    (Request \<times> 'w) option" where
  "exec_planned 0 A env d stack p req h att w = None"
| "exec_planned (Suc B) A env d stack p req h att w =
     (let (r, w') = call d stack p req (Some h) w
      in case iv_ops r of
           [op] \<Rightarrow>
             (if op_ID op = h then
                case settle A env att op of
                  Retry \<Rightarrow> exec_planned B A env d stack p req h (Suc att) w'
                | Store j \<Rightarrow> Some (req\<lparr>rq_Steps := (rq_Steps req)(h \<mapsto> j)\<rparr>, w')
              else None)
         | _ \<Rightarrow> None)"

primrec run_planned :: "nat \<Rightarrow> (string \<Rightarrow> json) \<Rightarrow> (int \<Rightarrow> string) \<Rightarrow> string \<Rightarrow> ('w, 'v) prog \<Rightarrow> string list \<Rightarrow> Request \<Rightarrow> 'w \<Rightarrow>
    (Request \<times> 'w) option" where
  "run_planned A env d stack p [] req w = Some (req, w)"
| "run_planned A env d stack p (h # hs) req w =
     (case exec_planned A A env d stack p req h 0 w of None \<Rightarrow> None | Some (req', w') \<Rightarrow> run_planned A env d stack p hs req' w')"

definition all_planned :: "GeneratorOpcode list \<Rightarrow> bool" where
  "all_planned ops \<longleftrightarrow> ops \<noteq> [] \<and> list_all (\<lambda>op. op_Op op = OpcodeStepPlanned) ops"

text \<open>\<open>drive n\<close> makes at most \<open>n\<close> invocations without a target; \<open>None\<close> means that more are needed or that an invocation failed.\<close>

primrec drive :: "nat \<Rightarrow> nat \<Rightarrow> (string \<Rightarrow> json) \<Rightarrow> (int \<Rightarrow> string) \<Rightarrow> string \<Rightarrow> ('w, 'v) prog \<Rightarrow> Request \<Rightarrow> nat \<Rightarrow> 'w \<Rightarrow>
    (('v \<times> goerr option) \<times> 'w) option" where
  "drive 0 A env d stack p req att w = None"
| "drive (Suc n) A env d stack p req att w =
     (let (r, w') = call d stack p req None w
      in case iv_response r of
           Some v \<Rightarrow> Some ((v, iv_err r), w')
         | None \<Rightarrow>
             if all_planned (iv_ops r) then
               (case run_planned A env d stack p (map op_ID (iv_ops r)) req w' of
                  None \<Rightarrow> None
                | Some (req', w'') \<Rightarrow> drive n A env d stack p req' 0 w'')
             else
             (case iv_ops r of
                [op] \<Rightarrow>
                  (case settle A env att op of
                     Retry \<Rightarrow> drive n A env d stack p req (Suc att) w'
                   | Store j \<Rightarrow> drive n A env d stack p (req\<lparr>rq_Steps := (rq_Steps req)(op_ID op \<mapsto> j)\<rparr>) 0 w')
              | _ \<Rightarrow> None))"

section \<open>Replay\<close>

text \<open>The ID of the tool a program calls next, and the program that goes on after it for a stored value.\<close>

primrec head_id :: "('w, 'v) prog \<Rightarrow> string option" where
  "head_id (PReturn v err) = None"
| "head_id (PPanic p) = None"
| "head_id (PAct f k) = None"
| "head_id (PRun sid T body k) = Some sid"
| "head_id (PSleep sid dur k) = Some sid"
| "head_id (PWait T sid opts k) = Some sid"
| "head_id (PInvoke T sid opts k) = Some sid"
| "head_id (PInfer T sid opts body k) = Some sid"
| "head_id (PParallel ps k) = None"

primrec memo_next :: "('w, 'v) prog \<Rightarrow> json \<Rightarrow> ('w, 'v) prog option" where
  "memo_next (PReturn v err) = (\<lambda>val. None)"
| "memo_next (PPanic p) = (\<lambda>val. None)"
| "memo_next (PAct f k) = (\<lambda>val. None)"
| "memo_next (PRun sid T body k) = (\<lambda>val. map_option k (answer (fst (run_memo T sid val idle))))"
| "memo_next (PSleep sid dur k) = (\<lambda>val. Some k)"
| "memo_next (PWait T sid opts k) = (\<lambda>val. map_option k (wait_memo T val))"
| "memo_next (PInvoke T sid opts k) = (\<lambda>val. map_option k (answer (fst (invoke_memo T opts val idle))))"
| "memo_next (PInfer T sid opts body k) = (\<lambda>val. map_option k (answer (fst (infer_memo T sid val idle))))"
| "memo_next (PParallel ps k) = (\<lambda>val. None)"

fun group_memo :: "(string \<rightharpoonup> json) \<Rightarrow> ('w, 'v) prog list \<Rightarrow> (string \<Rightarrow> nat) \<Rightarrow> ('v Result list \<times> (string \<Rightarrow> nat)) option" where
  "group_memo steps [] pos = Some ([], pos)"
| "group_memo steps (p # ps) pos =
     do { sid \<leftarrow> head_id p;
          val \<leftarrow> steps (key_hash (sid, pos sid));
          p' \<leftarrow> memo_next p val;
          (v, err) \<leftarrow> returns p';
          (rs, pos') \<leftarrow> group_memo steps ps (pos(sid := Suc (pos sid)));
          Some (\<lparr>rs_Err = err, rs_Value = v\<rparr> # rs, pos') }"

inductive reach :: "(string \<rightharpoonup> json) \<Rightarrow> ('w, 'v) prog \<Rightarrow> ('w, 'v) prog \<Rightarrow> (string \<Rightarrow> nat) \<Rightarrow> bool"
  for steps :: "string \<rightharpoonup> json" and p0 :: "('w, 'v) prog" where
  start: "reach steps p0 p0 (\<lambda>_. 0)"
| memo: "reach steps p0 p pos \<Longrightarrow> head_id p = Some sid \<Longrightarrow> steps (key_hash (sid, pos sid)) = Some val \<Longrightarrow>
    memo_next p val = Some p' \<Longrightarrow> reach steps p0 p' (pos(sid := Suc (pos sid)))"
| group: "reach steps p0 (PParallel ps k) pos \<Longrightarrow> group_memo steps ps pos = Some (rs, pos') \<Longrightarrow> reach steps p0 (k rs) pos'"

lemma group_memo_Cons:
  "group_memo steps (p # ps) pos = Some (rs, pos') \<longleftrightarrow> (\<exists>sid val p' v err rs'. head_id p = Some sid \<and> steps (key_hash (sid, pos sid)) = Some val \<and>
     memo_next p val = Some p' \<and> returns p' = Some (v, err) \<and> group_memo steps ps (pos(sid := Suc (pos sid))) = Some (rs', pos') \<and>
     rs = \<lparr>rs_Err = err, rs_Value = v\<rparr> # rs')"
  by (auto split: bind_splits)

lemma group_memo_mono: "group_memo steps ps pos = Some (rs, pos') \<Longrightarrow> steps \<subseteq>\<^sub>m steps' \<Longrightarrow> group_memo steps' ps pos = Some (rs, pos')"
proof (induction ps arbitrary: pos rs)
  case (Cons p ps)
  then show ?case unfolding group_memo_Cons by (blast dest: map_le_SomeD)
qed simp

lemma reach_mono: "reach steps p0 p pos \<Longrightarrow> steps \<subseteq>\<^sub>m steps' \<Longrightarrow> reach steps' p0 p pos"
proof (induction rule: reach.induct)
  case start
  show ?case by (rule reach.start)
next
  case (memo p pos sid val p')
  then have "steps' (key_hash (sid, pos sid)) = Some val" by (auto dest: map_le_SomeD)
  with memo show ?case by (blast intro: reach.memo)
next
  case (group ps k pos rs pos')
  then show ?case using group_memo_mono by (blast intro: reach.group)
qed

text \<open>A state in which nothing was reported and the IDs were used \<open>pos\<close> times.\<close>

definition clean :: "Request \<Rightarrow> (string \<Rightarrow> nat) \<Rightarrow> 'w \<Rightarrow> 'w st \<Rightarrow> bool" where
  "clean req pos w s \<longleftrightarrow> m_ops (st_mgr s) = [] \<and> m_err (st_mgr s) = None \<and> m_request (st_mgr s) = req \<and>
     \<not> st_cancelled s \<and> next_pos (st_mgr s) = pos \<and> st_world s = w"

abbreviation targeting :: "string option \<Rightarrow> ctx" where
  "targeting t \<equiv> \<lparr>targetStepID = t, ParallelKey = False, hasManager = True\<rparr>"

abbreviation plain :: ctx where
  "plain \<equiv> targeting None"

lemma length_key_hash [simp]: "length (key_hash k) = 40"
  by (simp add: key_hash_def MustHash_def Hash_def)

lemma fn_ctx_simps [simp]: "fn_ctx None = plain" "fn_ctx (Some (key_hash k)) = targeting (Some (key_hash k))"
proof -
  have "length (key_hash k) = 40" by simp
  then have "key_hash k \<noteq> [] \<and> key_hash k \<noteq> ''step''" by (auto simp del: length_key_hash)
  then show "fn_ctx (Some (key_hash k)) = targeting (Some (key_hash k))" by (simp add: fn_ctx_def SetTargetStepID_def)
qed (simp add: fn_ctx_def)

text \<open>The part of \<open>clean\<close> that the numbering and the lookup of a tool depend on.\<close>

definition live :: "Request \<Rightarrow> (string \<Rightarrow> nat) \<Rightarrow> 'w \<Rightarrow> 'w st \<Rightarrow> bool" where
  "live req pos w s \<longleftrightarrow> m_request (st_mgr s) = req \<and> \<not> st_cancelled s \<and> next_pos (st_mgr s) = pos \<and> st_world s = w"

lemma clean_live: "clean req pos w s \<Longrightarrow> live req pos w s"
  by (simp add: clean_def live_def)

lemma clean_call_state: "clean req (\<lambda>_. 0) w (call_state req w)"
  by (simp add: clean_def fun_eq_iff)

lemma MustHash_key: "MustHash u = key_hash (uo_ID u, uo_Pos u)"
  by (simp add: key_hash_def MustHash_def Hash_def hash_input_def)

text \<open>Every tool first numbers its operation.\<close>

definition numbered :: "string \<Rightarrow> 'w st \<Rightarrow> 'w st" where
  "numbered sid s = s\<lparr>st_mgr := (st_mgr s)\<lparr>m_indexes := (m_indexes (st_mgr s))(sid \<mapsto> next_pos (st_mgr s) sid)\<rparr>\<rparr>"

lemma clean_numbered: "clean req pos w s \<Longrightarrow> clean req (pos(sid := Suc (pos sid))) w (numbered sid s)"
  by (auto simp: clean_def numbered_def next_pos_def fun_eq_iff)

lemma live_numbered: "live req pos w s \<Longrightarrow> live req (pos(sid := Suc (pos sid))) w (numbered sid s)"
  by (auto simp: live_def numbered_def next_pos_def fun_eq_iff)

lemma tool_prelude:
  "live req pos w s \<Longrightarrow> hasManager cx \<Longrightarrow> preflight cx (with_op k sid opts f) s =
     f \<lparr>uo_Op = k, uo_ID = sid, uo_Name = [], uo_Opts = opts, uo_Pos = pos sid\<rparr> (numbered sid s)"
  by (auto simp: preflight_def with_op_def live_def NewOp_def next_pos_def numbered_def Let_def)

lemma Step_numbered:
  "live req pos w s \<Longrightarrow> Step (st_mgr (numbered sid s)) \<lparr>uo_Op = k, uo_ID = sid, uo_Name = [], uo_Opts = opts, uo_Pos = n\<rparr>
     = rq_Steps req (key_hash (sid, n))"
  by (simp add: Step_def live_def numbered_def MustHash_key)

lemmas tool_defs = bindM_def Run_def Sleep_def WaitForEvent_def Invoke_def Infer_def

lemma infer_decode_state:
  "answer (fst (infer_decode T val idle)) = Some r \<Longrightarrow> infer_decode T val s = (Returned r, s)"
  by (auto simp: infer_decode_def answer_def Let_def split: gokind.splits prod.splits)

lemma run_memo_state:
  assumes "answer (fst (run_memo T sid val idle)) = Some r"
  shows "run_memo T sid val s = (Returned r, s)"
proof (cases "Unmarshal_response val")
  case None
  with assms show ?thesis by (cases "unmarshal T val") (simp_all add: run_memo_def fail_with_def answer_def)
next
  case (Some u)
  show ?thesis
  proof (cases "rs_Error u")
    case None
    with assms Some show ?thesis
      by (cases "rs_Data u"; cases "unmarshal T (case rs_Data u of Some j \<Rightarrow> j | None \<Rightarrow> val)")
        (simp_all add: run_memo_def fail_with_def answer_def)
  next
    case (Some e)
    with assms \<open>Unmarshal_response val = Some u\<close> show ?thesis
      by (cases "Unmarshal_StepError (Some e)"; cases "Unmarshal T (se_Data (the (Unmarshal_StepError (Some e))))")
        (simp_all add: run_memo_def fail_with_def answer_def)
  qed
qed

lemma invoke_memo_state:
  "answer (fst (invoke_memo T opts val idle)) = Some r \<Longrightarrow> invoke_memo T opts val s = (Returned r, s)"
  by (auto simp: invoke_memo_def fail_with_def answer_def split: option.split_asm)

lemma infer_memo_state:
  assumes "answer (fst (infer_memo T sid val idle)) = Some r"
  shows "infer_memo T sid val s = (Returned r, s)"
proof (cases "Unmarshal_response val")
  case None
  with assms show ?thesis using infer_decode_state by (fastforce simp: infer_memo_def)
next
  case (Some u)
  show ?thesis
  proof (cases "rs_Error u")
    case None
    with assms Some show ?thesis using infer_decode_state by (cases "rs_Data u") (fastforce simp: infer_memo_def)+
  next
    case (Some e)
    with assms \<open>Unmarshal_response val = Some u\<close> show ?thesis
      by (cases "Unmarshal_StepError (Some e)") (simp_all add: infer_memo_def fail_with_def answer_def)
  qed
qed

lemma replay_one:
  assumes c: "live req pos w s" and m: "hasManager cx" and h: "head_id p = Some sid" and v: "rq_Steps req (key_hash (sid, pos sid)) = Some val"
    and n: "memo_next p val = Some p'"
  shows "interp p d cx s = interp p' d cx (numbered sid s)"
proof (cases p)
  case (PRun sid' T body k)
  with n obtain r where r: "answer (fst (run_memo T sid' val idle)) = Some r" "p' = k r" by auto
  with PRun h v run_memo_state [OF r(1), of "numbered sid s"] show ?thesis by (simp add: tool_defs tool_prelude [OF c m] Step_numbered [OF c])
next
  case (PSleep sid' dur k)
  with h v n show ?thesis by (simp add: tool_defs tool_prelude [OF c m] Step_numbered [OF c])
next
  case (PWait T sid' opts k)
  with n obtain r where "wait_memo T val = Some r" "p' = k r" by auto
  with PWait h v show ?thesis by (auto simp: tool_defs tool_prelude [OF c m] Step_numbered [OF c] wait_memo_def split: if_splits)
next
  case (PInvoke T sid' opts k)
  with n obtain r where r: "answer (fst (invoke_memo T opts val idle)) = Some r" "p' = k r" by auto
  with PInvoke h v invoke_memo_state [OF r(1), of "numbered sid s"] show ?thesis by (simp add: tool_defs tool_prelude [OF c m] Step_numbered [OF c])
next
  case (PInfer T sid' opts body k)
  with n obtain r where r: "answer (fst (infer_memo T sid' val idle)) = Some r" "p' = k r" by auto
  with PInfer h v infer_memo_state [OF r(1), of "numbered sid s"] show ?thesis by (simp add: tool_defs tool_prelude [OF c m] Step_numbered [OF c])
qed (use h in auto)

text \<open>The members of a group whose steps are all stored return one after the other.\<close>

lemma parallel_loop_append:
  "parallel_loop (fs @ hs) g s = (case parallel_loop fs g s of (g', s') \<Rightarrow> parallel_loop hs g' s')"
  by (induction fs g s rule: parallel_loop.induct) (auto split: prod.splits)

lemma replay_members:
  assumes "clean req pos w s" "hasManager cx" "group_memo (rq_Steps req) ps pos = Some (rs, pos')"
  shows "\<exists>s'. parallel_loop (map (\<lambda>p. interp p d cx) ps) g s = (g\<lparr>g_results := g_results g @ rs\<rparr>, s') \<and> clean req pos' w s'"
  using assms
proof (induction ps arbitrary: pos s g rs)
  case (Cons p ps)
  from Cons.prems(3) obtain sid val p' v err rs' where p: "head_id p = Some sid" "rq_Steps req (key_hash (sid, pos sid)) = Some val"
    "memo_next p val = Some p'" "returns p' = Some (v, err)"
    and rest: "group_memo (rq_Steps req) ps (pos(sid := Suc (pos sid))) = Some (rs', pos')" "rs = \<lparr>rs_Err = err, rs_Value = v\<rparr> # rs'"
    unfolding group_memo_Cons by blast
  have "interp p d cx s = (Returned (v, err), numbered sid s)"
    using replay_one [OF clean_live [OF Cons.prems(1)] assms(2) p(1-3), of d] p(4) by (cases p') (auto simp: returns_def)
  with Cons.IH [OF clean_numbered [OF Cons.prems(1)] assms(2) rest(1), of "group_add (Returned (v, err)) g"] rest(2) show ?case
    by (auto simp: group_add_def)
qed simp

lemma interp_Parallel:
  "interp (PParallel ps k) d cx = bindM (Parallel (map (\<lambda>p. interp p d) ps) cx) (\<lambda>rs. interp (k rs) d cx)"
  by (simp add: comp_def)

abbreviation in_group :: "ctx \<Rightarrow> ctx" where
  "in_group cx \<equiv> cx\<lparr>ParallelKey := True\<rparr>"

abbreviation no_results :: "'v group" where
  "no_results \<equiv> \<lparr>g_results = [], g_isPlanned = False, g_unexpectedPanic = None\<rparr>"

lemma Parallel_loop:
  "Parallel (map (\<lambda>p. interp p d) ps) cx s =
     (case parallel_loop (map (\<lambda>p. interp p d (in_group cx)) ps) no_results s of (g, s') \<Rightarrow> (group_end g, s'))"
  by (simp add: Parallel_def comp_def)

lemma replay_group:
  assumes "clean req pos w s" "hasManager cx" "group_memo (rq_Steps req) ps pos = Some (rs, pos')"
  shows "\<exists>s'. clean req pos' w s' \<and> interp (PParallel ps k) d cx s = interp (k rs) d cx s'"
proof -
  from replay_members [OF assms(1) _ assms(3), of "in_group cx" d no_results] assms(2) obtain s' where
    "parallel_loop (map (\<lambda>p. interp p d (in_group cx)) ps) no_results s = (no_results\<lparr>g_results := rs\<rparr>, s')" "clean req pos' w s'" by auto
  then show ?thesis unfolding interp_Parallel by (auto simp: bindM_def Parallel_loop group_end_def)
qed

lemma replay:
  assumes "reach (rq_Steps req) p0 p pos" "hasManager cx"
  shows "\<exists>s'. clean req pos w s' \<and> interp p0 d cx (call_state req w) = interp p d cx s'"
  using assms(1)
proof (induction rule: reach.induct)
  case start
  show ?case by (intro exI conjI) (rule clean_call_state, rule refl)
next
  case (memo p pos sid val p')
  then show ?case using replay_one [OF clean_live assms(2)] clean_numbered by metis
next
  case (group ps k pos rs pos')
  then show ?case using replay_group [OF _ assms(2)] by metis
qed

section \<open>The first step without a stored value\<close>

lemma body_interp:
  "tool_free b \<Longrightarrow> fst (body_run b (st_world s)) = Some r \<Longrightarrow>
     interp b d cx s = (Returned r, s\<lparr>st_world := snd (body_run b (st_world s))\<rparr>)"
  by (induction b arbitrary: s) auto

text \<open>What one invocation returns when the program that is reached is stopped by a tool that reported \<open>ops\<close>.\<close>

lemma call_pending:
  assumes "reach (rq_Steps req) p0 p pos" "fn_ctx stepID = targeting t"
    and "\<And>s. clean req pos w s \<Longrightarrow>
      \<exists>s' ops. interp p d (targeting t) s = (Hijacked, s') \<and> m_ops (st_mgr s') = ops \<and> st_world s' = w' \<and> P ops"
  shows "\<exists>ops. iv_response (fst (call d stack p0 req stepID w)) = None \<and> iv_ops (fst (call d stack p0 req stepID w)) = ops \<and>
    snd (call d stack p0 req stepID w) = w' \<and> P ops"
proof -
  from replay [OF assms(1), of "targeting t" w d] obtain s where
    "clean req pos w s" "interp p0 d (targeting t) (call_state req w) = interp p d (targeting t) s" by auto
  with assms(3) [of s] show ?thesis by (auto simp: call_unfold call_result_def assms(2))
qed

lemma call_done:
  assumes "reach (rq_Steps req) p0 (PReturn v err) pos"
  shows "call d stack p0 req None w = (\<lparr>iv_response = Some v, iv_ops = [], iv_err = err\<rparr>, w)"
proof -
  from replay [OF assms, of plain w d] obtain s where "clean req pos w s" "interp p0 d plain (call_state req w) = (Returned (v, err), s)"
    by fastforce
  then show ?thesis by (simp add: call_unfold call_result_def clean_def)
qed

definition ok_op :: "string \<Rightarrow> string \<Rightarrow> json \<Rightarrow> GeneratorOpcode" where
  "ok_op h sid j = (run_op OpcodeStepRun h sid)\<lparr>op_Data := Some j\<rparr>"

definition err_op :: "string \<Rightarrow> string \<Rightarrow> string \<Rightarrow> RawMessage \<Rightarrow> GeneratorOpcode" where
  "err_op h sid m raw = (run_op OpcodeStepError h sid)
     \<lparr>op_Error := Some \<lparr>ue_Name = ''Step failed'', ue_Message = m, ue_Data = raw\<rparr>\<rparr>"

text \<open>The opcode that reports an execution of a step body that returned \<open>(v, err)\<close>.\<close>

definition reports :: "'v gotype \<Rightarrow> string \<Rightarrow> string \<Rightarrow> 'v \<Rightarrow> goerr option \<Rightarrow> GeneratorOpcode \<Rightarrow> bool" where
  "reports T h sid v err op \<longleftrightarrow> (case err of
     None \<Rightarrow> \<exists>j. marshal T v = Some j \<and> op = ok_op h sid j
   | Some e \<Rightarrow> \<exists>m. reportable e = Some m \<and> op = err_op h sid m (marshal T v))"

lemma run_pending:
  fixes body :: "('w, 'v) prog"
  assumes c: "clean req pos w s" and m: "hasManager cx" and "tool_free body" and new: "rq_Steps req (key_hash (sid, pos sid)) = None"
    and now: "runs_now cx s (key_hash (sid, pos sid))" and b: "body_run body w = (Some (v, err), w')"
    and op: "reports T (key_hash (sid, pos sid)) sid v err op"
  shows "\<exists>s'. interp (PRun sid T body k) d cx s = (Hijacked, s') \<and> m_ops (st_mgr s') = [op] \<and> st_world s' = w' \<and> st_cancelled s'"
proof -
  let ?s = "numbered sid s"
  note lv = clean_live [OF c]
  from clean_numbered [OF c] have cn: "clean req (pos(sid := Suc (pos sid))) w ?s" .
  with b body_interp [OF assms(3), of ?s "(v, err)" d cx]
  have body: "interp body d cx ?s = (Returned (v, err), ?s\<lparr>st_world := w'\<rparr>)" by (simp add: clean_def)
  have "m_request (st_mgr s) = req" using c by (simp add: clean_def)
  with cn new now have run: "(Run T sid (interp body d) cx s :: ('v \<times> goerr option) outcome \<times> 'w st)
      = run_body T (key_hash (sid, pos sid)) sid (interp body d) cx ?s"
    by (auto simp: Run_def tool_prelude [OF lv m] Step_numbered [OF lv] getTargetStepID_def isParallel_def clean_def
        MustHash_key runs_now_def Let_def)
  show ?thesis
  proof (cases err)
    case None
    with op cn show ?thesis
      by (auto simp: run bindM_def run_body_def body run_succeeded_def report_op_def cancel_def clean_def ok_op_def reports_def)
  next
    case (Some e)
    with op obtain m where "reportable e = Some m" "op = err_op (key_hash (sid, pos sid)) sid m (marshal T v)" by (auto simp: reports_def)
    with Some cn show ?thesis
      by (auto simp: run bindM_def run_body_def body run_failed_def fail_with_def cancel_def clean_def err_op_def
          reportable_def split: if_splits)
  qed
qed

text \<open>A step that is planned instead of run, and the keys and opcodes of a list of planned steps whose IDs were used \<open>pos\<close> times before.\<close>

fun keys_from :: "(string \<Rightarrow> nat) \<Rightarrow> string list \<Rightarrow> (string \<times> nat) list" where
  "keys_from pos [] = []"
| "keys_from pos (sid # sids) = (sid, pos sid) # keys_from (pos(sid := Suc (pos sid))) sids"

definition plan_op :: "string \<times> nat \<Rightarrow> GeneratorOpcode" where
  "plan_op k = run_op OpcodeStepPlanned (key_hash k) (fst k)"

lemma plan_op_simps [simp]: "op_ID (plan_op k) = key_hash k" "op_Op (plan_op k) = OpcodeStepPlanned"
  by (simp_all add: plan_op_def run_op_def)

lemma all_planned_map [simp]: "all_planned (map plan_op ks) \<longleftrightarrow> ks \<noteq> []"
  by (simp add: all_planned_def list_all_iff)

definition plans :: "ctx \<Rightarrow> Request \<Rightarrow> bool" where
  "plans cx req \<longleftrightarrow> targetStepID cx = None \<and> (ParallelKey cx \<or> DisableImmediateExecution (rq_CallCtx req))"

lemma run_plans:
  assumes c: "live req pos w s" and m: "hasManager cx" and "plans cx req" and new: "rq_Steps req (key_hash (sid, pos sid)) = None"
  shows "\<exists>s'. interp (PRun sid T body k) d cx s = (Hijacked, s') \<and> live req (pos(sid := Suc (pos sid))) w s' \<and>
    m_ops (st_mgr s') = m_ops (st_mgr s) @ [plan_op (sid, pos sid)]"
proof -
  have "m_request (st_mgr (numbered sid s)) = req" using live_numbered [OF c] by (simp add: live_def)
  with assms(3) new have "interp (PRun sid T body k) d cx s = report_op (plan_op (sid, pos sid)) (numbered sid s)"
    by (auto simp: tool_defs tool_prelude [OF c m] Step_numbered [OF c] getTargetStepID_def isParallel_def MustHash_key plans_def Let_def
        plan_op_def report_op_def)
  with live_numbered [OF c, of sid] show ?thesis by (auto simp: report_op_def live_def numbered_def)
qed

definition branch_id :: "('w, 'v) prog \<Rightarrow> string" where
  "branch_id p = (case head_id p of Some sid \<Rightarrow> sid | None \<Rightarrow> [])"

lemma returns_Some: "returns p = Some (v, err) \<longleftrightarrow> p = PReturn v err"
  by (cases p) (auto simp: returns_def)

lemma branchE:
  assumes "branch p"
  obtains sid T body k where "p = PRun sid T body k" "tool_free body" "\<And>r. \<exists>v err. k r = PReturn v err" "branch_id p = sid"
proof (cases p)
  case (PRun sid T body k)
  with assms have "returns (k r) \<noteq> None" for r by (cases r) (auto simp: branch_def)
  then have "\<exists>v err. k r = PReturn v err" for r by (metis not_None_eq returns_Some surj_pair)
  with PRun assms that show ?thesis by (auto simp: branch_def branch_id_def)
qed (use assms in \<open>auto simp: branch_def\<close>)

lemma plan_members:
  assumes "live req pos w s" "hasManager cx" "plans cx req" "\<forall>p \<in> set ps. branch p"
    "\<forall>k \<in> set (keys_from pos (map branch_id ps)). rq_Steps req (key_hash k) = None"
  shows "\<exists>s'. parallel_loop (map (\<lambda>p. interp p d cx) ps) g s = (g\<lparr>g_isPlanned := g_isPlanned g \<or> ps \<noteq> []\<rparr>, s') \<and> st_world s' = w \<and>
    m_ops (st_mgr s') = m_ops (st_mgr s) @ map plan_op (keys_from pos (map branch_id ps))"
  using assms
proof (induction ps arbitrary: pos s g)
  case Nil
  then show ?case by (simp add: live_def)
next
  case (Cons p ps)
  from Cons.prems(4) obtain sid T body k where p: "p = PRun sid T body k" "branch_id p = sid" by (auto elim: branchE)
  from run_plans [OF Cons.prems(1-3), of sid T body k d] Cons.prems(5) p(2) obtain s1 where
    s1: "interp p d cx s = (Hijacked, s1)" "live req (pos(sid := Suc (pos sid))) w s1" "m_ops (st_mgr s1) = m_ops (st_mgr s) @ [plan_op (sid, pos sid)]"
    unfolding p(1) by auto
  have "\<forall>k \<in> set (keys_from (pos(sid := Suc (pos sid))) (map branch_id ps)). rq_Steps req (key_hash k) = None"
    using Cons.prems(5) p(2) by simp
  from Cons.IH [OF s1(2) Cons.prems(2,3) _ this, of "group_add Hijacked g"] Cons.prems(4) obtain s' where
    "parallel_loop (map (\<lambda>p. interp p d cx) ps) (group_add Hijacked g) s1 = ((group_add Hijacked g)\<lparr>g_isPlanned := True\<rparr>, s')" "st_world s' = w"
    "m_ops (st_mgr s') = m_ops (st_mgr s1) @ map plan_op (keys_from (pos(sid := Suc (pos sid))) (map branch_id ps))"
    by (auto simp: group_add_def simp del: fun_upd_apply)
  then show ?case by (auto simp: s1 p(2) group_add_def simp del: fun_upd_apply)
qed

text \<open>A group of which nothing is stored is planned.\<close>

lemma group_plans:
  assumes "clean req pos w s" "\<forall>p \<in> set ps. branch p" "ps \<noteq> []"
    "\<forall>k \<in> set (keys_from pos (map branch_id ps)). rq_Steps req (key_hash k) = None"
  shows "\<exists>s'. interp (PParallel ps k) d plain s = (Hijacked, s') \<and> st_world s' = w \<and>
    m_ops (st_mgr s') = map plan_op (keys_from pos (map branch_id ps))"
proof -
  from plan_members [OF clean_live [OF assms(1)], of "in_group plain" ps d no_results] assms obtain s' where
    "parallel_loop (map (\<lambda>p. interp p d (in_group plain)) ps) no_results s = (no_results\<lparr>g_isPlanned := True\<rparr>, s')" "st_world s' = w"
    "m_ops (st_mgr s') = m_ops (st_mgr s) @ map plan_op (keys_from pos (map branch_id ps))" by (auto simp: plans_def)
  with assms(1) show ?thesis unfolding interp_Parallel by (auto simp: bindM_def Parallel_loop group_end_def clean_def)
qed

text \<open>A call for one member of a group: the members before it are stored, it runs, and the members after it find the context cancelled.\<close>

lemma cancelled_members:
  "st_cancelled s \<Longrightarrow> \<forall>p \<in> set ps. branch p \<Longrightarrow>
     parallel_loop (map (\<lambda>p. interp p d cx) ps) g s = (g\<lparr>g_isPlanned := g_isPlanned g \<or> ps \<noteq> []\<rparr>, s)"
proof (induction ps arbitrary: g)
  case (Cons p ps)
  then obtain sid T body k where "p = PRun sid T body k" by (auto elim: branchE)
  with Cons.prems(1) have "interp p d cx s = (Hijacked, s)" by (simp add: bindM_def Run_def preflight_def)
  with Cons show ?case by (simp add: group_add_def)
qed simp

lemma member_runs:
  assumes c: "clean req pos w s" and before: "group_memo (rq_Steps req) before pos = Some (rs, pos1)"
    and p: "p = PRun sid T body k" "tool_free body" and new: "rq_Steps req (key_hash (sid, pos1 sid)) = None"
    and after: "\<forall>p \<in> set after. branch p" and b: "body_run body w = (Some (v, err), w')"
    and op: "reports T (key_hash (sid, pos1 sid)) sid v err op"
  shows "\<exists>s'. interp (PParallel (before @ p # after) k') d (targeting (Some (key_hash (sid, pos1 sid)))) s = (Hijacked, s') \<and>
    m_ops (st_mgr s') = [op] \<and> st_world s' = w'"
proof -
  let ?cx = "in_group (targeting (Some (key_hash (sid, pos1 sid))))"
  from replay_members [OF c _ before, of ?cx d no_results] obtain s1 where
    s1: "parallel_loop (map (\<lambda>p. interp p d ?cx) before) no_results s = (no_results\<lparr>g_results := rs\<rparr>, s1)" "clean req pos1 w s1" by auto
  from run_pending [OF s1(2) _ p(2) new _ b op, of ?cx k d] obtain s2 where
    s2: "interp p d ?cx s1 = (Hijacked, s2)" "m_ops (st_mgr s2) = [op]" "st_world s2 = w'" "st_cancelled s2"
    unfolding p(1) by (auto simp: runs_now_def)
  have "Parallel (map (\<lambda>p. interp p d) (before @ p # after)) (targeting (Some (key_hash (sid, pos1 sid)))) s = (Hijacked, s2)"
    unfolding Parallel_loop
    by (simp add: parallel_loop_append s1 [simplified] s2(1) [simplified] cancelled_members [OF s2(4) after] group_add_def group_end_def)
  with s2(2,3) show ?thesis unfolding interp_Parallel by (auto simp: bindM_def)
qed

section \<open>Stored values\<close>

lemma fold_names [simp]:
  "fold_name ''data'' = ''data''" "fold_name ''error'' = ''error''" "fold_name ''name'' = ''name''"
  "fold_name ''message'' = ''message''"
  by code_simp+

definition stored_run :: "'v gotype \<Rightarrow> 'v \<times> string option \<Rightarrow> json \<Rightarrow> json" where
  "stored_run T r j = (case snd r of
     None \<Rightarrow> JObj [(''data'', j)]
   | Some m \<Rightarrow> JObj [(''error'', JObj [(''name'', JStr ''Step failed''), (''message'', JStr m), (''data'', j)])])"

lemma settle_run:
  "settle A env att (ok_op h sid j) = Store (stored_run T (v, None) j)"
  "\<not> Suc att < A \<Longrightarrow> settle A env att (err_op h sid m (Some j)) = Store (stored_run T (v, Some m) j)"
  "Suc att < A \<Longrightarrow> settle A env att (err_op h sid m raw) = Retry"
  by (simp_all add: settle_def ok_op_def err_op_def run_op_def stored_run_def)

lemma run_memo_stored:
  assumes "seen T r = Some r'"
  shows "\<exists>j. marshal T (fst r) = Some j \<and> answer (fst (run_memo T sid (stored_run T r j) idle)) = Some r'"
proof -
  obtain v err where r: "r = (v, err)" by (cases r)
  with assms obtain j v' where j: "marshal T v = Some j" "unmarshal T j = Some v'"
    and r': "r' = (v', map_option (\<lambda>m. StepErr \<lparr>se_Name = ''Step failed'', se_Message = m, se_Data = Some j\<rparr>) err)"
    by (auto simp: seen_def split: option.splits)
  have "answer (fst (run_memo T sid (stored_run T r j) idle)) = Some r'"
    by (cases err) (simp_all add: r r' j stored_run_def run_memo_def Unmarshal_response_def raw_field_def members_def
        answer_def Unmarshal_StepError_def string_field_def is_string_or_null_def)
  with j r show ?thesis by auto
qed


end
