(* ===== verification/Durable.thy ===== *)
theory Durable
  imports Replay
begin

text \<open>
  Durable execution: running a function by repeated invocations, each of which replays the stored steps and
  executes at most one more, gives what running the function once from start to end gives. The statement and the
  facts about one invocation are in \<open>Replay\<close>; here the invocations are put together by induction over the function.
\<close>

section \<open>Executing a step\<close>

text \<open>One attempt: its opcode is stored, or the step is tried again and the remaining attempts end the same way.\<close>

lemma attempt_settles:
  assumes "attempts (Suc B) body w = Some (r, w')" "Suc B + att = A" "marshal T (fst r) = Some j"
  obtains v err w1 op where "body_run body w = (Some (v, err), w1)" "reports T h sid v err op" "op_ID op = h" "op_Op op \<noteq> OpcodeStepPlanned"
    "settle A env att op = Store (stored_run T r j) \<and> w1 = w' \<or> settle A env att op = Retry \<and> attempts B body w1 = Some (r, w')"
proof -
  from assms(1) obtain v err w1 where b: "body_run body w = (Some (v, err), w1)" by (auto split: prod.splits option.splits)
  show ?thesis
  proof (cases err)
    case None
    with assms b have "r = (v, None)" "w' = w1" by auto
    with that [OF b, of "ok_op h sid j"] None assms(3) settle_run(1) [of A env att h sid j T v] show ?thesis
      by (auto simp: reports_def ok_op_def run_op_def)
  next
    case (Some e)
    with assms(1) b obtain m where m: "reportable e = Some m" by (auto split: option.splits)
    let ?op = "err_op h sid m (marshal T v)"
    have op: "reports T h sid v err ?op" "op_ID ?op = h" "op_Op ?op \<noteq> OpcodeStepPlanned"
      using Some m by (auto simp: reports_def err_op_def run_op_def)
    show ?thesis
    proof (cases "B = 0")
      case True
      with assms b Some m have "r = (v, Some m)" "w' = w1" "\<not> Suc att < A" by auto
      with that [OF b op] settle_run(2) [of att A env h sid m j T v] assms(3) show ?thesis by auto
    next
      case False
      with assms b Some m have "attempts B body w1 = Some (r, w')" "Suc att < A" by auto
      with that [OF b op] settle_run(3) [of att A env h sid m "marshal T v"] show ?thesis by auto
    qed
  qed
qed

text \<open>An invocation that executes a step: the one opcode is the report of the body's result.\<close>

definition executes :: "(int \<Rightarrow> string) \<Rightarrow> string \<Rightarrow> ('w, 'v) prog \<Rightarrow> Request \<Rightarrow> string option \<Rightarrow> 'v gotype \<Rightarrow> string \<Rightarrow> string \<Rightarrow> ('w, 'v) prog \<Rightarrow> bool" where
  "executes d stack p req stepID T h sid body \<longleftrightarrow> (\<forall>w v err w' op. body_run body w = (Some (v, err), w') \<and> reports T h sid v err op \<longrightarrow>
     iv_response (fst (call d stack p req stepID w)) = None \<and> iv_ops (fst (call d stack p req stepID w)) = [op] \<and>
     snd (call d stack p req stepID w) = w')"

lemma executesD:
  assumes "executes d stack p req stepID T h sid body" "body_run body w = (Some (v, err), w')" "reports T h sid v err op"
  obtains r where "call d stack p req stepID w = (r, w')" "iv_response r = None" "iv_ops r = [op]"
  using assms(2,3) assms(1) [unfolded executes_def, rule_format, of w v err w' op] that by (cases "call d stack p req stepID w") auto

abbreviation store :: "string \<Rightarrow> json \<Rightarrow> Request \<Rightarrow> Request" where
  "store h j req \<equiv> req\<lparr>rq_Steps := (rq_Steps req)(h \<mapsto> j)\<rparr>"

lemma exec_planned_attempts:
  assumes ex: "executes d stack p req (Some h) T h sid body" and j: "marshal T (fst r) = Some j"
  shows "attempts B body w = Some (r, w') \<Longrightarrow> B + att = A \<Longrightarrow>
    exec_planned B A env d stack p req h att w = Some (store h (stored_run T r j) req, w')"
proof (induction B arbitrary: att w)
  case (Suc B)
  from Suc.prems j obtain v err w1 op where op: "body_run body w = (Some (v, err), w1)" "reports T h sid v err op" "op_ID op = h"
    "settle A env att op = Store (stored_run T r j) \<and> w1 = w' \<or> settle A env att op = Retry \<and> attempts B body w1 = Some (r, w')"
    by (rule attempt_settles [where h = h and sid = sid and env = env])
  from ex op(1,2) obtain res where "call d stack p req (Some h) w = (res, w1)" "iv_ops res = [op]" by (rule executesD)
  with op(3,4) Suc.IH [of w1 "Suc att"] Suc.prems(2) show ?case by (auto simp del: fun_upd_apply)
qed simp

lemma drive_attempts:
  assumes ex: "executes d stack p req None T h sid body" and j: "marshal T (fst r) = Some j"
    and go_on: "drive n A env d stack p (store h (stored_run T r j) req) 0 w' = Some x"
  shows "attempts B body w = Some (r, w') \<Longrightarrow> B + att = A \<Longrightarrow> \<exists>m. drive m A env d stack p req att w = Some x"
proof (induction B arbitrary: att w)
  case (Suc B)
  from Suc.prems j obtain v err w1 op where op: "body_run body w = (Some (v, err), w1)" "reports T h sid v err op" "op_ID op = h"
    "op_Op op \<noteq> OpcodeStepPlanned"
    "settle A env att op = Store (stored_run T r j) \<and> w1 = w' \<or> settle A env att op = Retry \<and> attempts B body w1 = Some (r, w')"
    by (rule attempt_settles [where h = h and sid = sid and env = env])
  from ex op(1,2) obtain res where res: "call d stack p req None w = (res, w1)" "iv_response res = None" "iv_ops res = [op]" by (rule executesD)
  have np: "\<not> all_planned [op]" using op(4) by (simp add: all_planned_def)
  from op(5) show ?case
  proof
    assume "settle A env att op = Store (stored_run T r j) \<and> w1 = w'"
    with res op(3) np go_on have "drive (Suc n) A env d stack p req att w = Some x" by simp
    then show ?thesis ..
  next
    assume retry: "settle A env att op = Retry \<and> attempts B body w1 = Some (r, w')"
    with Suc.IH [of w1 "Suc att"] Suc.prems(2) obtain m where "drive m A env d stack p req (Suc att) w1 = Some x" by auto
    with res op(3) np retry have "drive (Suc m) A env d stack p req att w = Some x" by simp
    then show ?thesis ..
  qed
qed simp

lemma run_executes:
  assumes re: "reach (rq_Steps req) p0 (PRun sid T body k) pos" and tf: "tool_free body"
    and new: "rq_Steps req (key_hash (sid, pos sid)) = None"
    and t: "stepID = None \<and> \<not> DisableImmediateExecution (rq_CallCtx req) \<or> stepID = Some (key_hash (sid, pos sid))"
  shows "executes d stack p0 req stepID T (key_hash (sid, pos sid)) sid body"
  unfolding executes_def
proof (intro allI impI, elim conjE)
  fix w v err w' op assume b: "body_run body w = (Some (v, err), w')" and op: "reports T (key_hash (sid, pos sid)) sid v err op"
  have cx: "fn_ctx stepID = targeting stepID" using t by auto
  have "\<exists>s' ops. interp (PRun sid T body k) d (targeting stepID) s = (Hijacked, s') \<and> m_ops (st_mgr s') = ops \<and> st_world s' = w' \<and> ops = [op]"
    if "clean req pos w s" for s
    using run_pending [OF that _ tf new _ b op, of "targeting stepID" k d] t that by (auto simp: runs_now_def clean_def)
  from call_pending [OF re cx this] show "iv_response (fst (call d stack p0 req stepID w)) = None \<and>
    iv_ops (fst (call d stack p0 req stepID w)) = [op] \<and> snd (call d stack p0 req stepID w) = w'" by simp
qed

lemma member_executes:
  assumes re: "reach (rq_Steps req) p0 (PParallel (before @ PRun sid T body k # after) k') pos" and tf: "tool_free body"
    and before: "group_memo (rq_Steps req) before pos = Some (rs, pos1)" and new: "rq_Steps req (key_hash (sid, pos1 sid)) = None"
    and after: "\<forall>p \<in> set after. branch p"
  shows "executes d stack p0 req (Some (key_hash (sid, pos1 sid))) T (key_hash (sid, pos1 sid)) sid body"
  unfolding executes_def
proof (intro allI impI, elim conjE)
  let ?h = "key_hash (sid, pos1 sid)"
  fix w v err w' op assume b: "body_run body w = (Some (v, err), w')" and op: "reports T ?h sid v err op"
  have "\<exists>s' ops. interp (PParallel (before @ PRun sid T body k # after) k') d (targeting (Some ?h)) s = (Hijacked, s') \<and>
      m_ops (st_mgr s') = ops \<and> st_world s' = w' \<and> ops = [op]" if "clean req pos w s" for s
    using member_runs [OF that before refl tf new after b op, of k k' d] by blast
  from call_pending [OF re fn_ctx_simps(2) this] show "iv_response (fst (call d stack p0 req (Some ?h) w)) = None \<and>
    iv_ops (fst (call d stack p0 req (Some ?h) w)) = [op] \<and> snd (call d stack p0 req (Some ?h) w) = w'" by simp
qed

section \<open>The other tools\<close>

text \<open>The service stores null for a sleep and \<open>env\<close>'s answer otherwise.\<close>

definition is_tool :: "('w, 'v) prog \<Rightarrow> bool" where
  "is_tool p = (case p of PSleep _ _ _ \<Rightarrow> True | PWait _ _ _ _ \<Rightarrow> True | PInvoke _ _ _ _ \<Rightarrow> True | PInfer _ _ _ _ _ \<Rightarrow> True | _ \<Rightarrow> False)"

definition stored_tool :: "('w, 'v) prog \<Rightarrow> json \<Rightarrow> json" where
  "stored_tool p val = (case p of PSleep _ _ _ \<Rightarrow> JNull | _ \<Rightarrow> val)"

lemma settle_tool:
  "op_Op op = OpcodeSleep \<Longrightarrow> settle A env att op = Store JNull"
  "op_Op op \<in> {OpcodeWaitForEvent, OpcodeInvokeFunction, OpcodeAIGateway} \<Longrightarrow> settle A env att op = Store (env (op_ID op))"
  by (auto simp: settle_def)

lemma tool_pending:
  assumes cl: "clean req pos w s" and "durable p" "head_id p = Some sid" "is_tool p"
    and new: "rq_Steps req (key_hash (sid, pos sid)) = None"
  shows "\<exists>s' op. interp p d plain s = (Hijacked, s') \<and> m_ops (st_mgr s') = [op] \<and> st_world s' = w \<and> op_Op op \<noteq> OpcodeStepPlanned \<and>
    settle A env att op = Store (stored_tool p (env (key_hash (sid, pos sid)))) \<and> op_ID op = key_hash (sid, pos sid)"
proof -
  note c = clean_live [OF cl]
  have m: "hasManager plain" by simp
  show ?thesis
    using assms(2-4) new clean_numbered [OF cl, of sid]
    by (cases p) (auto simp: tool_defs tool_prelude [OF c m] Step_numbered [OF c] report_op_def clean_def MustHash_key run_op_def
        settle_tool stored_tool_def is_tool_def)
qed

lemma drive_tool:
  assumes re: "reach (rq_Steps req) p0 p pos" and p: "durable p" "head_id p = Some sid" "is_tool p"
    and new: "rq_Steps req (key_hash (sid, pos sid)) = None"
    and go_on: "drive n A env d stack p0 (store (key_hash (sid, pos sid)) (stored_tool p (env (key_hash (sid, pos sid)))) req) 0 w = Some x"
  shows "\<exists>m. drive m A env d stack p0 req 0 w = Some x"
proof -
  let ?P = "\<lambda>ops. \<exists>op. ops = [op] \<and> op_Op op \<noteq> OpcodeStepPlanned \<and>
    settle A env 0 op = Store (stored_tool p (env (key_hash (sid, pos sid)))) \<and> op_ID op = key_hash (sid, pos sid)"
  have "\<exists>s' ops. interp p d plain s = (Hijacked, s') \<and> m_ops (st_mgr s') = ops \<and> st_world s' = w \<and> ?P ops" if "clean req pos w s" for s
    using tool_pending [OF that p new, of d A env 0] by blast
  from call_pending [where P = ?P, OF re fn_ctx_simps(1) this] obtain op where
    "iv_response (fst (call d stack p0 req None w)) = None" "iv_ops (fst (call d stack p0 req None w)) = [op]" "snd (call d stack p0 req None w) = w"
    "op_Op op \<noteq> OpcodeStepPlanned" "settle A env 0 op = Store (stored_tool p (env (key_hash (sid, pos sid))))" "op_ID op = key_hash (sid, pos sid)"
    by blast
  with go_on have "drive (Suc n) A env d stack p0 req 0 w = Some x" by (simp add: split_beta all_planned_def)
  then show ?thesis ..
qed

section \<open>Keys\<close>

abbreviation unstored :: "(string \<times> nat) list \<Rightarrow> Request \<Rightarrow> bool" where
  "unstored ks req \<equiv> distinct (map key_hash ks) \<and> set (map key_hash ks) \<inter> dom (rq_Steps req) = {}"

lemma unstored_Cons:
  "unstored (k # ks) req \<Longrightarrow> rq_Steps req (key_hash k) = None \<and> unstored ks (store (key_hash k) val req)"
  by auto

lemma store_extends: "rq_Steps req h = None \<Longrightarrow> rq_Steps req \<subseteq>\<^sub>m (rq_Steps req)(h \<mapsto> val)"
  by (auto simp: map_le_def dom_def)

text \<open>After a value is stored, the next program is reached.\<close>

lemma reach_next:
  assumes "reach (rq_Steps req) p0 p pos" "head_id p = Some sid" "rq_Steps req (key_hash (sid, pos sid)) = None"
    "memo_next p val = Some p'"
  shows "reach (rq_Steps (store (key_hash (sid, pos sid)) val req)) p0 p' (pos(sid := Suc (pos sid)))"
  using reach.memo [OF reach_mono [OF assms(1) store_extends [OF assms(3)]] assms(2) _ assms(4)] by simp

section \<open>Planned steps\<close>

lemma drive_planned:
  assumes "iv_response (fst (call d stack p req None w)) = None" "iv_ops (fst (call d stack p req None w)) = map plan_op ks"
    "snd (call d stack p req None w) = w" "ks \<noteq> []" "run_planned A env d stack p (map key_hash ks) req w = Some (req', w')"
    "drive n A env d stack p req' 0 w' = Some x"
  shows "\<exists>m. drive m A env d stack p req 0 w = Some x"
proof -
  have "map op_ID (map plan_op ks) = map key_hash ks" by simp
  with assms have "drive (Suc n) A env d stack p req 0 w = Some x" by (simp add: split_beta del: map_map)
  then show ?thesis ..
qed

lemma direct_branchE:
  assumes "branch p" "direct p A env pos w = Some ((v, err), w', ks)"
  obtains sid T body k r j where "p = PRun sid T body k" "tool_free body" "branch_id p = sid" "attempts A body w = Some (r, w')"
    "marshal T (fst r) = Some j" "memo_next p (stored_run T r j) = Some (PReturn v err)" "ks = [(sid, pos sid)]"
proof -
  from assms(1) obtain sid T body k where p: "p = PRun sid T body k" "tool_free body" "\<And>r. \<exists>v err. k r = PReturn v err" "branch_id p = sid"
    by (rule branchE) blast
  from assms(2) p(1) obtain r r' where r: "attempts A body w = Some (r, w')" "seen T r = Some r'" "k r' = PReturn v err" "ks = [(sid, pos sid)]"
    using p(3) by (auto split: option.splits) (metis (no_types, lifting) direct.simps(1) option.inject prod.inject)
  from run_memo_stored [OF r(2)] obtain j where "marshal T (fst r) = Some j" "answer (fst (run_memo T sid (stored_run T r j) idle)) = Some r'" by blast
  with p(1) r(3) have "memo_next p (stored_run T r j) = Some (PReturn v err)" by simp
  with p r \<open>marshal T (fst r) = Some j\<close> show ?thesis by (intro that)
qed

lemma group_memo_append:
  "group_memo steps ps pos = Some (rs, pos1) \<Longrightarrow> group_memo steps qs pos1 = Some (rs', pos2) \<Longrightarrow>
     group_memo steps (ps @ qs) pos = Some (rs @ rs', pos2)"
proof (induction ps arbitrary: pos rs)
  case (Cons p ps)
  then show ?case unfolding append_Cons group_memo_Cons by (metis append_Cons)
qed simp

text \<open>The service runs the planned members of a group in their order; then the whole group is stored.\<close>

lemma run_members:
  assumes "reach (rq_Steps req) p0 (PParallel (before @ ps) k) pos" "group_memo (rq_Steps req) before pos = Some (rs, pos1)"
    "\<forall>p \<in> set ps. branch p" "run_group (map (\<lambda>p. direct p A env) ps) pos1 w = Some (rs', w', ks, pos2)" "unstored ks req"
  shows "\<exists>steps. run_planned A env d stack p0 (map key_hash ks) req w = Some (req\<lparr>rq_Steps := steps\<rparr>, w') \<and>
    group_memo steps (before @ ps) pos = Some (rs @ rs', pos2) \<and> rq_Steps req \<subseteq>\<^sub>m steps \<and>
    dom steps = dom (rq_Steps req) \<union> key_hash ` set ks \<and> ks = keys_from pos1 (map branch_id ps)"
  using assms
proof (induction ps arbitrary: before rs pos1 req w ks rs')
  case Nil
  then show ?case by (intro exI [of _ "rq_Steps req"]) auto
next
  case (Cons p ps)
  from Cons.prems(4) obtain v err w1 ks1 rs1 ks2 where p1: "direct p A env pos1 w = Some ((v, err), w1, ks1)"
    and rest: "run_group (map (\<lambda>p. direct p A env) ps) (used ks1 pos1) w1 = Some (rs1, w', ks2, pos2)"
    and rs': "rs' = \<lparr>rs_Err = err, rs_Value = v\<rparr> # rs1" and ks: "ks = ks1 @ ks2" by (auto split: option.splits)
  from Cons.prems(3) p1 obtain sid T body k1 r j where p: "p = PRun sid T body k1" "tool_free body" "branch_id p = sid"
    and r: "attempts A body w = Some (r, w1)" "marshal T (fst r) = Some j" and m: "memo_next p (stored_run T r j) = Some (PReturn v err)"
    and ks1: "ks1 = [(sid, pos1 sid)]" by (auto elim: direct_branchE)
  let ?h = "key_hash (sid, pos1 sid)" and ?res = "\<lparr>rs_Err = err, rs_Value = v\<rparr>"
  let ?req = "store ?h (stored_run T r j) req"
  from unstored_Cons [of "(sid, pos1 sid)" ks2 req "stored_run T r j"] Cons.prems(5) ks ks1
  have new: "rq_Steps req ?h = None" and us: "unstored ks2 ?req" by auto
  have after: "\<forall>p \<in> set ps. branch p" using Cons.prems(3) by simp
  have ex: "exec_planned A A env d stack p0 req ?h 0 w = Some (?req, w1)"
    using exec_planned_attempts [OF member_executes [OF Cons.prems(1) [unfolded p(1)] p(2) Cons.prems(2) new after] r(2) r(1)] by simp
  have ext: "rq_Steps req \<subseteq>\<^sub>m rq_Steps ?req" using store_extends [OF new] by simp
  have used: "used ks1 pos1 = pos1(sid := Suc (pos1 sid))" by (simp add: used_def ks1)
  have "group_memo (rq_Steps ?req) [p] pos1 = Some ([?res], used ks1 pos1)"
    unfolding group_memo_Cons using p(1) m by (auto simp: used returns_def)
  from group_memo_append [OF group_memo_mono [OF Cons.prems(2) ext] this]
  have gm: "group_memo (rq_Steps ?req) (before @ [p]) pos = Some (rs @ [?res], used ks1 pos1)" .
  have re: "reach (rq_Steps ?req) p0 (PParallel ((before @ [p]) @ ps) k) pos" using reach_mono [OF Cons.prems(1) ext] by simp
  from Cons.IH [OF re gm after rest us] obtain steps where st: "run_planned A env d stack p0 (map key_hash ks2) ?req w1 = Some (?req\<lparr>rq_Steps := steps\<rparr>, w')"
    "group_memo steps ((before @ [p]) @ ps) pos = Some ((rs @ [?res]) @ rs1, pos2)" "rq_Steps ?req \<subseteq>\<^sub>m steps"
    "dom steps = dom (rq_Steps ?req) \<union> key_hash ` set ks2" "ks2 = keys_from (used ks1 pos1) (map branch_id ps)" by blast
  show ?case
  proof (intro exI conjI)
    show "run_planned A env d stack p0 (map key_hash ks) req w = Some (req\<lparr>rq_Steps := steps\<rparr>, w')"
      using st(1) by (simp add: ks ks1 ex)
    show "group_memo steps (before @ p # ps) pos = Some (rs @ rs', pos2)" using st(2) by (simp add: rs')
    show "rq_Steps req \<subseteq>\<^sub>m steps" using ext st(3) by (rule map_le_trans)
    show "dom steps = dom (rq_Steps req) \<union> key_hash ` set ks" using st(4) by (auto simp: ks ks1)
    show "ks = keys_from pos1 (map branch_id (p # ps))" using st(5) [unfolded used] by (simp add: ks ks1 p(3))
  qed
qed

section \<open>The induction\<close>

text \<open>The four tools that only wait for the service share one induction step.\<close>

lemma drive_tool_step:
  assumes re: "reach (rq_Steps req) p0 p pos" and p: "durable p" "head_id p = Some sid" "is_tool p"
    and dir: "map_option (\<lambda>(a, w', ks). (a, w', (sid, pos sid) # ks)) (direct p' A env (pos(sid := Suc (pos sid))) w) = Some (a, w', ks)"
    and us: "unstored ks req" and nxt: "memo_next p (stored_tool p (env (key_hash (sid, pos sid)))) = Some p'"
    and IH: "\<And>req ks. reach (rq_Steps req) p0 p' (pos(sid := Suc (pos sid))) \<Longrightarrow>
      direct p' A env (pos(sid := Suc (pos sid))) w = Some (a, w', ks) \<Longrightarrow> unstored ks req \<Longrightarrow>
      \<exists>n. drive n A env d stack p0 req 0 w = Some (a, w')"
  shows "\<exists>n. drive n A env d stack p0 req 0 w = Some (a, w')"
proof -
  from dir obtain ks' where ks: "ks = (sid, pos sid) # ks'" "direct p' A env (pos(sid := Suc (pos sid))) w = Some (a, w', ks')" by auto
  let ?val = "stored_tool p (env (key_hash (sid, pos sid)))"
  from unstored_Cons [of "(sid, pos sid)" ks' req ?val] us ks(1)
  have new: "rq_Steps req (key_hash (sid, pos sid)) = None"
    and us': "unstored ks' (store (key_hash (sid, pos sid)) ?val req)" by auto
  from IH [OF reach_next [OF re p(2) new nxt] ks(2) us'] obtain n where
    "drive n A env d stack p0 (store (key_hash (sid, pos sid)) ?val req) 0 w = Some (a, w')" by auto
  from drive_tool [OF re p new this] show ?thesis .
qed

text \<open>A step outside a group, run at once or, when the request disables immediate execution, planned first.\<close>

lemma drive_run_step:
  assumes re: "reach (rq_Steps req) p0 (PRun sid T body k) pos" and tf: "tool_free body" and r: "attempts A body w = Some (r, w1)"
    and j: "marshal T (fst r) = Some j" and new: "rq_Steps req (key_hash (sid, pos sid)) = None"
    and go_on: "drive n A env d stack p0 (store (key_hash (sid, pos sid)) (stored_run T r j) req) 0 w1 = Some x"
  shows "\<exists>m. drive m A env d stack p0 req 0 w = Some x"
proof (cases "DisableImmediateExecution (rq_CallCtx req)")
  case False
  then have "executes d stack p0 req None T (key_hash (sid, pos sid)) sid body" by (intro run_executes [OF re tf new]) simp
  from drive_attempts [OF this j go_on r] show ?thesis by simp
next
  case True
  have ex: "executes d stack p0 req (Some (key_hash (sid, pos sid))) T (key_hash (sid, pos sid)) sid body"
    by (intro run_executes [OF re tf new]) simp
  have run: "run_planned A env d stack p0 (map key_hash [(sid, pos sid)]) req w =
      Some (store (key_hash (sid, pos sid)) (stored_run T r j) req, w1)"
    using exec_planned_attempts [OF ex j r, of 0 A env] by simp
  have "\<exists>s' ops. interp (PRun sid T body k) d plain s = (Hijacked, s') \<and> m_ops (st_mgr s') = ops \<and> st_world s' = w \<and>
      ops = map plan_op [(sid, pos sid)]" if "clean req pos w s" for s
    using run_plans [OF clean_live [OF that] _ _ new, of plain T body k d] that True by (auto simp: plans_def clean_def live_def)
  from call_pending [where stack = stack, OF re fn_ctx_simps(1) this] show ?thesis
    by (intro drive_planned [OF _ _ _ _ run go_on]) auto
qed

lemma drive_group_step:
  assumes re: "reach (rq_Steps req) p0 (PParallel ps k) pos" and ps: "\<forall>p \<in> set ps. branch p"
    and dir: "run_group (map (\<lambda>p. direct p A env) ps) pos w = Some (rs, w1, ks, pos')" and us: "unstored (ks @ ks') req"
    and go_on: "\<And>req'. reach (rq_Steps req') p0 (k rs) pos' \<Longrightarrow> unstored ks' req' \<Longrightarrow> \<exists>n. drive n A env d stack p0 req' 0 w1 = Some x"
  shows "\<exists>m. drive m A env d stack p0 req 0 w = Some x"
proof -
  have "unstored ks req" using us by auto
  with run_members [of req p0 "[]" ps k pos "[]" pos A env w rs w1 ks pos' d stack] re ps dir obtain steps where
    st: "run_planned A env d stack p0 (map key_hash ks) req w = Some (req\<lparr>rq_Steps := steps\<rparr>, w1)" "group_memo steps ps pos = Some (rs, pos')"
      "rq_Steps req \<subseteq>\<^sub>m steps" "dom steps = dom (rq_Steps req) \<union> key_hash ` set ks" "ks = keys_from pos (map branch_id ps)" by auto
  let ?req = "req\<lparr>rq_Steps := steps\<rparr>"
  have "reach (rq_Steps ?req) p0 (PParallel ps k) pos" using reach_mono [OF re st(3)] by simp
  then have "reach (rq_Steps ?req) p0 (k rs) pos'" by (rule reach.group) (use st(2) in simp)
  moreover have "unstored ks' ?req" using us st(4) by auto
  ultimately obtain n where n: "drive n A env d stack p0 ?req 0 w1 = Some x" using go_on by blast
  show ?thesis
  proof (cases "ps = []")
    case True
    with st(1,2,5) dir n have "drive n A env d stack p0 req 0 w = Some x" using go_on re us by auto
    then show ?thesis ..
  next
    case False
    have keys: "\<forall>k \<in> set (keys_from pos (map branch_id ps)). rq_Steps req (key_hash k) = None" using us st(5) by auto
    have "\<exists>s' ops. interp (PParallel ps k) d plain s = (Hijacked, s') \<and> m_ops (st_mgr s') = ops \<and> st_world s' = w \<and> ops = map plan_op ks"
      if "clean req pos w s" for s using group_plans [OF that ps False keys, of k d] st(5) by blast
    from call_pending [where stack = stack, OF re fn_ctx_simps(1) this] False st(5) show ?thesis
      by (intro drive_planned [OF _ _ _ _ st(1) n]) (auto simp: neq_Nil_conv)
  qed
qed

lemma drive_direct:
  assumes "reach (rq_Steps req) p0 p pos" "durable p" "direct p A env pos w = Some (a, w', ks)" "unstored ks req"
  shows "\<exists>n. drive n A env d stack p0 req 0 w = Some (a, w')"
  using assms
proof (induction p arbitrary: req pos w ks)
  case (PReturn v err)
  then have "drive (Suc 0) A env d stack p0 req 0 w = Some (a, w')" by (simp add: call_done)
  then show ?case ..
next
  case (PRun sid T body k)
  from PRun.prems(3) obtain r w1 r' ks' where r: "attempts A body w = Some (r, w1)" "seen T r = Some r'"
    and ks: "ks = (sid, pos sid) # ks'" and rest: "direct (k r') A env (pos(sid := Suc (pos sid))) w1 = Some (a, w', ks')"
    by (auto split: option.splits)
  from run_memo_stored [OF r(2)] obtain j where j: "marshal T (fst r) = Some j"
    "answer (fst (run_memo T sid (stored_run T r j) idle)) = Some r'" by blast
  let ?req = "store (key_hash (sid, pos sid)) (stored_run T r j) req"
  from PRun.prems(4) ks have new: "rq_Steps req (key_hash (sid, pos sid)) = None" and us: "unstored ks' ?req" by auto
  have "reach (rq_Steps ?req) p0 (k r') (pos(sid := Suc (pos sid)))"
    using reach_next [OF PRun.prems(1) _ new, of "stored_run T r j" "k r'"] j by simp
  moreover have "durable (k r')" "tool_free body" using PRun.prems(2) by (cases r', simp)+
  ultimately obtain n where "drive n A env d stack p0 ?req 0 w1 = Some (a, w')" using PRun.IH(2) [OF _ _ _ rest us] by blast
  from drive_run_step [OF PRun.prems(1) \<open>tool_free body\<close> r(1) j(1) new this] show ?case .
next
  case (PSleep sid dur k)
  have "durable k" using PSleep.prems(2) by simp
  then show ?case
    by (intro drive_tool_step [OF PSleep.prems(1,2) _ _ _ PSleep.prems(4)] PSleep.IH) (use PSleep.prems in \<open>auto simp: stored_tool_def is_tool_def simp del: fun_upd_apply\<close>)
next
  case (PWait T sid opts k)
  from PWait.prems(3) obtain v e where r: "wait_memo T (env (key_hash (sid, pos sid))) = Some (v, e)" by (auto split: option.splits)
  have "durable (k (v, e))" using PWait.prems(2) by simp
  then show ?case
    by (intro drive_tool_step [OF PWait.prems(1,2) _ _ _ PWait.prems(4)] PWait.IH [OF rangeI]) (use PWait.prems r in \<open>auto simp: stored_tool_def is_tool_def simp del: fun_upd_apply\<close>)
next
  case (PInvoke T sid opts k)
  from PInvoke.prems(3) obtain v e where r: "answer (fst (invoke_memo T opts (env (key_hash (sid, pos sid))) idle)) = Some (v, e)" by (auto split: option.splits)
  have "durable (k (v, e))" using PInvoke.prems(2) by simp
  then show ?case
    by (intro drive_tool_step [OF PInvoke.prems(1,2) _ _ _ PInvoke.prems(4)] PInvoke.IH [OF rangeI]) (use PInvoke.prems r in \<open>auto simp: stored_tool_def is_tool_def simp del: fun_upd_apply\<close>)
next
  case (PInfer T sid opts body k)
  from PInfer.prems(3) obtain v e where r: "answer (fst (infer_memo T sid (env (key_hash (sid, pos sid))) idle)) = Some (v, e)" by (auto split: option.splits)
  have "durable (k (v, e))" using PInfer.prems(2) by simp
  then show ?case
    by (intro drive_tool_step [OF PInfer.prems(1,2) _ _ _ PInfer.prems(4)] PInfer.IH [OF rangeI]) (use PInfer.prems r in \<open>auto simp: stored_tool_def is_tool_def simp del: fun_upd_apply\<close>)
next
  case (PParallel ps k)
  have eq: "map (\<lambda>f. f A env) (map direct ps) = map (\<lambda>p. direct p A env) ps" by simp
  from PParallel.prems(3) obtain rs w1 ks1 pos' ks2 where g: "run_group (map (\<lambda>p. direct p A env) ps) pos w = Some (rs, w1, ks1, pos')"
    and rest: "direct (k rs) A env pos' w1 = Some (a, w', ks2)" and ks: "ks = ks1 @ ks2"
    unfolding direct.simps eq by (auto split: option.splits)
  have ps: "\<forall>p \<in> set ps. branch p" and "durable (k rs)" using PParallel.prems(2) by simp_all
  with PParallel.IH(2) [OF _ _ _ rest] show ?case
    by (intro drive_group_step [OF PParallel.prems(1) ps g PParallel.prems(4) [unfolded ks]]) blast
qed auto

section \<open>Properties\<close>

text \<open>C1: Durable execution refines direct execution. Let a function have all its effects in step bodies, groups of steps included, and let the keys
  of the steps it reaches have different hashes. If running it once from start to end, every step attempted until it
  succeeds or \<open>A\<close> attempts failed and the members of a group in their order, ends with a result and a world, then a finite number of
  invocations of the SDK, with the service storing step results in between and calling for planned steps, ends with the same
  result and the same world: no step body runs more often than its attempts, none is skipped, and they run in order. This holds whether
  or not the service asks for every step to be planned before it is executed.\<close>

theorem durable_execution:
  assumes "durable p" "rq_Steps req = Map.empty" "direct p A env (\<lambda>_. 0) w = Some (a, w', ks)" "distinct (map key_hash ks)"
  shows "\<exists>n. drive n A env d stack p req 0 w = Some (a, w')"
  using assms by (intro drive_direct [where ks = ks, OF reach.start]) auto

text \<open>A group with one counting step, planned and then executed; its result is doubled.\<close>

definition count_group :: "(int, int) prog" where
  "count_group = PParallel [PRun ''count'' int_type count_body (\<lambda>(v, err). PReturn v err)] (\<lambda>rs. PReturn (2 * sum_list (map rs_Value rs)) None)"

theorem durable_execution_witness:
  "\<exists>n. drive n 3 (\<lambda>_. JNull) (\<lambda>_. []) [] count_group count_request 0 41 = Some ((84, None), 42)"
proof (rule durable_execution [where ks = "[(''count'', 0)]"])
  have "Atoi (Itoa 42) = Some 42" by code_simp
  then show "direct count_group 3 (\<lambda>_. JNull) (\<lambda>_. 0) 41 = Some ((84, None), 42, [(''count'', 0)])"
    by (simp add: count_group_def count_body_def seen_def int_type_def unmarshal_def numeral_3_eq_3 used_def)
qed (auto simp: count_group_def count_body_def count_request_def zero_Request_def branch_def returns_def)

end
