(* ===== verification/StepGroups.thy ===== *)
theory StepGroups
  imports Durable
begin

text \<open>
  Properties of single tools and of groups (\<open>experimental/group/group.go\<close>): replaying a stored step, planning and
  joining a group, and the round trip of a failed step through the service.
\<close>

section \<open>Stored steps\<close>

text \<open>A step with a stored result is replayed without its body: what \<open>Run\<close> returns and the state it leaves do not depend on the
  body, and the world is unchanged.\<close>

theorem Run_replays:
  assumes "Step (st_mgr s) (fst (NewOp OpcodeStep sid None (st_mgr s))) \<noteq> None"
  shows "Run T sid f cx s = Run T sid g cx s \<and> st_world (snd (Run T sid f cx s)) = st_world s"
  using assms
  by (auto simp: Run_def preflight_def with_op_def split_beta Let_def run_memo_def fail_with_def split: option.splits)

theorem Run_replays_witness:
  "st_world (snd (Run int_type ''count'' (interp count_body (\<lambda>_. [])) plain
     (call_state (zero_Request\<lparr>rq_Steps := \<lambda>_. Some (JObj [(''data'', JNum ''7'')])\<rparr>) 0))) = 0"
  by (subst Run_replays [THEN conjunct2]) (simp_all add: Step_def)

text \<open>C10: A failed step round-trips through the service. When a step that is executed returns \<open>(v, err)\<close>, where \<open>err\<close> has a text and is not itself a step error and \<open>v\<close> survives JSON, then
  the call reports one more opcode, under the step's key, and stops. Once the service has stored what that opcode carries, after the last attempt, every later call that comes to the same step
  gets \<open>v\<close> back, together with a \<open>StepError\<close> that carries the text of \<open>err\<close>, without running the body and without touching the world.\<close>

theorem step_error_roundtrip:
  assumes "hasManager cx" "\<not> st_cancelled s" "NewOp OpcodeStep sid None (st_mgr s) = (u, m0)"
    and "runs_now cx s (MustHash u)" "Step (st_mgr s) u = None"
    and "f cx (s\<lparr>st_mgr := m0\<rparr>) = (Returned (v, Some err), s1)" "\<not> IsStepError (Some err)" "Error err = Some m"
    and "marshal T v = Some j" "unmarshal T j = Some v" "\<not> Suc att < A"
  shows "\<exists>op val s2. (Run T sid f cx s :: ('v \<times> goerr option) outcome \<times> 'w st) = (Hijacked, s2) \<and> m_ops (st_mgr s2) = m_ops (st_mgr s1) @ [op] \<and>
    op_ID op = MustHash u \<and> settle A env att op = Store val \<and>
    (\<forall>cx' t m1 g. hasManager cx' \<and> \<not> st_cancelled t \<and> NewOp OpcodeStep sid None (st_mgr t) = (u, m1) \<and> rq_Steps (m_request (st_mgr t)) (MustHash u) = Some val \<longrightarrow>
       (Run T sid g cx' t :: ('v \<times> goerr option) outcome \<times> 'w st) =
         (Returned (v, Some (StepErr \<lparr>se_Name = ''Step failed'', se_Message = m, se_Data = Some j\<rparr>)), t\<lparr>st_mgr := m1\<rparr>))"
proof -
  let ?op = "err_op (MustHash u) sid m (Some j)" and ?val = "stored_run T (v, Some m) j"
  have req: "m_request m' = m_request (st_mgr t)" if "NewOp OpcodeStep sid None (st_mgr t) = (u, m')" for m' and t :: "'w st"
    using that by (auto simp: NewOp_def Let_def)
  have memo: "run_memo T sid ?val t = (Returned (v, Some (StepErr \<lparr>se_Name = ''Step failed'', se_Message = m, se_Data = Some j\<rparr>)), t)" for t :: "'w st"
    using assms(10) by (simp add: stored_run_def run_memo_def Unmarshal_response_def raw_field_def members_def Unmarshal_StepError_def string_field_def is_string_or_null_def)
  have first: "\<exists>s2. (Run T sid f cx s :: ('v \<times> goerr option) outcome \<times> 'w st) = (Hijacked, s2) \<and> m_ops (st_mgr s2) = m_ops (st_mgr s1) @ [?op]"
    using assms req [OF assms(3)]
    by (auto simp: Run_def preflight_def with_op_def Step_def runs_now_def run_body_def run_failed_def fail_with_def cancel_def err_op_def getTargetStepID_def isParallel_def Let_def)
  have later: "(Run T sid g cx' t :: ('v \<times> goerr option) outcome \<times> 'w st) =
      (Returned (v, Some (StepErr \<lparr>se_Name = ''Step failed'', se_Message = m, se_Data = Some j\<rparr>)), t\<lparr>st_mgr := m1\<rparr>)"
    if "hasManager cx'" "\<not> st_cancelled t" "NewOp OpcodeStep sid None (st_mgr t) = (u, m1)" "rq_Steps (m_request (st_mgr t)) (MustHash u) = Some ?val" for cx' t m1 g
    using that memo req [OF that(3)] by (simp add: Run_def preflight_def with_op_def Step_def)
  have "op_ID ?op = MustHash u" "settle A env att ?op = Store ?val" using settle_run(2) [OF assms(11)] by (simp_all add: err_op_def run_op_def)
  with first later show ?thesis by blast
qed

definition failing_body :: "ctx \<Rightarrow> (int, int \<times> goerr option) M" where
  "failing_body cx s = (Returned (5, Some (Errorf ''boom'' [])), s\<lparr>st_world := st_world s + 1\<rparr>)"

theorem step_error_roundtrip_witness:
  "\<exists>op val s2. Run int_type ''count'' failing_body plain (call_state zero_Request 0) = (Hijacked, s2) \<and> m_ops (st_mgr s2) = [op] \<and> settle 1 (\<lambda>_. JNull) 0 op = Store val \<and>
     fst (Run int_type ''count'' failing_body plain (call_state (zero_Request\<lparr>rq_Steps := \<lambda>_. Some val\<rparr>) 1)) =
       Returned (5, Some (StepErr \<lparr>se_Name = ''Step failed'', se_Message = ''boom'', se_Data = Some (JNum (Itoa 5))\<rparr>))"
proof -
  let ?s = "call_state zero_Request (0 :: int)" and ?u = "\<lparr>uo_Op = OpcodeStep, uo_ID = ''count'', uo_Name = [], uo_Opts = None, uo_Pos = 0\<rparr>"
  let ?m0 = "\<lambda>r. (NewManager r)\<lparr>m_indexes := [''count'' \<mapsto> 0]\<rparr>"
  have op: "NewOp OpcodeStep ''count'' None (NewManager r) = (?u, ?m0 r)" for r by (simp add: NewOp_def)
  have "Atoi (Itoa 5) = Some 5" by code_simp
  then have T: "marshal int_type 5 = Some (JNum (Itoa 5))" "unmarshal int_type (JNum (Itoa 5)) = Some 5" by (simp_all add: int_type_def unmarshal_def)
  have body: "failing_body plain (?s\<lparr>st_mgr := ?m0 zero_Request\<rparr>) = (Returned (5, Some (Errorf ''boom'' [])), (?s\<lparr>st_mgr := ?m0 zero_Request\<rparr>)\<lparr>st_world := 1\<rparr>)"
    by (simp add: failing_body_def)
  have err: "\<not> IsStepError (Some (Errorf ''boom'' []))" "Error (Errorf ''boom'' []) = Some ''boom''" by (simp_all add: err_simps)
  have now: "runs_now plain ?s (MustHash ?u)" "Step (st_mgr ?s) ?u = None" by (simp_all add: runs_now_def Step_def zero_Request_def zero_CallCtx_def)
  have "\<exists>op val s2. Run int_type ''count'' failing_body plain ?s = (Hijacked, s2) \<and> m_ops (st_mgr s2) = [] @ [op] \<and> op_ID op = MustHash ?u \<and> settle 1 (\<lambda>_. JNull) 0 op = Store val \<and>
      (\<forall>cx' t m1 g. hasManager cx' \<and> \<not> st_cancelled t \<and> NewOp OpcodeStep ''count'' None (st_mgr t) = (?u, m1) \<and> rq_Steps (m_request (st_mgr t)) (MustHash ?u) = Some val \<longrightarrow>
         (Run int_type ''count'' g cx' t :: (int \<times> goerr option) outcome \<times> int st) =
           (Returned (5, Some (StepErr \<lparr>se_Name = ''Step failed'', se_Message = ''boom'', se_Data = Some (JNum (Itoa 5))\<rparr>)), t\<lparr>st_mgr := m1\<rparr>))"
    using step_error_roundtrip [where cx = plain and s = ?s and sid = "''count''" and u = ?u and f = failing_body and T = int_type and env = "\<lambda>_. JNull" and att = 0 and A = 1,
        OF _ _ _ now body err T] op by simp
  then show ?thesis using op by fastforce
qed

text \<open>A stored error without data is not delivered to the function: \<open>Run\<close> cannot decode the missing data, records an
  unmarshalling error and stops the function, and this also happens for a stored \<open>"error": null\<close>.\<close>

theorem step_error_without_data:
  "run_memo T sid (JObj [(''error'', JObj [(''name'', JStr n), (''message'', JStr m)])]) s =
     fail_with (wrapf (step_text ''error unmarshalling state for'' sid) json_error) s \<and>
   run_memo T sid (JObj [(''data'', d), (''error'', JNull)]) s =
     fail_with (wrapf (step_text ''error unmarshalling state for'' sid) json_error) s"
  by (simp add: run_memo_def Unmarshal_response_def raw_field_def members_def Unmarshal_StepError_def string_field_def
      is_string_or_null_def)

section \<open>Groups\<close>

text \<open>The opcodes that plan a list of steps whose IDs were used \<open>pos\<close> times before.\<close>

definition planned_ops :: "(string \<Rightarrow> nat) \<Rightarrow> string list \<Rightarrow> GeneratorOpcode list" where
  "planned_ops pos sids = map plan_op (keys_from pos sids)"

lemma planned_ops_simps [simp]:
  "planned_ops pos [] = []"
  "planned_ops pos (sid # sids) = run_op OpcodeStepPlanned (key_hash (sid, pos sid)) sid # planned_ops (pos(sid := Suc (pos sid))) sids"
  by (simp_all add: planned_ops_def plan_op_def)

definition ready :: "ctx \<Rightarrow> 'w st \<Rightarrow> bool" where
  "ready cx s \<longleftrightarrow> hasManager cx \<and> targetStepID cx = None \<and> \<not> st_cancelled s"

lemma Run_plans:
  assumes "ready cx s" "ParallelKey cx" "Step (st_mgr s) (fst (NewOp OpcodeStep sid None (st_mgr s))) = None"
  shows "Run T sid f cx s = (Hijacked, s\<lparr>st_mgr := AppendOp (run_op OpcodeStepPlanned (key_hash (sid, next_pos (st_mgr s) sid)) sid)
    (snd (NewOp OpcodeStep sid None (st_mgr s)))\<rparr>)"
  using assms
  by (simp add: Run_def preflight_def with_op_def ready_def split_beta getTargetStepID_def isParallel_def report_op_def
      MustHash_key NewOp_fst)

lemma plan_loop:
  assumes "ready cx s" "ParallelKey cx" "rq_Steps (m_request (st_mgr s)) = Map.empty"
  shows "\<exists>s'. parallel_loop (map (\<lambda>(sid, T, f). Run T sid f cx) xs) g s =
      (g\<lparr>g_isPlanned := g_isPlanned g \<or> xs \<noteq> []\<rparr>, s') \<and> st_world s' = st_world s \<and> st_cancelled s' = st_cancelled s \<and>
    m_ops (st_mgr s') = m_ops (st_mgr s) @ planned_ops (next_pos (st_mgr s)) (map fst xs)"
  using assms
proof (induction xs arbitrary: g s)
  case (Cons x xs)
  obtain sid T f where x: "x = (sid, T, f)" by (cases x)
  let ?s = "s\<lparr>st_mgr := AppendOp (run_op OpcodeStepPlanned (key_hash (sid, next_pos (st_mgr s) sid)) sid)
    (snd (NewOp OpcodeStep sid None (st_mgr s)))\<rparr>"
  have run: "Run T sid f cx s = (Hijacked, ?s)"
    using Cons.prems by (intro Run_plans) (simp_all add: Step_def)
  from Cons.IH [of ?s "group_add Hijacked g"] Cons.prems obtain s' where
    "parallel_loop (map (\<lambda>(sid, T, f). Run T sid f cx) xs) (group_add Hijacked g) ?s =
       ((group_add Hijacked g)\<lparr>g_isPlanned := True\<rparr>, s')" "st_world s' = st_world s" "st_cancelled s' = st_cancelled s"
    "m_ops (st_mgr s') = m_ops (st_mgr ?s) @ planned_ops (next_pos (st_mgr ?s)) (map fst xs)"
    by (auto simp: ready_def group_add_def)
  then show ?case by (auto simp: x run next_pos_NewOp group_add_def)
qed simp

text \<open>C9: A group that the request does not target is planned, not executed: with nothing stored, \<open>Parallel\<close> over steps reports one
  \<open>StepPlanned\<close> opcode per step, in order and with the step's own numbered key, runs no body, leaves the context open and
  stops the function.\<close>

theorem Parallel_plans_all:
  assumes "ready cx s" "rq_Steps (m_request (st_mgr s)) = Map.empty" "xs \<noteq> []"
  shows "\<exists>s'. Parallel (map (\<lambda>(sid, T, f). Run T sid f) xs) cx s = (Hijacked, s') \<and>
    m_ops (st_mgr s') = m_ops (st_mgr s) @ planned_ops (next_pos (st_mgr s)) (map fst xs) \<and>
    st_world s' = st_world s \<and> \<not> st_cancelled s'"
proof -
  have eq: "map (\<lambda>fn. fn (cx\<lparr>ParallelKey := True\<rparr>)) (map (\<lambda>(sid, T, f). Run T sid f) xs)
      = map (\<lambda>(sid, T, f). Run T sid f (cx\<lparr>ParallelKey := True\<rparr>)) xs" by auto
  from plan_loop [of "cx\<lparr>ParallelKey := True\<rparr>" s xs "\<lparr>g_results = [], g_isPlanned = False, g_unexpectedPanic = None\<rparr>"] assms
  show ?thesis unfolding Parallel_def eq by (auto simp: ready_def group_end_def)
qed

theorem Parallel_plans_all_witness:
  "\<exists>s'. Parallel (map (\<lambda>(sid, T, f). Run T sid f) [(''a'', int_type, interp count_body (\<lambda>_. [])), (''a'', int_type, interp count_body (\<lambda>_. []))])
       plain (call_state zero_Request 0) = (Hijacked, s') \<and>
     map op_Op (m_ops (st_mgr s')) = [OpcodeStepPlanned, OpcodeStepPlanned] \<and> st_world s' = 0"
  using Parallel_plans_all [of plain "call_state zero_Request 0"
    "[(''a'', int_type, interp count_body (\<lambda>_. [])), (''a'', int_type, interp count_body (\<lambda>_. []))]"]
  by (auto simp: ready_def zero_Request_def run_op_def)

lemma loop_returns:
  "(\<forall>(f, v, e) \<in> set xs. \<forall>s. \<exists>s'. f s = (Returned (v, e), s')) \<Longrightarrow>
   \<exists>s'. parallel_loop (map fst xs) g s = (g\<lparr>g_results := g_results g @ map (\<lambda>(f, v, e). \<lparr>rs_Err = e, rs_Value = v\<rparr>) xs\<rparr>, s')"
proof (induction xs arbitrary: g s)
  case (Cons x xs)
  obtain f v e where x: "x = (f, v, e)" by (cases x)
  with Cons.prems obtain s1 where "f s = (Returned (v, e), s1)" by fastforce
  moreover from Cons obtain s' where "parallel_loop (map fst xs) (group_add (Returned (v, e)) g) s1 =
    ((group_add (Returned (v, e)) g)\<lparr>g_results := g_results (group_add (Returned (v, e)) g) @
       map (\<lambda>(f, v, e). \<lparr>rs_Err = e, rs_Value = v\<rparr>) xs\<rparr>, s')" by fastforce
  ultimately show ?case by (simp add: x group_add_def)
qed simp

text \<open>A group whose members all return, for instance because all their steps are stored, returns one result per
  member, in the order of the members, each with its member's value and error.\<close>

theorem Parallel_results_in_order:
  assumes "\<forall>(f, v, e) \<in> set xs. \<forall>s. \<exists>s'. f (cx\<lparr>ParallelKey := True\<rparr>) s = (Returned (v, e), s')"
  shows "fst (Parallel (map fst xs) cx s) = Returned (map (\<lambda>(f, v, e). \<lparr>rs_Err = e, rs_Value = v\<rparr>) xs)"
proof -
  let ?xs = "map (\<lambda>(f, v, e). (f (cx\<lparr>ParallelKey := True\<rparr>), v, e)) xs"
  have eq: "map (\<lambda>fn. fn (cx\<lparr>ParallelKey := True\<rparr>)) (map fst xs) = map fst ?xs"
    "map (\<lambda>(f, v, e). \<lparr>rs_Err = e, rs_Value = v\<rparr>) ?xs = map (\<lambda>(f, v, e). \<lparr>rs_Err = e, rs_Value = v\<rparr>) xs"
    by auto
  from assms have "\<forall>(f, v, e) \<in> set ?xs. \<forall>s. \<exists>s'. f s = (Returned (v, e), s')" by auto
  from loop_returns [OF this, of "\<lparr>g_results = [], g_isPlanned = False, g_unexpectedPanic = None\<rparr>" s]
  show ?thesis unfolding Parallel_def eq by (auto simp: group_end_def simp del: map_map)
qed

theorem Parallel_results_in_order_witness:
  "fst (Parallel [\<lambda>cx s. (Returned (1 :: int, None), s), \<lambda>cx s. (Returned (2, Some (Sentinel ErrEventNotReceived)), s)] plain
     (call_state zero_Request (0 :: int))) =
   Returned [\<lparr>rs_Err = None, rs_Value = 1\<rparr>, \<lparr>rs_Err = Some (Sentinel ErrEventNotReceived), rs_Value = 2\<rparr>]"
  using Parallel_results_in_order [of "[(\<lambda>cx s. (Returned (1, None), s), 1, None),
      (\<lambda>cx s. (Returned (2, Some (Sentinel ErrEventNotReceived)), s), 2, Some (Sentinel ErrEventNotReceived))]" plain
      "call_state zero_Request 0"] by simp

end
