(* ===== verification/Signature.thy ===== *)
theory Signature
  imports Errors Env GoCrypto
begin

text \<open>
  Request and response signatures: \<open>signature.go\<close>. The canonicalisation \<open>jcs.Transform\<close> is
  third-party code and a parameter \<open>jcs\<close> of the definitions that call it (\<open>None\<close>: it returned an
  error, and with it a nil body). Go's \<open>Sign\<close> and \<open>signWithoutJCS\<close> always return a nil error, so the
  model returns the text alone. \<open>now\<close> is the reading of \<open>time.Now()\<close>.

  The contract both validators implement is the locale \<open>signature_scheme\<close>: a text is accepted if
  and only if it is the text the signer writes for some timestamp that is not older than five
  minutes. It is interpreted on the request scheme and on the response scheme.
\<close>

section \<open>Keys\<close>

definition is_word_char :: "char \<Rightarrow> bool" where
  "is_word_char c \<longleftrightarrow> is_letter c \<or> is_digit c \<or> c = CHR ''_''"

text \<open>The match of \<open>keyRegexp\<close>, \<open>^signkey-\w+-\<close>: the prefix and what follows it.\<close>

definition keyRegexp :: "bytes \<Rightarrow> (bytes \<times> bytes) option" where
  "keyRegexp key = (case cut_prefix ''signkey-'' key of
     None \<Rightarrow> None
   | Some r \<Rightarrow>
       (let w = takeWhile is_word_char r in
        case dropWhile is_word_char r of
          c # rest \<Rightarrow> if w \<noteq> [] \<and> c = CHR ''-'' then Some (''signkey-'' @ w @ ''-'', rest) else None
        | [] \<Rightarrow> None))"

definition normalizeKey :: "bytes \<Rightarrow> bytes" where
  "normalizeKey key = (case keyRegexp key of Some (_, rest) \<Rightarrow> rest | None \<Rightarrow> key)"

definition hashEventKey :: "string \<Rightarrow> string" where
  "hashEventKey key = hex_encode (sha256 key)"

text \<open>The error is that of \<open>hex.Decode\<close>.\<close>

definition hex_error :: goerr where
  "hex_error = Errorf ''encoding/hex: invalid input'' []"

definition hashedSigningKey :: "bytes \<Rightarrow> goerr + bytes" where
  "hashedSigningKey key =
     (let prefix = (case keyRegexp key of Some (p, _) \<Rightarrow> p | None \<Rightarrow> []);
          key' = normalizeKey key
      in case hex_decode key' of
           None \<Rightarrow> Inl hex_error
         | Some dst \<Rightarrow> Inr (prefix @ hex_encode (sha256 dst)))"

section \<open>Signing\<close>

definition signatureTimeDeltaMax :: duration where
  "signatureTimeDeltaMax = 5 * Minute"

definition sig_text :: "int \<Rightarrow> string \<Rightarrow> string" where
  "sig_text ts sig = ''t='' @ Itoa ts @ ''&s='' @ sig"

definition signWithoutJCS :: "gotime \<Rightarrow> gotime \<Rightarrow> bytes \<Rightarrow> bytes \<Rightarrow> string" where
  "signWithoutJCS now at key0 body =
     (let key = normalizeKey key0;
          ts = (if IsZero at then Unix now else Unix at);
          sig = hex_encode (hmac_sha256 key (body @ Itoa ts))
      in sig_text ts sig)"

definition Sign :: "(bytes \<Rightarrow> bytes option) \<Rightarrow> gotime \<Rightarrow> gotime \<Rightarrow> bytes \<Rightarrow> bytes \<Rightarrow> string" where
  "Sign jcs now at key0 body0 =
     (let key = normalizeKey key0;
          body = (if length body0 > 0 then (case jcs body0 of Some b \<Rightarrow> b | None \<Rightarrow> []) else body0);
          ts = (if IsZero at then Unix now else Unix at);
          sig = hex_encode (hmac_sha256 key (body @ Itoa ts))
      in sig_text ts sig)"

section \<open>Validation\<close>

definition validateRequestSignature ::
  "(bytes \<Rightarrow> bytes option) \<Rightarrow> gotime \<Rightarrow> string \<Rightarrow> bytes \<Rightarrow> bytes \<Rightarrow> bool \<times> goerr option" where
  "validateRequestSignature jcs now sig key0 body =
     (let key = normalizeKey key0 in
      case ParseQuery sig of (val, err) \<Rightarrow>
        if err \<or> values_Get val ''t'' = [] \<or> values_Get val ''s'' = []
        then (False, Some (Sentinel ErrInvalidSignature))
        else (case Atoi (values_Get val ''t'') of
          None \<Rightarrow> (False, Some (Sentinel ErrInvalidTimestamp))
        | Some str \<Rightarrow>
            (let ts = time_Unix str 0 in
             if time_Sub now ts > signatureTimeDeltaMax then (False, Some (Sentinel ErrExpiredSignature))
             else if Sign jcs now ts key body \<noteq> sig then (False, Some (Sentinel ErrInvalidSignature))
             else (True, None))))"

definition ValidateRequestSignature ::
  "(bytes \<Rightarrow> bytes option) \<Rightarrow> gotime \<Rightarrow> string \<Rightarrow> string \<Rightarrow> string \<Rightarrow> bytes \<Rightarrow> bool
     \<Rightarrow> bool \<times> string \<times> goerr option" where
  "ValidateRequestSignature jcs now sig signingKey signingKeyFallback body isDev =
     (if isDev then (True, [], None)
      else case validateRequestSignature jcs now sig signingKey body of (valid, err) \<Rightarrow>
        if \<not> valid then
          (if signingKeyFallback \<noteq> [] then
             (case validateRequestSignature jcs now sig signingKeyFallback body of (valid', err') \<Rightarrow>
                (valid', if valid' then signingKeyFallback else [], err'))
           else (valid, [], err))
        else (valid, signingKey, err))"

definition trim_newline :: "bytes \<Rightarrow> bytes" where
  "trim_newline b = (if b \<noteq> [] \<and> last b = CHR 0x0A then butlast b else b)"

definition ValidateResponseSignature :: "gotime \<Rightarrow> string \<Rightarrow> bytes \<Rightarrow> bytes \<Rightarrow> bool \<times> goerr option" where
  "ValidateResponseSignature now sig key0 body0 =
     (let body = trim_newline body0; key = normalizeKey key0 in
      case ParseQuery sig of (val, err) \<Rightarrow>
        if err \<or> values_Get val ''t'' = [] \<or> values_Get val ''s'' = []
        then (False, Some (Sentinel ErrInvalidSignature))
        else (case Atoi (values_Get val ''t'') of
          None \<Rightarrow> (False, Some (Sentinel ErrInvalidTimestamp))
        | Some str \<Rightarrow>
            (let ts = time_Unix str 0 in
             if time_Sub now ts > signatureTimeDeltaMax then (False, Some (Sentinel ErrExpiredSignature))
             else if signWithoutJCS now ts key body \<noteq> sig then (False, Some (Sentinel ErrInvalidSignature))
             else (True, None))))"

section \<open>What a signature text is\<close>

text \<open>The MAC both signers put into the text, over a normalised key and a prepared body.\<close>

definition digest :: "bytes \<Rightarrow> bytes \<Rightarrow> int \<Rightarrow> string" where
  "digest key body ts = hex_encode (hmac_sha256 key (body @ Itoa ts))"

definition canonical_body :: "(bytes \<Rightarrow> bytes option) \<Rightarrow> bytes \<Rightarrow> bytes" where
  "canonical_body jcs body = (if length body > 0 then (case jcs body of Some b \<Rightarrow> b | None \<Rightarrow> []) else body)"

definition fresh :: "gotime \<Rightarrow> int \<Rightarrow> bool" where
  "fresh now ts \<longleftrightarrow> is_int64 ts \<and> time_Sub now (time_Unix ts 0) \<le> signatureTimeDeltaMax"

text \<open>A clock that has been set: later than the first minutes of year 1.\<close>

definition clock_set :: "gotime \<Rightarrow> bool" where
  "clock_set now \<longleftrightarrow> 300 < isec now \<and> 0 \<le> nsec now \<and> is_int64 (isec now)"

lemma sha256_ne [simp]: "sha256 m \<noteq> []"
  using length_sha256 [of m] by (auto simp del: length_sha256)

lemma hashedSigningKey_ne: "hashedSigningKey key = Inr hashed \<Longrightarrow> hashed \<noteq> []"
  by (auto simp: hashedSigningKey_def Let_def split: option.splits)

lemma Sign_alt:
  "Sign jcs now at key body =
     (let ts = (if IsZero at then Unix now else Unix at)
      in sig_text ts (digest (normalizeKey key) (canonical_body jcs body) ts))"
  by (simp add: Sign_def digest_def canonical_body_def)

lemma signWithoutJCS_alt:
  "signWithoutJCS now at key body =
     (let ts = (if IsZero at then Unix now else Unix at)
      in sig_text ts (digest (normalizeKey key) body ts))"
  by (simp add: signWithoutJCS_def digest_def)

lemma digest_query_safe: "list_all query_safe (digest key body ts)"
  by (simp add: digest_def hex_encode_query_safe)

lemma digest_ne [simp]: "digest key body ts \<noteq> []"
  by (simp add: digest_def)

lemma list_all_no_sep: "list_all query_safe s \<Longrightarrow> list_all no_sep s"
  by (auto simp: list_all_iff intro: query_safe_no_sep)

lemma sig_segment:
  assumes "query_safe c" and "list_all query_safe v"
  shows "parse_segment (c # CHR ''='' # v) = Some (Some ([c], v))"
    and "CHR ''&'' \<notin> set (c # CHR ''='' # v)"
proof -
  have c: "list_all query_safe [c]" using assms(1) by simp
  show "parse_segment (c # CHR ''='' # v) = Some (Some ([c], v))"
    using parse_segment_pair [OF list_all_no_sep [OF c] list_all_no_sep [OF assms(2)]
        QueryUnescape_safe [OF c] QueryUnescape_safe [OF assms(2)]] by simp
  show "CHR ''&'' \<notin> set (c # CHR ''='' # v)"
    using all_no_sep [OF list_all_no_sep [OF c], of "CHR ''&''"]
      all_no_sep [OF list_all_no_sep [OF assms(2)], of "CHR ''&''"] by auto
qed

text \<open>A signature text parses back into its timestamp and its MAC.\<close>

lemma ParseQuery_sig_text:
  assumes "list_all query_safe m"
  shows "ParseQuery (sig_text ts m) = ([(''t'', Itoa ts), (''s'', m)], False)"
proof -
  have t: "query_safe (CHR ''t'')" and s: "query_safe (CHR ''s'')" by (simp_all add: query_safe_def)
  have "ParseQuery (CHR ''s'' # CHR ''='' # m) = ([(''s'', m)], False)"
    by (rule ParseQuery_single) (use sig_segment [OF s assms] in simp_all)
  then have "ParseQuery ((CHR ''t'' # CHR ''='' # Itoa ts) @ CHR ''&'' # (CHR ''s'' # CHR ''='' # m))
      = ((''t'', Itoa ts) # [(''s'', m)], False)"
    by (intro ParseQuery_Cons) (use sig_segment [OF t Itoa_query_safe] in simp_all)
  then show ?thesis by (simp add: sig_text_def)
qed

lemma sig_text_inject:
  assumes "sig_text ts m = sig_text ts' m'" and "is_int64 ts" and "is_int64 ts'"
    and "list_all query_safe m" and "list_all query_safe m'"
  shows "ts = ts' \<and> m = m'"
proof -
  have "ParseQuery (sig_text ts m) = ParseQuery (sig_text ts' m')"
    using assms(1) by (rule arg_cong)
  then have eq: "Itoa ts = Itoa ts' \<and> m = m'"
    unfolding ParseQuery_sig_text [OF assms(4)] ParseQuery_sig_text [OF assms(5)] by simp
  then have "Atoi (Itoa ts) = Atoi (Itoa ts')" by simp
  then have "ts = ts'" unfolding Atoi_Itoa [OF assms(2)] Atoi_Itoa [OF assms(3)] by simp
  with eq show ?thesis by simp
qed

text \<open>The zero time is never fresh for a clock that is set, so the signer's special case for it
  does not arise in validation.\<close>

lemma zero_not_fresh: "clock_set now \<Longrightarrow> fresh now ts \<Longrightarrow> \<not> IsZero (time_Unix ts 0)"
  by (auto simp: clock_set_def fresh_def IsZero_def time_Sub_def saturate64_def signatureTimeDeltaMax_def
      Minute_def Second_def split: if_splits)

text \<open>Both validators have the same shape; \<open>check_sig\<close> is that shape over the signer.\<close>

definition check_sig :: "(gotime \<Rightarrow> string) \<Rightarrow> gotime \<Rightarrow> string \<Rightarrow> bool \<times> goerr option" where
  "check_sig signer now sig = (case ParseQuery sig of (val, err) \<Rightarrow>
     if err \<or> values_Get val ''t'' = [] \<or> values_Get val ''s'' = []
     then (False, Some (Sentinel ErrInvalidSignature))
     else (case Atoi (values_Get val ''t'') of
       None \<Rightarrow> (False, Some (Sentinel ErrInvalidTimestamp))
     | Some str \<Rightarrow>
         (let ts = time_Unix str 0 in
          if time_Sub now ts > signatureTimeDeltaMax then (False, Some (Sentinel ErrExpiredSignature))
          else if signer ts \<noteq> sig then (False, Some (Sentinel ErrInvalidSignature))
          else (True, None))))"

lemma validateRequestSignature_check:
  "validateRequestSignature jcs now sig key body =
     check_sig (\<lambda>ts. Sign jcs now ts (normalizeKey key) body) now sig"
  by (simp add: validateRequestSignature_def check_sig_def)

lemma ValidateResponseSignature_check:
  "ValidateResponseSignature now sig key body =
     check_sig (\<lambda>ts. signWithoutJCS now ts (normalizeKey key) (trim_newline body)) now sig"
  by (simp add: ValidateResponseSignature_def check_sig_def)

lemma check_sig_cases: "check_sig signer now sig \<in> {(True, None)} \<union>
    (\<lambda>s. (False, Some (Sentinel s))) ` {ErrInvalidSignature, ErrInvalidTimestamp, ErrExpiredSignature}"
  by (auto simp: check_sig_def Let_def split: prod.splits option.splits)

lemma check_sig_True: "fst (check_sig signer now sig) \<Longrightarrow> check_sig signer now sig = (True, None)"
  using check_sig_cases [of signer now sig] by auto

lemma check_sig_False: "\<not> fst (check_sig signer now sig) \<Longrightarrow> \<exists>s. check_sig signer now sig = (False, Some (Sentinel s))"
  using check_sig_cases [of signer now sig] by auto

lemma Atoi_int64: "Atoi s = Some v \<Longrightarrow> is_int64 v"
  by (auto simp: Atoi_def Let_def split: prod.splits if_splits)

text \<open>Acceptance, for a signer that writes \<open>sig_text ts (m ts)\<close>.\<close>

lemma check_sig_iff:
  assumes signer: "\<And>at. signer at = (let ts = (if IsZero at then Unix now else Unix at) in sig_text ts (m ts))"
    and safe: "\<And>ts. list_all query_safe (m ts)" and ne: "\<And>ts. m ts \<noteq> []" and clk: "clock_set now"
  shows "fst (check_sig signer now sig) \<longleftrightarrow> (\<exists>ts. fresh now ts \<and> sig = sig_text ts (m ts))"
proof
  assume "fst (check_sig signer now sig)"
  then obtain v where v: "Atoi (values_Get (fst (ParseQuery sig)) ''t'') = Some v"
    and old: "\<not> time_Sub now (time_Unix v 0) > signatureTimeDeltaMax" and eq: "signer (time_Unix v 0) = sig"
    by (auto simp: check_sig_def Let_def split: prod.splits option.splits if_splits)
  from v have i: "is_int64 v" by (rule Atoi_int64)
  with old have fr: "fresh now v" by (simp add: fresh_def)
  with clk have "\<not> IsZero (time_Unix v 0)" by (rule zero_not_fresh)
  with eq signer i have "sig = sig_text v (m v)" by (simp add: Let_def)
  with fr show "\<exists>ts. fresh now ts \<and> sig = sig_text ts (m ts)" by blast
next
  assume "\<exists>ts. fresh now ts \<and> sig = sig_text ts (m ts)"
  then obtain ts where fr: "fresh now ts" and sig: "sig = sig_text ts (m ts)" by blast
  have "\<not> IsZero (time_Unix ts 0)" using clk fr by (rule zero_not_fresh)
  moreover have "ParseQuery sig = ([(''t'', Itoa ts), (''s'', m ts)], False)"
    unfolding sig by (rule ParseQuery_sig_text [OF safe])
  ultimately show "fst (check_sig signer now sig)"
    using fr sig signer ne by (simp add: check_sig_def fresh_def values_Get_def Atoi_Itoa Let_def)
qed

section \<open>The contract of a signature scheme\<close>

locale signature_scheme =
  fixes sign :: "gotime \<Rightarrow> gotime \<Rightarrow> bytes \<Rightarrow> bytes \<Rightarrow> string"
    and verify :: "gotime \<Rightarrow> string \<Rightarrow> bytes \<Rightarrow> bytes \<Rightarrow> bool"
    and sign_prep :: "bytes \<Rightarrow> bytes"
    and verify_prep :: "bytes \<Rightarrow> bytes"
  assumes sign_text: "\<not> IsZero at \<Longrightarrow> sign now at key body =
      sig_text (Unix at) (digest (normalizeKey key) (sign_prep body) (Unix at))"
    and verify_iff: "clock_set now \<Longrightarrow> verify now sig key body \<longleftrightarrow>
      (\<exists>ts. fresh now ts \<and>
         sig = sig_text ts (digest (normalizeKey (normalizeKey key)) (verify_prep body) ts))"
begin

text \<open>The verifier strips the key's prefix and the signer it calls strips once more: the two agree on
  keys that have at most one prefix.\<close>

lemma accepts_own:
  assumes "clock_set now" and "\<not> IsZero at" and "fresh now (Unix at)"
    and "normalizeKey (normalizeKey key) = normalizeKey key"
    and "verify_prep body' = sign_prep body"
  shows "verify now (sign now0 at key body) key body'"
  using assms by (auto simp: verify_iff sign_text)

lemma accepted_binds:
  assumes "clock_set now" and "\<not> IsZero at" and "verify now (sign now0 at key body) key' body'"
  shows "fresh now (Unix at) \<and> digest (normalizeKey (normalizeKey key')) (verify_prep body') (Unix at)
     = digest (normalizeKey key) (sign_prep body) (Unix at)"
proof -
  from assms(1,3) obtain ts where ts: "fresh now ts"
    "sign now0 at key body = sig_text ts (digest (normalizeKey (normalizeKey key')) (verify_prep body') ts)"
    by (auto simp: verify_iff)
  with assms(2) have "sig_text (Unix at) (digest (normalizeKey key) (sign_prep body) (Unix at))
      = sig_text ts (digest (normalizeKey (normalizeKey key')) (verify_prep body') ts)"
    by (simp add: sign_text)
  then have "Unix at = ts \<and> digest (normalizeKey key) (sign_prep body) (Unix at)
      = digest (normalizeKey (normalizeKey key')) (verify_prep body') ts"
    using ts(1) by (intro sig_text_inject) (simp_all add: fresh_def digest_query_safe)
  with ts(1) show ?thesis by auto
qed

lemma rejects_stale:
  assumes "clock_set now" and "\<not> IsZero at" and "\<not> fresh now (Unix at)"
  shows "\<not> verify now (sign now0 at key body) key' body'"
  using accepted_binds [OF assms(1,2)] assms(3) by blast

end

interpretation req: signature_scheme "Sign jcs"
  "\<lambda>now sig key body. fst (validateRequestSignature jcs now sig key body)"
  "canonical_body jcs" "canonical_body jcs" for jcs
proof
  show "Sign jcs now at key body =
      sig_text (Unix at) (digest (normalizeKey key) (canonical_body jcs body) (Unix at))"
    if "\<not> IsZero at" for at now key body
    using that by (simp add: Sign_alt Let_def)
  show "fst (validateRequestSignature jcs now sig key body) \<longleftrightarrow>
      (\<exists>ts. fresh now ts \<and>
        sig = sig_text ts (digest (normalizeKey (normalizeKey key)) (canonical_body jcs body) ts))"
    if "clock_set now" for now sig key body
    unfolding validateRequestSignature_check
    by (rule check_sig_iff) (simp_all add: Sign_alt digest_query_safe that)
qed

interpretation resp: signature_scheme signWithoutJCS
  "\<lambda>now sig key body. fst (ValidateResponseSignature now sig key body)" "\<lambda>b. b" trim_newline
proof
  show "signWithoutJCS now at key body =
      sig_text (Unix at) (digest (normalizeKey key) body (Unix at))"
    if "\<not> IsZero at" for at now key body
    using that by (simp add: signWithoutJCS_alt Let_def)
  show "fst (ValidateResponseSignature now sig key body) \<longleftrightarrow>
      (\<exists>ts. fresh now ts \<and>
        sig = sig_text ts (digest (normalizeKey (normalizeKey key)) (trim_newline body) ts))"
    if "clock_set now" for now sig key body
    unfolding ValidateResponseSignature_check
    by (rule check_sig_iff) (simp_all add: signWithoutJCS_alt digest_query_safe that)
qed

lemma validate_True: "fst (validateRequestSignature jcs now sig key body)
    \<Longrightarrow> validateRequestSignature jcs now sig key body = (True, None)"
  unfolding validateRequestSignature_check by (rule check_sig_True)

lemma validate_response_True: "fst (ValidateResponseSignature now sig key body)
    \<Longrightarrow> ValidateResponseSignature now sig key body = (True, None)"
  unfolding ValidateResponseSignature_check by (rule check_sig_True)

lemma clock_set_not_zero: "clock_set at \<Longrightarrow> \<not> IsZero at"
  by (simp add: clock_set_def IsZero_def)

section \<open>Properties\<close>

text \<open>C3: A request is accepted if and only if its signature is, byte for byte, \<open>t=<ts>&s=<mac>\<close> for a
  timestamp that is at most five minutes old, with the HMAC-SHA-256 of the canonical body followed by that
  timestamp under the normalised key. Nothing else is accepted: no other spelling of the timestamp, no
  reordering of the parameters, no other MAC.\<close>

theorem request_signature_accepted_iff:
  assumes "clock_set now"
  shows "validateRequestSignature jcs now sig key body = (True, None) \<longleftrightarrow>
    (\<exists>ts. is_int64 ts \<and> time_Sub now (time_Unix ts 0) \<le> 5 * Minute \<and>
       sig = ''t='' @ Itoa ts @ ''&s='' @
         hex_encode (hmac_sha256 (normalizeKey (normalizeKey key)) (canonical_body jcs body @ Itoa ts)))"
proof -
  have "validateRequestSignature jcs now sig key body = (True, None)
      \<longleftrightarrow> fst (validateRequestSignature jcs now sig key body)"
    using validate_True by auto
  also have "\<dots> \<longleftrightarrow> (\<exists>ts. fresh now ts \<and>
      sig = sig_text ts (digest (normalizeKey (normalizeKey key)) (canonical_body jcs body) ts))"
    by (rule req.verify_iff [OF assms])
  finally show ?thesis by (simp add: fresh_def signatureTimeDeltaMax_def sig_text_def digest_def)
qed

lemma clock_set_sample: "clock_set (time_Unix 1700000000 0)"
  by (simp add: clock_set_def time_Unix_def unixToInternal_def is_int64_def)

theorem request_signature_accepted_iff_witness:
  "clock_set (time_Unix 1700000000 0) \<and>
   (validateRequestSignature Some (time_Unix 1700000000 0) ''t=1700000000&s=00'' ''signkey-test-00'' [] = (True, None) \<longleftrightarrow>
    (\<exists>ts. is_int64 ts \<and> time_Sub (time_Unix 1700000000 0) (time_Unix ts 0) \<le> 5 * Minute \<and>
       ''t=1700000000&s=00'' = ''t='' @ Itoa ts @ ''&s='' @
         hex_encode (hmac_sha256 (normalizeKey (normalizeKey ''signkey-test-00''))
           (canonical_body Some [] @ Itoa ts))))"
  using request_signature_accepted_iff [OF clock_set_sample] clock_set_sample by blast

text \<open>C16: What \<open>Sign\<close> writes for a body and a key, the validator accepts for the same body and key as long as
  the signing second is at most five minutes old, for any key with at most one \<open>signkey-...-\<close> prefix.\<close>

theorem sign_validate_roundtrip:
  assumes "clock_set now" and "clock_set at"
    and "time_Sub now (time_Unix (Unix at) 0) \<le> 5 * Minute"
    and "normalizeKey (normalizeKey key) = normalizeKey key"
  shows "validateRequestSignature jcs now (Sign jcs now0 at key body) key body = (True, None)"
  by (rule validate_True, rule req.accepts_own)
    (use assms in \<open>simp_all add: clock_set_not_zero fresh_def signatureTimeDeltaMax_def\<close>)

lemma normalizeKey_sample: "normalizeKey ''signkey-test-12345678'' = ''12345678''" "normalizeKey ''12345678'' = ''12345678''"
  by code_simp+

theorem sign_validate_roundtrip_witness:
  "validateRequestSignature Some (time_Unix 1700000005 0)
     (Sign Some (time_Unix 1700000001 0) (time_Unix 1700000000 0) ''signkey-test-12345678'' ''{}'')
     ''signkey-test-12345678'' ''{}'' = (True, None)"
proof (rule sign_validate_roundtrip)
  show "clock_set (time_Unix 1700000005 0)"
    by (simp add: clock_set_def time_Unix_def unixToInternal_def is_int64_def)
  show "time_Sub (time_Unix 1700000005 0) (time_Unix (Unix (time_Unix 1700000000 0)) 0) \<le> 5 * Minute"
    by (simp add: time_Sub_def saturate64_def time_Unix_def Unix_def unixToInternal_def is_int64_def Minute_def Second_def)
qed (simp_all add: clock_set_sample normalizeKey_sample)

text \<open>C18: A signature whose signing second is more than five minutes old is rejected for every body and under
  every key: a captured request cannot be replayed after the window, whatever key rotation happened.\<close>

theorem stale_signature_rejected:
  assumes "clock_set now" and "clock_set at"
    and "time_Sub now (time_Unix (Unix at) 0) > 5 * Minute"
  shows "\<not> fst (validateRequestSignature jcs now (Sign jcs now0 at key body) key' body')"
  by (rule req.rejects_stale)
    (use assms in \<open>simp_all add: clock_set_not_zero fresh_def signatureTimeDeltaMax_def\<close>)

theorem stale_signature_rejected_witness:
  "\<not> fst (validateRequestSignature Some (time_Unix 1700003600 0)
     (Sign Some (time_Unix 1700000000 0) (time_Unix 1700000000 0) ''00'' []) ''00'' [])"
proof (rule stale_signature_rejected)
  show "clock_set (time_Unix 1700003600 0)"
    by (simp add: clock_set_def time_Unix_def unixToInternal_def is_int64_def)
  show "time_Sub (time_Unix 1700003600 0) (time_Unix (Unix (time_Unix 1700000000 0)) 0) > 5 * Minute"
    by (simp add: time_Sub_def saturate64_def time_Unix_def Unix_def unixToInternal_def is_int64_def Minute_def Second_def)
qed (rule clock_set_sample)

text \<open>C17: A signature made for one body and key that is accepted for another body or key is an HMAC
  collision: acceptance binds the canonical body and the key through the MAC, with the same timestamp.\<close>

theorem accepted_signature_binds_body:
  assumes "clock_set now" and "clock_set at"
    and "validateRequestSignature jcs now (Sign jcs now0 at key body) key' body' = (True, None)"
  shows "hmac_sha256 (normalizeKey (normalizeKey key')) (canonical_body jcs body' @ Itoa (Unix at))
       = hmac_sha256 (normalizeKey key) (canonical_body jcs body @ Itoa (Unix at))"
  using req.accepted_binds [OF assms(1) clock_set_not_zero [OF assms(2)], of jcs now0 key body key' body'] assms(3)
  by (simp add: digest_def hex_encode_inject)

theorem accepted_signature_binds_body_witness:
  "hmac_sha256 (normalizeKey (normalizeKey ''signkey-test-12345678'')) (canonical_body Some ''{}'' @ Itoa (Unix (time_Unix 1700000000 0)))
   = hmac_sha256 (normalizeKey ''signkey-test-12345678'') (canonical_body Some ''{}'' @ Itoa (Unix (time_Unix 1700000000 0)))"
proof (rule accepted_signature_binds_body [of "time_Unix 1700000000 0" "time_Unix 1700000000 0" Some "time_Unix 1700000000 0"])
  show "validateRequestSignature Some (time_Unix 1700000000 0)
      (Sign Some (time_Unix 1700000000 0) (time_Unix 1700000000 0) ''signkey-test-12345678'' ''{}'')
      ''signkey-test-12345678'' ''{}'' = (True, None)"
    by (rule validate_True, rule req.accepts_own)
      (simp_all add: clock_set_sample clock_set_not_zero normalizeKey_sample fresh_def is_int64_def signatureTimeDeltaMax_def
        Minute_def Second_def)
qed (rule clock_set_sample)+

text \<open>The key fallback. Outside dev mode the exported validator accepts exactly when one of the two
  configured keys accepts, an empty fallback never counts, the primary key has precedence, and the key it
  returns (the one the response is then signed with) is the key that accepted; on rejection it returns
  no key and an error. In dev mode everything is accepted and no key is returned.\<close>

theorem signing_key_fallback:
  "ValidateRequestSignature jcs now sig k fb body isDev =
    (if isDev then (True, [], None)
     else if fst (validateRequestSignature jcs now sig k body) then (True, k, None)
     else if fb \<noteq> [] \<and> fst (validateRequestSignature jcs now sig fb body) then (True, fb, None)
     else (False, [], snd (validateRequestSignature jcs now sig (if fb \<noteq> [] then fb else k) body)))"
  using validate_True [of jcs now sig k body] validate_True [of jcs now sig fb body]
  by (auto simp: ValidateRequestSignature_def split: prod.splits)

lemma response_accepted:
  assumes "clock_set now" and "clock_set at"
    and "time_Sub now (time_Unix (Unix at) 0) \<le> 5 * Minute"
    and "normalizeKey (normalizeKey key) = normalizeKey key"
    and "trim_newline b = body"
  shows "ValidateResponseSignature now (signWithoutJCS now0 at key body) key b = (True, None)"
  by (rule validate_response_True, rule resp.accepts_own)
    (use assms in \<open>simp_all add: clock_set_not_zero fresh_def signatureTimeDeltaMax_def\<close>)

text \<open>A response signed with \<open>signWithoutJCS\<close> validates against the body as it arrives, with the newline
  that Go's JSON encoder appends after the signature was computed, for any signed body that does not itself
  end in a newline.\<close>

theorem response_signature_roundtrip:
  assumes "clock_set now" and "clock_set at"
    and "time_Sub now (time_Unix (Unix at) 0) \<le> 5 * Minute"
    and "normalizeKey (normalizeKey key) = normalizeKey key"
    and "body = [] \<or> last body \<noteq> CHR 0x0A"
  shows "ValidateResponseSignature now (signWithoutJCS now0 at key body) key (body @ [CHR 0x0A]) = (True, None) \<and>
    ValidateResponseSignature now (signWithoutJCS now0 at key body) key body = (True, None)"
proof -
  have "trim_newline (body @ [CHR 0x0A]) = body" "trim_newline body = body"
    using assms(5) by (auto simp: trim_newline_def)
  with response_accepted [OF assms(1-4)] show ?thesis by blast
qed

theorem response_signature_roundtrip_witness:
  "ValidateResponseSignature (time_Unix 1700000000 0)
     (signWithoutJCS (time_Unix 1700000000 0) (time_Unix 1700000000 0) ''12345678'' ''{}'') ''12345678'' (''{}'' @ [CHR 0x0A]) = (True, None)"
  by (rule response_signature_roundtrip [THEN conjunct1])
    (simp_all add: clock_set_sample normalizeKey_sample is_int64_def Minute_def Second_def)

text \<open>C40: A body that the canonicaliser rejects is not covered by the signature at all: it is signed and
  validated as the empty body, so a signature made for an empty body (an inspection request) is accepted for
  every such body.\<close>

theorem uncanonical_body_unsigned:
  assumes "jcs body = None"
  shows "validateRequestSignature jcs now sig key body = validateRequestSignature jcs now sig key []"
proof -
  have "(\<lambda>ts. Sign jcs now ts (normalizeKey key) body) = (\<lambda>ts. Sign jcs now ts (normalizeKey key) [])"
    using assms by (simp add: Sign_def)
  then show ?thesis by (simp only: validateRequestSignature_check)
qed

theorem uncanonical_body_unsigned_witness:
  "validateRequestSignature (\<lambda>_. None) (time_Unix 1700000000 0)
     (Sign (\<lambda>_. None) (time_Unix 1700000000 0) (time_Unix 1700000000 0) ''12345678'' []) ''12345678'' ''forged'' =
   validateRequestSignature (\<lambda>_. None) (time_Unix 1700000000 0)
     (Sign (\<lambda>_. None) (time_Unix 1700000000 0) (time_Unix 1700000000 0) ''12345678'' []) ''12345678'' []"
  by (rule uncanonical_body_unsigned) simp

end
