(* ===== verification/Net.thy ===== *)
theory Net
  imports Signature Steps
begin

text \<open>
  \<open>net.go\<close>: a request to the API with the signing key, tried again with the fallback key.
  \<open>http.DefaultClient.Do\<close> is a parameter that sees the requests that went out before, so it can answer
  differently each time; the model records every request that goes out.
\<close>

record http_request =
  hq_Method :: string
  hq_URL :: url
  hq_Header :: header
  hq_Body :: bytes

record http_response =
  hr_StatusCode :: int
  hr_Body :: bytes

type_synonym client = "http_request list \<Rightarrow> http_request \<Rightarrow> goerr + http_response"

definition authorize :: "bytes \<Rightarrow> http_request \<Rightarrow> http_request" where
  "authorize key req = req\<lparr>hq_Header := header_Set (hq_Header req) HeaderKeyAuthorization (''Bearer '' @ key)\<rparr>"

text \<open>The request with the given key: nothing for an empty key, an error for a key that is not hexadecimal.\<close>

definition with_key :: "string \<Rightarrow> http_request \<Rightarrow> goerr + http_request" where
  "with_key signingKey req =
     (if signingKey \<noteq> [] then
        (case hashedSigningKey signingKey of
           Inl e \<Rightarrow> Inl (wrapf ''error creating signing key: '' e)
         | Inr key \<Rightarrow> Inr (authorize key req))
      else Inr req)"

definition send :: "client \<Rightarrow> http_request list \<Rightarrow> http_request \<Rightarrow> (goerr + http_response) \<times> http_request list" where
  "send Do sent req = ((case Do sent req of Inl e \<Rightarrow> Inl (wrapf ''error making request: '' e) | Inr r \<Rightarrow> Inr r), sent @ [req])"

text \<open>\<open>createRequest n\<close> is what the n-th call of the function that makes the request returns.\<close>

definition fetchWithAuthFallback ::
  "client \<Rightarrow> (nat \<Rightarrow> goerr + http_request) \<Rightarrow> string \<Rightarrow> string \<Rightarrow> http_request list \<Rightarrow> (goerr + http_response) \<times> http_request list" where
  "fetchWithAuthFallback Do createRequest signingKey signingKeyFallback sent =
     (case createRequest 0 of
        Inl e \<Rightarrow> (Inl (wrapf ''error creating request: '' e), sent)
      | Inr req0 \<Rightarrow>
          (case with_key signingKey req0 of
             Inl e \<Rightarrow> (Inl e, sent)
           | Inr req \<Rightarrow>
               (case send Do sent req of
                  (Inl e, sent') \<Rightarrow> (Inl e, sent')
                | (Inr resp, sent') \<Rightarrow>
                    if (hr_StatusCode resp = 401 \<or> hr_StatusCode resp = 403) \<and> signingKeyFallback \<noteq> [] then
                      (case createRequest 1 of
                         Inl e \<Rightarrow> (Inl (wrapf ''error creating request: '' e), sent')
                       | Inr req1 \<Rightarrow>
                           (case with_key signingKeyFallback req1 of
                              Inl e \<Rightarrow> (Inl e, sent')
                            | Inr req' \<Rightarrow> send Do sent' req'))
                    else (Inr resp, sent'))))"

section \<open>Properties\<close>

text \<open>The request of a call of \<open>createRequest\<close>, carrying the hashed key; there is none when the call fails or the key cannot be hashed. With an empty key
  it goes out as it is.\<close>

definition keyed :: "string \<Rightarrow> goerr + http_request \<Rightarrow> http_request option" where
  "keyed key made = (case made of
     Inl _ \<Rightarrow> None
   | Inr req \<Rightarrow> if key = [] then Some req
       else (case hashedSigningKey key of
          Inl _ \<Rightarrow> None
        | Inr h \<Rightarrow> Some (req\<lparr>hq_Header := header_Set (hq_Header req) HeaderKeyAuthorization (''Bearer '' @ h)\<rparr>)))"

lemma with_key_keyed: "\<exists>e. with_key key req = (case keyed key (Inr req) of Some req' \<Rightarrow> Inr req' | None \<Rightarrow> Inl e)"
  by (auto simp: with_key_def keyed_def authorize_def split: sum.splits)

lemma keyed_Authorization:
  "keyed key made = Some req \<Longrightarrow> key \<noteq> [] \<Longrightarrow> \<exists>h. hashedSigningKey key = Inr h \<and> header_Get (hq_Header req) HeaderKeyAuthorization = ''Bearer '' @ h"
  by (auto simp: keyed_def split: sum.splits)

text \<open>C19: Rotating keys against the API, on every path. Without a request that carries the signing key nothing is sent and the call fails. Otherwise the first request goes out; when it cannot be made the
  call fails. An answer other than 401 and 403 is returned, and so is every answer when there is no fallback key. After 401 or 403 the request is made again with the fallback
  key, and the call returns the answer of that second request, the last one in any case; it fails when that request cannot be built or sent.\<close>

theorem fetch_fallback:
  assumes "fetchWithAuthFallback Do createRequest key fallback sent = (r, sent')"
  shows "case keyed key (createRequest 0) of
      None \<Rightarrow> (\<exists>e. r = Inl e) \<and> sent' = sent
    | Some req \<Rightarrow>
        (case Do sent req of
           Inl _ \<Rightarrow> (\<exists>e. r = Inl e) \<and> sent' = sent @ [req]
         | Inr resp \<Rightarrow>
             if hr_StatusCode resp \<notin> {401, 403} \<or> fallback = [] then r = Inr resp \<and> sent' = sent @ [req]
             else (case keyed fallback (createRequest 1) of
                None \<Rightarrow> (\<exists>e. r = Inl e) \<and> sent' = sent @ [req]
              | Some req' \<Rightarrow> sent' = sent @ [req, req'] \<and>
                  (case Do (sent @ [req]) req' of Inl _ \<Rightarrow> \<exists>e. r = Inl e | Inr resp' \<Rightarrow> r = Inr resp') \<and>
                  (\<exists>h. hashedSigningKey fallback = Inr h \<and> header_Get (hq_Header req') HeaderKeyAuthorization = ''Bearer '' @ h)))"
proof -
  obtain err err' where key: "\<And>req. createRequest 0 = Inr req \<Longrightarrow> with_key key req = (case keyed key (createRequest 0) of Some req' \<Rightarrow> Inr req' | None \<Rightarrow> Inl err)"
    and key': "\<And>req. createRequest 1 = Inr req \<Longrightarrow> with_key fallback req = (case keyed fallback (createRequest 1) of Some req' \<Rightarrow> Inr req' | None \<Rightarrow> Inl err')"
    using with_key_keyed by (metis sum.inject(2))
  have unmade: "keyed k (Inl e) = None" for k e by (simp add: keyed_def)
  show ?thesis
  proof (cases "keyed key (createRequest 0)")
    case None
    with assms key show ?thesis by (cases "createRequest 0") (auto simp: fetchWithAuthFallback_def)
  next
    case (Some req)
    with unmade obtain req0 where made: "createRequest 0 = Inr req0" by (cases "createRequest 0") auto
    with key Some have req: "with_key key req0 = Inr req" by simp
    show ?thesis
    proof (cases "keyed fallback (createRequest 1)")
      case None
      with assms Some made req key' show ?thesis
        by (cases "createRequest 1") (auto simp: fetchWithAuthFallback_def send_def split: sum.splits if_splits)
    next
      case again: (Some req')
      with unmade obtain req1 where made': "createRequest 1 = Inr req1" by (cases "createRequest 1") auto
      with key' again have "with_key fallback req1 = Inr req'" by simp
      with assms Some made req again made' keyed_Authorization [OF again] show ?thesis
        by (auto simp: fetchWithAuthFallback_def send_def split: sum.splits if_splits)
    qed
  qed
qed

theorem fetch_fallback_witness:
  "\<exists>resp req req'. fetchWithAuthFallback (\<lambda>sent _. Inr \<lparr>hr_StatusCode = if sent = [] then 401 else 200, hr_Body = []\<rparr>)
     (\<lambda>_. Inr \<lparr>hq_Method = ''POST'', hq_URL = zero_url, hq_Header = [], hq_Body = []\<rparr>) [] ''ab'' [] = (Inr resp, [req, req']) \<and> hr_StatusCode resp = 200"
proof -
  let ?Do = "\<lambda>sent _. Inr \<lparr>hr_StatusCode = if sent = [] then 401 else 200, hr_Body = []\<rparr>"
    and ?req = "\<lparr>hq_Method = ''POST'', hq_URL = zero_url, hq_Header = [], hq_Body = []\<rparr>"
  have "normalizeKey ''ab'' = ''ab''" "hex_decode ''ab'' \<noteq> None" by code_simp+
  then obtain h where h: "hashedSigningKey ''ab'' = Inr h" by (auto simp: hashedSigningKey_def)
  obtain r sent' where f: "fetchWithAuthFallback ?Do (\<lambda>_. Inr ?req) [] ''ab'' [] = (r, sent')"
    by (cases "fetchWithAuthFallback ?Do (\<lambda>_. Inr ?req) [] ''ab'' []")
  from fetch_fallback [OF f] h f show ?thesis by (auto simp: keyed_def)
qed

end
