(* ===== verification/Handler.thy ===== *)
theory Handler
  imports Invoke Net "HOL-Library.AList" "HOL-Library.Multiset"
begin

text \<open>
  The handler of \<open>handler.go\<close>: its options and their defaults, registration of functions, and finding the function of a
  request. \<open>os.Getenv\<close> is the parameter \<open>env\<close>. A nil pointer option is \<open>None\<close>; of the logger only
  whether it is set matters.

  Go iterates over a map in no fixed order; \<open>Register\<close> takes the order as the parameter \<open>order\<close>, which
  permutes the list it is given.
\<close>

section \<open>Options\<close>

record HandlerOpts =
  ho_Logger :: bool
  ho_SigningKey :: "string option"
  ho_SigningKeyFallback :: "string option"
  ho_APIBaseURL :: "string option"
  ho_EventAPIBaseURL :: "string option"
  ho_ServeOrigin :: "string option"
  ho_ServePath :: "string option"
  ho_Env :: "string option"
  ho_RegisterURL :: "string option"
  ho_AppVersion :: "string option"
  ho_MaxBodySize :: int
  ho_URL :: "url option"
  ho_UseStreaming :: bool
  ho_AllowInBandSync :: "bool option"
  ho_Dev :: "bool option"

definition DefaultMaxBodySize :: int where
  "DefaultMaxBodySize = 1024 * 1024 * 100"

definition GetSigningKey :: "getenv \<Rightarrow> HandlerOpts \<Rightarrow> string" where
  "GetSigningKey env h = (case ho_SigningKey h of None \<Rightarrow> env ''INNGEST_SIGNING_KEY'' | Some k \<Rightarrow> k)"

definition GetSigningKeyFallback :: "getenv \<Rightarrow> HandlerOpts \<Rightarrow> string" where
  "GetSigningKeyFallback env h = (case ho_SigningKeyFallback h of None \<Rightarrow> env ''INNGEST_SIGNING_KEY_FALLBACK'' | Some k \<Rightarrow> k)"

definition isDev :: "getenv \<Rightarrow> HandlerOpts \<Rightarrow> bool" where
  "isDev env h = (case ho_Dev h of Some b \<Rightarrow> b | None \<Rightarrow> IsDev env)"

definition GetAPIBaseURL :: "getenv \<Rightarrow> HandlerOpts \<Rightarrow> string" where
  "GetAPIBaseURL env h =
     (if isDev env h then DevServerURL env
      else case ho_APIBaseURL h of
        None \<Rightarrow> (let base = env ''INNGEST_API_BASE_URL'' in if base \<noteq> [] then base else defaultAPIOrigin)
      | Some u \<Rightarrow> u)"

definition GetEventAPIBaseURL :: "getenv \<Rightarrow> HandlerOpts \<Rightarrow> string" where
  "GetEventAPIBaseURL env h =
     (if isDev env h then DevServerURL env
      else case ho_EventAPIBaseURL h of
        None \<Rightarrow> (let origin = env ''INNGEST_EVENT_API_BASE_URL'' in if origin \<noteq> [] then origin else defaultEventAPIOrigin)
      | Some u \<Rightarrow> u)"

definition GetServeOrigin :: "HandlerOpts \<Rightarrow> string" where
  "GetServeOrigin h = (case ho_ServeOrigin h of Some s \<Rightarrow> s | None \<Rightarrow> [])"

definition GetServePath :: "HandlerOpts \<Rightarrow> string" where
  "GetServePath h = (case ho_ServePath h of Some s \<Rightarrow> s | None \<Rightarrow> [])"

definition GetEnv :: "getenv \<Rightarrow> HandlerOpts \<Rightarrow> string" where
  "GetEnv env h = (case ho_Env h of None \<Rightarrow> env ''INNGEST_ENV'' | Some e \<Rightarrow> e)"

definition GetRegisterURL :: "HandlerOpts \<Rightarrow> string" where
  "GetRegisterURL h = (case ho_RegisterURL h of None \<Rightarrow> ''https://www.inngest.com/fn/register'' | Some u \<Rightarrow> u)"

definition IsInBandSyncAllowed :: "getenv \<Rightarrow> HandlerOpts \<Rightarrow> bool" where
  "IsInBandSyncAllowed env h = (case ho_AllowInBandSync h of Some b \<Rightarrow> b | None \<Rightarrow> isTrue (env ''INNGEST_ALLOW_IN_BAND_SYNC''))"

section \<open>The handler\<close>

record ('w, 'v) handler =
  h_opts :: HandlerOpts
  h_appName :: string
  h_funcs :: "('w, 'v) servableFunc list"

definition NewHandler :: "string \<Rightarrow> HandlerOpts \<Rightarrow> ('w, 'v) handler" where
  "NewHandler appName opts =
     \<lparr>h_opts = opts\<lparr>ho_Logger := True, ho_MaxBodySize := (if ho_MaxBodySize opts = 0 then DefaultMaxBodySize else ho_MaxBodySize opts)\<rparr>,
      h_appName = appName, h_funcs = []\<rparr>"

text \<open>\<open>SetOptions\<close> stores the options first and then fills in the defaults of its own copy.\<close>

definition SetOptions :: "HandlerOpts \<Rightarrow> ('w, 'v) handler \<Rightarrow> ('w, 'v) handler" where
  "SetOptions opts h = h\<lparr>h_opts := opts\<rparr>"

definition SetAppName :: "string \<Rightarrow> ('w, 'v) handler \<Rightarrow> ('w, 'v) handler" where
  "SetAppName name h = h\<lparr>h_appName := name\<rparr>"

definition slug_map :: "(string \<Rightarrow> string) \<Rightarrow> string \<Rightarrow> ('w, 'v) servableFunc list \<Rightarrow> (string \<times> ('w, 'v) servableFunc) list" where
  "slug_map slugMake appName fs = fold (\<lambda>f m. AList.update (Slug slugMake f appName) f m) fs []"

definition Register ::
  "(string \<Rightarrow> string) \<Rightarrow> (('w, 'v) servableFunc list \<Rightarrow> ('w, 'v) servableFunc list) \<Rightarrow> ('w, 'v) servableFunc list \<Rightarrow>
     ('w, 'v) handler \<Rightarrow> ('w, 'v) handler" where
  "Register slugMake order funcs h =
     h\<lparr>h_funcs := order (map snd (slug_map slugMake (h_appName h) (h_funcs h @ funcs)))\<rparr>"

text \<open>The function of a request, by its slug with the app's name or by the old format without it.\<close>

definition find_fn :: "(string \<Rightarrow> string) \<Rightarrow> ('w, 'v) handler \<Rightarrow> string \<Rightarrow> ('w, 'v) servableFunc option" where
  "find_fn slugMake h fnID =
     find (\<lambda>f. Slug slugMake f (h_appName h) = fnID \<or> Slug slugMake f [] = fnID) (h_funcs h)"

definition getServableFunctionBySlug :: "(string \<Rightarrow> string) \<Rightarrow> ('w, 'v) handler \<Rightarrow> string \<Rightarrow> ('w, 'v) servableFunc option" where
  "getServableFunctionBySlug slugMake h slug = find (\<lambda>f. Slug slugMake f (h_appName h) = slug) (h_funcs h)"

text \<open>\<open>InvokeFunction\<close> of \<open>connect.go\<close>: the error for an unknown function has no wrapped error.\<close>

definition InvokeFunction ::
  "(string \<Rightarrow> string) \<Rightarrow> (int \<Rightarrow> string) \<Rightarrow> string \<Rightarrow> ('w, 'v) handler \<Rightarrow> string \<Rightarrow> string option \<Rightarrow> Request \<Rightarrow> 'w \<Rightarrow>
     'v invoke_result outcome \<times> 'w" where
  "InvokeFunction slugMake durString stack h slug stepId request w =
     (case getServableFunctionBySlug slugMake h slug of
        None \<Rightarrow> (Returned \<lparr>iv_response = None, iv_ops = [], iv_err = Some (PublicErr (''function not found: '' @ slug) 410 None)\<rparr>, w)
      | Some fn \<Rightarrow> invoke durString stack fn request stepId w)"

text \<open>Options with everything unset.\<close>

definition no_handler_opts :: HandlerOpts where
  "no_handler_opts = \<lparr>ho_Logger = False, ho_SigningKey = None, ho_SigningKeyFallback = None, ho_APIBaseURL = None,
     ho_EventAPIBaseURL = None, ho_ServeOrigin = None, ho_ServePath = None, ho_Env = None, ho_RegisterURL = None,
     ho_AppVersion = None, ho_MaxBodySize = 0, ho_URL = None, ho_UseStreaming = False, ho_AllowInBandSync = None,
     ho_Dev = None\<rparr>"

section \<open>Registration\<close>

text \<open>The last function registered under each slug, the specification of \<open>slug_map\<close>.\<close>

lemma map_of_fold_update: "map_of (fold (\<lambda>f m. AList.update (k f) f m) fs m) = map_of m ++ map_of (rev (map (\<lambda>f. (k f, f)) fs))"
proof (induction fs arbitrary: m)
  case (Cons f fs)
  have "map_of (AList.update (k f) f m) = map_of m ++ [k f \<mapsto> f]" by (rule ext) (simp add: update_conv)
  then show ?case by (simp add: Cons map_add_assoc del: map_add_upd)
qed simp

lemma slug_map_of: "map_of (slug_map sm a fs) = map_of (rev (map (\<lambda>f. (Slug sm f a, f)) fs))"
  by (simp add: slug_map_def map_of_fold_update)

lemma slug_map_distinct: "distinct (map fst (slug_map sm a fs))"
proof -
  have "distinct (map fst m) \<Longrightarrow> distinct (map fst (fold (\<lambda>f m. AList.update (Slug sm f a) f m) fs m))" for m
    by (induction fs arbitrary: m) (auto simp: distinct_update)
  then show ?thesis by (simp add: slug_map_def)
qed

lemma slug_map_key: "(k, f) \<in> set (slug_map sm a fs) \<Longrightarrow> k = Slug sm f a \<and> f \<in> set fs"
proof -
  assume "(k, f) \<in> set (slug_map sm a fs)"
  then have "map_of (slug_map sm a fs) k = Some f" by (simp add: map_of_eq_Some_iff [OF slug_map_distinct])
  then show ?thesis unfolding slug_map_of by (auto dest!: map_of_SomeD)
qed

lemma slug_map_slugs: "map (\<lambda>f. Slug sm f a) (map snd (slug_map sm a fs)) = map fst (slug_map sm a fs)"
  using slug_map_key by (force simp: comp_def intro!: map_cong)

lemma find_unique:
  "distinct (map g xs) \<Longrightarrow> x \<in> set xs \<Longrightarrow> find (\<lambda>y. g y = g x) xs = Some x"
  by (induction xs) force+

lemma Register_funcs_distinct:
  assumes "\<And>xs. mset (order xs) = mset xs"
  shows "distinct (map (\<lambda>f. Slug sm f (h_appName h)) (h_funcs (Register sm order fs h)))"
proof -
  let ?g = "\<lambda>f. Slug sm f (h_appName h)" and ?xs = "map snd (slug_map sm (h_appName h) (h_funcs h @ fs))"
  have "mset (map ?g (order ?xs)) = mset (map ?g ?xs)" unfolding mset_map assms ..
  then have "distinct (map ?g (order ?xs)) = distinct (map ?g ?xs)" by (rule mset_eq_imp_distinct_iff)
  with slug_map_distinct [of sm "h_appName h" "h_funcs h @ fs"] slug_map_slugs [of sm "h_appName h" "h_funcs h @ fs"]
  show ?thesis by (simp add: Register_def del: map_map)
qed

lemma Register_funcs_set:
  assumes "\<And>xs. mset (order xs) = mset xs"
  shows "f \<in> set (h_funcs (Register sm order fs h)) \<longleftrightarrow>
    map_of (rev (map (\<lambda>f. (Slug sm f (h_appName h), f)) (h_funcs h @ fs))) (Slug sm f (h_appName h)) = Some f"
proof -
  let ?m = "slug_map sm (h_appName h) (h_funcs h @ fs)"
  have "f \<in> set (h_funcs (Register sm order fs h)) \<longleftrightarrow> f \<in> snd ` set ?m"
    using mset_eq_setD [OF assms, of "map snd ?m"] by (simp add: Register_def)
  also have "\<dots> \<longleftrightarrow> (Slug sm f (h_appName h), f) \<in> set ?m"
    using slug_map_key [of _ _ sm "h_appName h" "h_funcs h @ fs"] by force
  finally show ?thesis using map_of_eq_Some_iff [OF slug_map_distinct, of sm "h_appName h" "h_funcs h @ fs"]
    by (simp add: slug_map_of)
qed

section \<open>Properties\<close>

text \<open>C13: Registering functions. Whatever order the map iteration takes, afterwards no two functions have the same slug, every slug
  that was registered before or now is found by the worker's lookup, and the function found is the last one registered under it, so a
  new function replaces an old one of the same slug and no other.\<close>

theorem Register_lookup:
  assumes "\<And>xs. mset (order xs) = mset xs"
  shows "distinct (map (\<lambda>f. Slug sm f (h_appName h)) (h_funcs (Register sm order fs h))) \<and>
    getServableFunctionBySlug sm (Register sm order fs h) slug =
      map_of (rev (map (\<lambda>f. (Slug sm f (h_appName h), f)) (h_funcs h @ fs))) slug"
proof
  let ?h = "Register sm order fs h" and ?g = "\<lambda>f. Slug sm f (h_appName h)"
  let ?spec = "map_of (rev (map (\<lambda>f. (?g f, f)) (h_funcs h @ fs)))"
  show dist: "distinct (map ?g (h_funcs ?h))" by (rule Register_funcs_distinct [OF assms])
  have app: "h_appName ?h = h_appName h" by (simp add: Register_def)
  show "getServableFunctionBySlug sm ?h slug = ?spec slug"
  proof (cases "?spec slug")
    case None
    have "\<not> (\<exists>f \<in> set (h_funcs ?h). ?g f = slug)"
      using None Register_funcs_set [OF assms] by fastforce
    then have "find (\<lambda>f. ?g f = slug) (h_funcs ?h) = None" unfolding find_None_iff by auto
    with None app show ?thesis by (simp only: getServableFunctionBySlug_def)
  next
    case (Some f)
    then have f: "?g f = slug" by (auto dest!: map_of_SomeD)
    with Some have "f \<in> set (h_funcs ?h)" using Register_funcs_set [OF assms] by blast
    from find_unique [OF dist this] f Some app show ?thesis by (simp add: getServableFunctionBySlug_def)
  qed
qed

theorem Register_lookup_witness:
  "getServableFunctionBySlug (\<lambda>n. n) (Register (\<lambda>n. n) rev [count_fn] (NewHandler ''app'' no_handler_opts)) ''app-counter'' = Some count_fn"
  by (subst Register_lookup [THEN conjunct2]) (simp_all add: NewHandler_def count_fn_def no_opts_def Slug_def)

text \<open>The lookup for HTTP requests also accepts the slug without the app's name, and the first match wins. If some function's bare
  ID is the full slug of another function, requests for the second can reach the first: with the app \<open>app\<close> and the IDs \<open>x\<close> and \<open>app-x\<close>,
  the request for \<open>app-x\<close> that the service makes for \<open>x\<close> runs the function \<open>app-x\<close> when that one comes first.\<close>

theorem old_format_shadows:
  assumes "h_funcs h = f # g # rest" "fo_ID (sf_fc f) = h_appName h @ ''-'' @ fo_ID (sf_fc g)" "fo_ID (sf_fc g) \<noteq> []" "h_appName h \<noteq> []"
  shows "find_fn sm h (Slug sm g (h_appName h)) = Some f \<and> Slug sm g (h_appName h) \<noteq> Slug sm f (h_appName h)"
  using assms by (simp add: find_fn_def Slug_def)

theorem old_format_shadows_witness:
  "find_fn (\<lambda>n. n) \<lparr>h_opts = no_handler_opts, h_appName = ''app'',
     h_funcs = [count_fn\<lparr>sf_fc := no_opts\<lparr>fo_ID := ''app-counter''\<rparr>\<rparr>, count_fn]\<rparr> ''app-counter''
   = Some (count_fn\<lparr>sf_fc := no_opts\<lparr>fo_ID := ''app-counter''\<rparr>\<rparr>)"
  using old_format_shadows [of "\<lparr>h_opts = no_handler_opts, h_appName = ''app'',
     h_funcs = [count_fn\<lparr>sf_fc := no_opts\<lparr>fo_ID := ''app-counter''\<rparr>\<rparr>, count_fn]\<rparr>" _ count_fn "[]" "\<lambda>n. n"]
  by (simp add: count_fn_def no_opts_def Slug_def)

lemma find_fn_own:
  assumes "distinct (map (\<lambda>f. Slug sm f (h_appName h)) (h_funcs h))" "f \<in> set (h_funcs h)"
    "\<forall>g \<in> set (h_funcs h). Slug sm g [] \<noteq> Slug sm f (h_appName h) \<or> g = f"
  shows "find_fn sm h (Slug sm f (h_appName h)) = Some f"
proof -
  have "find_fn sm h (Slug sm f (h_appName h)) = find (\<lambda>g. Slug sm g (h_appName h) = Slug sm f (h_appName h)) (h_funcs h)"
    unfolding find_fn_def using assms(3) by (intro find_cong) auto
  with find_unique [OF assms(1,2)] show ?thesis by simp
qed

text \<open>Apart from that shadowing the two lookups agree: if no function's slug without the app's name is another function's full slug, a
  request finds the function that has the slug it names.\<close>

theorem find_fn_resolves:
  assumes "distinct (map (\<lambda>f. Slug sm f (h_appName h)) (h_funcs h))" "f \<in> set (h_funcs h)"
    "\<forall>g \<in> set (h_funcs h). Slug sm g [] \<noteq> Slug sm f (h_appName h) \<or> g = f"
  shows "find_fn sm h (Slug sm f (h_appName h)) = Some f"
  using assms by (rule find_fn_own)

theorem find_fn_resolves_witness:
  "find_fn (\<lambda>n. n) \<lparr>h_opts = no_handler_opts, h_appName = ''app'', h_funcs = [count_fn]\<rparr> ''app-counter'' = Some count_fn"
  using find_fn_resolves [of "\<lambda>n. n" "\<lparr>h_opts = no_handler_opts, h_appName = ''app'', h_funcs = [count_fn]\<rparr>" count_fn]
  by (simp add: count_fn_def no_opts_def Slug_def)

end
