(* ===== verification/Sync.thy ===== *)
theory Sync
  imports Handler
begin

text \<open>
  Registration with the service, \<open>handler.go\<close>: function configurations, the inspections, the in-band and the
  out-of-band sync. \<open>sys\<close> collects what the handler gets from outside: the environment, the clock (when a signature is
  validated and when one is made), JCS, \<open>slug.Make\<close>, the stack trace of a panic, the formats of durations and times, and
  the JSON encodings of values, opcodes and function configurations (types of other packages). Writing a response does not
  fail in the model, and of a body only its length can be refused.
\<close>

section \<open>Parameters, incoming requests\<close>

record SDKFunction =
  sdk_Name :: string
  sdk_Slug :: string
  sdk_Idempotency :: "string option"
  sdk_Priority :: "json option"
  sdk_Triggers :: "Trigger list"
  sdk_RateLimit :: "inngest_RateLimit option"
  sdk_Cancel :: "json list"
  sdk_Timeouts :: "inngest_Timeouts option"
  sdk_Throttle :: "json option"
  sdk_Retries :: "int option"
  sdk_URL :: string
  sdk_Debounce :: "(string \<times> string \<times> string option) option"
  sdk_EventBatch :: "(int \<times> string \<times> string option) option"
  sdk_Concurrency :: "json list option"

record 'v sys =
  sy_env :: getenv
  sy_jcs :: "bytes \<Rightarrow> bytes option"
  sy_now :: gotime
  sy_sign_now :: gotime
  sy_slugMake :: "string \<Rightarrow> string"
  sy_dur :: "int \<Rightarrow> string"
  sy_stack :: string
  sy_rfc3339 :: "gotime \<Rightarrow> string"
  sy_json_time :: "gotime \<Rightarrow> string"
  sy_value :: "'v option \<Rightarrow> json option"
  sy_op :: "GeneratorOpcode \<Rightarrow> json"
  sy_fn :: "SDKFunction \<Rightarrow> json"
  sy_fmt_s :: "json \<Rightarrow> string"

record http_in =
  ri_Method :: string
  ri_URL :: url
  ri_Header :: header
  ri_Body :: bytes
  ri_Host :: string
  ri_TLS :: bool
  ri_RequestURI :: string

text \<open>\<open>io.ReadAll(http.MaxBytesReader(w, r.Body, int64(max)))\<close>, with the default for an unset maximum.\<close>

definition body_limit :: "HandlerOpts \<Rightarrow> int" where
  "body_limit h = (if ho_MaxBodySize h = 0 then DefaultMaxBodySize else ho_MaxBodySize h)"

definition read_body :: "HandlerOpts \<Rightarrow> http_in \<Rightarrow> bytes option" where
  "read_body h r = (if int (length (ri_Body r)) \<le> max 0 (body_limit h) then Some (ri_Body r) else None)"

definition too_large :: goerr where
  "too_large = Errorf ''http: request body too large'' []"

text \<open>\<open>json.NewEncoder(w).Encode(v)\<close>.\<close>

definition Encode :: "json \<Rightarrow> response_writer \<Rightarrow> response_writer" where
  "Encode j w = rw_Write (json_text j @ [CHR 0x0A]) w"

section \<open>createFunctionConfigs\<close>

text \<open>A trigger with neither part makes the code dereference a nil cron trigger.\<close>

definition config_trigger :: "Trigger \<Rightarrow> Trigger option" where
  "config_trigger t = (case tr_EventTrigger t of
     Some e \<Rightarrow> Some \<lparr>tr_EventTrigger = Some e, tr_CronTrigger = None\<rparr>
   | None \<Rightarrow> (case tr_CronTrigger t of
       Some c \<Rightarrow> Some \<lparr>tr_EventTrigger = None, tr_CronTrigger = Some c\<rparr> | None \<Rightarrow> None))"

definition fn_url :: "string \<Rightarrow> url \<Rightarrow> url" where
  "fn_url slug appURL = appURL\<lparr>url_RawQuery := values_Encode (values_Set (values_Set (url_Query appURL) ''fnId'' slug) ''step'' ''step'')\<rparr>"

definition fn_config :: "('w, 'v) servableFunc \<Rightarrow> string \<Rightarrow> url \<Rightarrow> Trigger \<Rightarrow> SDKFunction" where
  "fn_config fn slug u trigger =
     (let c = Config fn in
      \<lparr>sdk_Name = Name fn, sdk_Slug = slug, sdk_Idempotency = fo_Idempotency c, sdk_Priority = fo_Priority c,
       sdk_Triggers = [trigger], sdk_RateLimit = GetRateLimit c, sdk_Cancel = fo_Cancel c, sdk_Timeouts = GetTimeouts c,
       sdk_Throttle = fo_Throttle c, sdk_Retries = fo_Retries c, sdk_URL = url_String u,
       sdk_Debounce = (case fo_Debounce c of None \<Rightarrow> None
         | Some d \<Rightarrow> Some (db_Key d, Duration_String (db_Period d), map_option Duration_String (db_Timeout d))),
       sdk_EventBatch = (case fo_BatchEvents c of None \<Rightarrow> None | Some b \<Rightarrow> Some (eb_MaxSize b, eb_Timeout b, eb_Key b)),
       sdk_Concurrency = (if fo_Concurrency c = [] then None else Some (fo_Concurrency c))\<rparr>)"

text \<open>The loop keeps the URL it changed for the previous function.\<close>

fun fn_configs :: "(string \<Rightarrow> string) \<Rightarrow> string \<Rightarrow> ('w, 'v) servableFunc list \<Rightarrow> url \<Rightarrow> SDKFunction list outcome" where
  "fn_configs slugMake appName [] appURL = Returned []"
| "fn_configs slugMake appName (fn # fns) appURL =
     (let slug = Slug slugMake fn appName; u = fn_url slug appURL
      in case config_trigger (sf_trigger fn) of
           None \<Rightarrow> Panicked nil_deref
         | Some t \<Rightarrow>
             (case fn_configs slugMake appName fns u of
                Returned cs \<Rightarrow> Returned (fn_config fn slug u t # cs)
              | r \<Rightarrow> r))"

definition createFunctionConfigs ::
  "(string \<Rightarrow> string) \<Rightarrow> string \<Rightarrow> ('w, 'v) servableFunc list \<Rightarrow> url \<Rightarrow> bool \<Rightarrow> (goerr + SDKFunction list) outcome" where
  "createFunctionConfigs slugMake appName fns appURL isConnect =
     (if appName = [] then Returned (Inl (Errorf ''missing app name'' []))
      else if \<not> isConnect \<and> appURL = zero_url then Returned (Inl (Errorf ''missing URL'' []))
      else (case fn_configs slugMake appName fns appURL of
              Returned cs \<Rightarrow> Returned (Inr cs)
            | Hijacked \<Rightarrow> Hijacked
            | Panicked p \<Rightarrow> Panicked p))"

section \<open>Inspections\<close>

record insecureInspection =
  ii_SchemaVersion :: string
  ii_AuthenticationSucceeded :: "bool option"
  ii_FunctionCount :: nat
  ii_HasEventKey :: bool
  ii_HasSigningKey :: bool
  ii_HasSigningKeyFallback :: bool
  ii_Mode :: string

record secureInspection =
  si_insecure :: insecureInspection
  si_APIOrigin :: string
  si_AppID :: string
  si_Env :: "string option"
  si_EventAPIOrigin :: string
  si_EventKeyHash :: "string option"
  si_SDKLanguage :: string
  si_SDKVersion :: string
  si_ServeOrigin :: "string option"
  si_ServePath :: "string option"
  si_SigningKeyFallbackHash :: "string option"
  si_SigningKeyHash :: "string option"

definition createInsecureInspection :: "getenv \<Rightarrow> ('w, 'v) handler \<Rightarrow> bool option \<Rightarrow> insecureInspection" where
  "createInsecureInspection env h authenticationSucceeded =
     \<lparr>ii_SchemaVersion = ''2024-05-24'', ii_AuthenticationSucceeded = authenticationSucceeded,
      ii_FunctionCount = length (h_funcs h), ii_HasEventKey = (env ''INNGEST_EVENT_KEY'' \<noteq> []),
      ii_HasSigningKey = (GetSigningKey env (h_opts h) \<noteq> []),
      ii_HasSigningKeyFallback = (GetSigningKeyFallback env (h_opts h) \<noteq> []),
      ii_Mode = (if isDev env (h_opts h) then ''dev'' else ''cloud'')\<rparr>"

definition key_hash_of :: "string \<Rightarrow> string \<Rightarrow> goerr + string option" where
  "key_hash_of what key = (if key = [] then Inr None
     else case hashedSigningKey key of Inl e \<Rightarrow> Inl (wrapf what e) | Inr k \<Rightarrow> Inr (Some k))"

definition createSecureInspection :: "getenv \<Rightarrow> ('w, 'v) handler \<Rightarrow> goerr + secureInspection" where
  "createSecureInspection env h =
     (let opts = h_opts h; dev = isDev env opts;
          evk = env ''INNGEST_EVENT_KEY''
      in case key_hash_of ''error hashing signing key: '' (GetSigningKey env opts) of
           Inl e \<Rightarrow> Inl e
         | Inr skh \<Rightarrow>
             (case key_hash_of ''error hashing signing key fallback: '' (GetSigningKeyFallback env opts) of
                Inl e \<Rightarrow> Inl e
              | Inr fkh \<Rightarrow> Inr
                  \<lparr>si_insecure = createInsecureInspection env h (Some True),
                   si_APIOrigin = (if dev then DevServerURL env else defaultAPIOrigin),
                   si_AppID = h_appName h,
                   si_Env = (if GetEnv env opts \<noteq> [] then Some (GetEnv env opts) else None),
                   si_EventAPIOrigin = (if dev then DevServerURL env else defaultEventAPIOrigin),
                   si_EventKeyHash = (if evk \<noteq> [] then Some (hashEventKey evk) else None),
                   si_SDKLanguage = SDKLanguage, si_SDKVersion = SDKVersion,
                   si_ServeOrigin = map_option (\<lambda>u. url_Scheme u @ ''://'' @ url_Host u) (ho_URL opts),
                   si_ServePath = map_option url_Path (ho_URL opts),
                   si_SigningKeyFallbackHash = fkh, si_SigningKeyHash = skh\<rparr>))"

definition opt_str :: "string option \<Rightarrow> json" where
  "opt_str v = (case v of None \<Rightarrow> JNull | Some s \<Rightarrow> JStr s)"

definition capabilities :: json where
  "capabilities = JObj [(''in_band_sync'', JStr ''v1''), (''trust_probe'', JStr ''v1''), (''connect'', JStr ''v1'')]"

definition insecure_members :: "insecureInspection \<Rightarrow> (string \<times> json) list" where
  "insecure_members i =
     [(''schema_version'', JStr (ii_SchemaVersion i)),
      (''authentication_succeeded'', (case ii_AuthenticationSucceeded i of None \<Rightarrow> JNull | Some b \<Rightarrow> JBool b)),
      (''function_count'', JNum (show_nat (ii_FunctionCount i))), (''has_event_key'', JBool (ii_HasEventKey i)),
      (''has_signing_key'', JBool (ii_HasSigningKey i)), (''has_signing_key_fallback'', JBool (ii_HasSigningKeyFallback i)),
      (''mode'', JStr (ii_Mode i))]"

definition secure_members :: "secureInspection \<Rightarrow> (string \<times> json) list" where
  "secure_members i = insecure_members (si_insecure i) @
     [(''api_origin'', JStr (si_APIOrigin i)), (''app_id'', JStr (si_AppID i)), (''capabilities'', capabilities),
      (''env'', opt_str (si_Env i)), (''event_api_origin'', JStr (si_EventAPIOrigin i)),
      (''event_key_hash'', opt_str (si_EventKeyHash i)), (''framework'', JStr []),
      (''sdk_language'', JStr (si_SDKLanguage i)), (''sdk_version'', JStr (si_SDKVersion i)),
      (''serve_origin'', opt_str (si_ServeOrigin i)), (''serve_path'', opt_str (si_ServePath i)),
      (''signing_key_fallback_hash'', opt_str (si_SigningKeyFallbackHash i)),
      (''signing_key_hash'', opt_str (si_SigningKeyHash i))]"

text \<open>\<open>types.StructToMap\<close>: a map is written with its keys sorted, at every level.\<close>

fun StructToMap :: "json \<Rightarrow> json" where
  "StructToMap (JObj kvs) = JObj (sort_key fst (map (\<lambda>kv. (fst kv, StructToMap (snd kv))) kvs))"
| "StructToMap (JArr js) = JArr (map StructToMap js)"
| "StructToMap j = j"

section \<open>In-band sync\<close>

definition sig_error :: "string \<Rightarrow> string \<Rightarrow> goerr" where
  "sig_error code msg = PublicErr [] 401 (Some (SysErr code msg))"

definition malformed :: "goerr \<Rightarrow> goerr" where
  "malformed e = PublicErr [] 400 (Some (wrapf ''malformed input: '' e))"

text \<open>\<open>inBandSynchronizeRequest\<close> with its decoding, and \<open>Validate\<close>.\<close>

definition Unmarshal_syncRequest :: "json \<Rightarrow> string option" where
  "Unmarshal_syncRequest j = (case j of JObj kvs \<Rightarrow> string_field ''url'' kvs | JNull \<Rightarrow> Some [] | _ \<Rightarrow> None)"

definition Validate_syncRequest :: "string \<Rightarrow> goerr option" where
  "Validate_syncRequest u = (if u = [] then Some (Errorf ''missing URL'' []) else None)"

definition inBandSynchronizeResponse :: "'v sys \<Rightarrow> ('w, 'v) handler \<Rightarrow> SDKFunction list \<Rightarrow> secureInspection \<Rightarrow> url \<Rightarrow> json" where
  "inBandSynchronizeResponse sys h fns inspection appURL =
     JObj [(''app_id'', JStr (h_appName h)),
       (''env'', opt_str (if GetEnv (sy_env sys) (h_opts h) \<noteq> [] then Some (GetEnv (sy_env sys) (h_opts h)) else None)),
       (''framework'', JNull), (''functions'', JArr (map (sy_fn sys) fns)),
       (''inspection'', StructToMap (JObj (secure_members inspection))), (''platform'', JNull),
       (''sdk_author'', JStr SDKAuthor), (''sdk_language'', JStr SDKLanguage), (''sdk_version'', JStr SDKVersion),
       (''url'', JStr (url_String appURL))]"

text \<open>After authentication: the response for the URL to register, signed with the key that authenticated the request.\<close>

definition sync_response :: "'v sys \<Rightarrow> ('w, 'v) handler \<Rightarrow> string \<Rightarrow> url \<Rightarrow> response_writer \<Rightarrow> goerr option outcome \<times> response_writer" where
  "sync_response sys h skey appURL w =
     (case createFunctionConfigs (sy_slugMake sys) (h_appName h) (h_funcs h) appURL False of
        Panicked p \<Rightarrow> (Panicked p, w)
      | Hijacked \<Rightarrow> (Hijacked, w)
      | Returned (Inl e) \<Rightarrow> (Returned (Some (wrapf ''error creating function configs: '' e)), w)
      | Returned (Inr fns) \<Rightarrow>
          (case createSecureInspection (sy_env sys) h of
             Inl e \<Rightarrow> (Returned (Some (wrapf ''error creating inspection: '' e)), w)
           | Inr inspection \<Rightarrow>
               (let respBody = inBandSynchronizeResponse sys h fns inspection appURL;
                    resSig = signWithoutJCS (sy_sign_now sys) (sy_sign_now sys) skey (json_text respBody)
                in (Returned None,
                    Encode respBody
                      (rw_Add HeaderKeySyncKind SyncKindInBand
                        (rw_Add HeaderKeyContentType ''application/json'' (rw_Add HeaderKeySignature resSig w)))))))"

definition inBandSync :: "'v sys \<Rightarrow> ('w, 'v) handler \<Rightarrow> http_in \<Rightarrow> response_writer \<Rightarrow> goerr option outcome \<times> response_writer" where
  "inBandSync sys h r w =
     (let opts = h_opts h; dev = isDev (sy_env sys) opts;
          sig = (if dev then [] else header_Get (ri_Header r) HeaderKeySignature)
      in if \<not> dev \<and> sig = [] then
           (Returned (Some (sig_error ''http_missing_header'' (''missing '' @ HeaderKeySignature @ '' header''))), w)
         else case read_body opts r of
           None \<Rightarrow> (Returned (Some (PublicErr [] 500 (Some (Errorf ''error reading request body'' [])))), w)
         | Some reqByt \<Rightarrow>
             (case ValidateRequestSignature (sy_jcs sys) (sy_now sys) sig (GetSigningKey (sy_env sys) opts)
                     (GetSigningKeyFallback (sy_env sys) opts) reqByt dev of
                (valid, skey, err) \<Rightarrow>
                  if err \<noteq> None then (Returned (Some (sig_error ''sig_verification_failed'' ''error validating signature'')), w)
                  else if \<not> valid then (Returned (Some (sig_error ''sig_verification_failed'' ''invalid signature'')), w)
                  else (case (case json_parse reqByt of None \<Rightarrow> None | Some j \<Rightarrow> Unmarshal_syncRequest j) of
                    None \<Rightarrow> (Returned (Some (malformed json_error)), w)
                  | Some reqURL \<Rightarrow>
                      (case Validate_syncRequest reqURL of
                         Some e \<Rightarrow> (Returned (Some (malformed e)), w)
                       | None \<Rightarrow>
                           (case url_Parse reqURL of
                              None \<Rightarrow> (Returned (Some (malformed (Errorf ''parse error'' []))), w)
                            | Some appURL0 \<Rightarrow>
                                sync_response sys h skey (case ho_URL opts of Some u \<Rightarrow> u | None \<Rightarrow> appURL0) w)))))"

section \<open>Out-of-band sync\<close>

definition request_scheme :: "http_in \<Rightarrow> string" where
  "request_scheme r = (if ri_TLS r then ''https'' else ''http'')"

text \<open>\<open>h.url(r)\<close> is nil (\<open>None\<close>) when the URL of the request does not parse.\<close>

definition handler_url :: "HandlerOpts \<Rightarrow> http_in \<Rightarrow> url option" where
  "handler_url opts r = (case ho_URL opts of Some u \<Rightarrow> Some u
     | None \<Rightarrow> url_Parse (request_scheme r @ ''://'' @ ri_Host r @ ri_RequestURI r))"

definition register_config :: "'v sys \<Rightarrow> ('w, 'v) handler \<Rightarrow> http_in \<Rightarrow> SDKFunction list \<Rightarrow> json" where
  "register_config sys h r fns =
     (let u = (ri_URL r)\<lparr>url_RawQuery := values_Encode (values_Del (url_Query (ri_URL r)) ''deployId'')\<rparr>
      in JObj ([(''v'', JStr ''1''), (''url'', JStr (request_scheme r @ ''://'' @ ri_Host r @ url_String u)), (''deployType'', JStr ''ping''),
         (''sdk'', JStr HeaderValueSDK), (''framework'', JStr []), (''appName'', JStr (h_appName h))] @
         (case ho_AppVersion (h_opts h) of Some (c # v) \<Rightarrow> [(''appVersion'', JStr (c # v))] | _ \<Rightarrow> []) @
         [(''functions'', JArr (map (sy_fn sys) fns)),
          (''headers'', JObj [(''env'', JStr (GetEnv (sy_env sys) (h_opts h))), (''platform'', JStr (platform (sy_env sys)))]),
          (''idempotencyKey'', JStr []), (''capabilities'', capabilities)]))"

definition registerURL :: "getenv \<Rightarrow> HandlerOpts \<Rightarrow> string" where
  "registerURL env opts = (case ho_RegisterURL opts of Some u \<Rightarrow> u
     | None \<Rightarrow> (if isDev env opts then DevServerURL env else defaultAPIOrigin) @ ''/fn/register'')"

text \<open>The closure \<open>createRequest\<close>.\<close>

definition createRequest :: "'v sys \<Rightarrow> ('w, 'v) handler \<Rightarrow> http_in \<Rightarrow> json \<Rightarrow> goerr + http_request" where
  "createRequest sys h r config =
     (case url_Parse (registerURL (sy_env sys) (h_opts h)) of
        None \<Rightarrow> Inl (wrapf ''error creating new request: '' (Errorf ''parse error'' []))
      | Some u \<Rightarrow>
          (let syncID = values_Get (url_Query (ri_URL r)) ''deployId'';
               u' = (if syncID \<noteq> [] then u\<lparr>url_RawQuery := values_Encode (values_Set (url_Query u) ''deployId'' syncID)\<rparr> else u);
               kind = header_Get (ri_Header r) HeaderKeyServerKind;
               hd1 = (if kind \<noteq> [] then header_Set [] HeaderKeyExpectedServerKind kind else []);
               ev = GetEnv (sy_env sys) (h_opts h);
               hd2 = (if ev \<noteq> [] then header_Add hd1 HeaderKeyEnv ev else hd1)
           in Inr \<lparr>hq_Method = ''POST'', hq_URL = u', hq_Header = SetBasicRequestHeaders hd2, hq_Body = json_text config\<rparr>))"

definition outOfBandSync ::
  "'v sys \<Rightarrow> client \<Rightarrow> ('w, 'v) handler \<Rightarrow> http_in \<Rightarrow> response_writer \<Rightarrow> http_request list \<Rightarrow>
     goerr option outcome \<times> response_writer \<times> http_request list" where
  "outOfBandSync sys Do h r w sent =
     (case handler_url (h_opts h) r of
        None \<Rightarrow> (Panicked nil_deref, w, sent)
      | Some appURL \<Rightarrow>
          (case createFunctionConfigs (sy_slugMake sys) (h_appName h) (h_funcs h) appURL False of
             Panicked p \<Rightarrow> (Panicked p, w, sent)
           | Hijacked \<Rightarrow> (Hijacked, w, sent)
           | Returned (Inl e) \<Rightarrow> (Returned (Some (wrapf ''error creating function configs: '' e)), w, sent)
           | Returned (Inr fns) \<Rightarrow>
               (case fetchWithAuthFallback Do (\<lambda>_. createRequest sys h r (register_config sys h r fns))
                       (GetSigningKey (sy_env sys) (h_opts h)) (GetSigningKeyFallback (sy_env sys) (h_opts h)) sent of
                  (Inl e, sent') \<Rightarrow> (Returned (Some (wrapf ''error performing registration request: '' e)), w, sent')
                | (Inr resp, sent') \<Rightarrow>
                    if hr_StatusCode resp > 299 then
                      (case json_parse (hr_Body resp) of
                         Some (JObj kvs) \<Rightarrow>
                           (Returned (Some (Errorf (''Error registering functions: '' @
                              (case map_of (rev kvs) ''error'' of Some j \<Rightarrow> sy_fmt_s sys j | None \<Rightarrow> sy_fmt_s sys JNull)) [])), w, sent')
                       | Some JNull \<Rightarrow> (Returned (Some (Errorf (''Error registering functions: '' @ sy_fmt_s sys JNull) [])), w, sent')
                       | _ \<Rightarrow> (Returned (Some (Errorf (''error reading register response: '' @ fmt_err (CHR ''v'') json_error @
                                [CHR 0x0A, CHR 0x0A] @ hr_Body resp) [json_error])), w, sent'))
                    else (Returned None, rw_Add HeaderKeySyncKind SyncKindOutOfBand w, sent'))))"

definition register ::
  "'v sys \<Rightarrow> client \<Rightarrow> ('w, 'v) handler \<Rightarrow> http_in \<Rightarrow> response_writer \<Rightarrow> http_request list \<Rightarrow>
     goerr option outcome \<times> response_writer \<times> http_request list" where
  "register sys Do h r w sent =
     (if header_Get (ri_Header r) HeaderKeySyncKind = SyncKindInBand \<and> IsInBandSyncAllowed (sy_env sys) (h_opts h)
      then (case inBandSync sys h r w of (oc, w') \<Rightarrow> (oc, w', sent))
      else outOfBandSync sys Do h r w sent)"

end
