(* ===== verification/Serve.thy ===== *)
theory Serve
  imports Sync
begin

text \<open>
  Serving requests, \<open>handler.go\<close>: \<open>ServeHTTP\<close> with the invocation of a function (\<open>handler.invoke\<close>), the inspection and the
  trust probe. \<open>beats\<close> is the number of spaces that the streaming goroutine writes while the function runs. A panic ends the
  request without a further write.
\<close>

section \<open>Invoking a function\<close>

definition stream_response :: "'v sys \<Rightarrow> int \<Rightarrow> json \<Rightarrow> gotime option \<Rightarrow> bool \<Rightarrow> json" where
  "stream_response sys status body retryAt noRetry =
     JObj [(''status'', JNum (Itoa status)), (''body'', body),
       (''retryAt'', (case retryAt of None \<Rightarrow> JNull | Some t \<Rightarrow> JStr (sy_json_time sys t))),
       (''noRetry'', JBool noRetry), (''headers'', JNull)]"

text \<open>The error that is left after the ones reported as opcodes, whether retries are off, and when to retry.\<close>

definition settle_error :: "'v invoke_result \<Rightarrow> goerr option \<times> bool \<times> gotime option" where
  "settle_error r =
     (let err = iv_err r;
          noRetry = IsNoRetryError err;
          retryAt = GetRetryAtTime err;
          err1 = (case iv_ops r of [op] \<Rightarrow> (if op_Op op = OpcodeStepError then None else err) | _ \<Rightarrow> err)
      in if IsStepError err1
         then (Some (Errorf (''Unhandled step error: '' @ (case err1 of Some e \<Rightarrow> fmt_err (CHR ''s'') e | None \<Rightarrow> [])) []), True, retryAt)
         else (err1, noRetry, retryAt))"

definition respond_stream :: "'v sys \<Rightarrow> 'v invoke_result \<Rightarrow> response_writer \<Rightarrow> goerr option outcome \<times> response_writer" where
  "respond_stream sys r w =
     (case settle_error r of (err, noRetry, retryAt) \<Rightarrow>
        (case err of
           Some e \<Rightarrow>
             (case Error e of
                None \<Rightarrow> (Panicked nil_deref, w)
              | Some m \<Rightarrow> (Returned None, Encode (stream_response sys 500 (JStr (''error calling function: '' @ m)) retryAt noRetry) w))
         | None \<Rightarrow>
             if iv_ops r \<noteq> [] then (Returned None, Encode (stream_response sys 206 (JArr (map (sy_op sys) (iv_ops r))) None False) w)
             else (case sy_value sys (iv_response r) of
                     None \<Rightarrow> (Returned (Some json_error), w)
                   | Some j \<Rightarrow> (Returned None, Encode (stream_response sys 200 j None False) w))))"

definition respond :: "'v sys \<Rightarrow> 'v invoke_result \<Rightarrow> response_writer \<Rightarrow> goerr option outcome \<times> response_writer" where
  "respond sys r w =
     (case settle_error r of (err, noRetry, retryAt) \<Rightarrow>
        let w1 = (if noRetry then rw_Add HeaderKeyNoRetry ''true'' w else w);
            w2 = (case retryAt of Some t \<Rightarrow> rw_Add HeaderKeyRetryAfter (sy_rfc3339 sys t) w1 | None \<Rightarrow> w1)
        in case err of
             Some e \<Rightarrow> (Returned (Some e), w2)
           | None \<Rightarrow>
               if iv_ops r \<noteq> [] then (Returned None, Encode (JArr (map (sy_op sys) (iv_ops r))) (WriteHeader 206 w2))
               else (case sy_value sys (iv_response r) of
                       None \<Rightarrow> (Returned (Some json_error), w2)
                     | Some j \<Rightarrow> (Returned None, Encode j w2)))"

definition bad_request :: "goerr \<Rightarrow> goerr" where
  "bad_request e = Errorf (sentinel_text errBadRequest @ '': '' @ fmt_err (CHR ''s'') e) [Sentinel errBadRequest]"

definition handler_invoke ::
  "'v sys \<Rightarrow> nat \<Rightarrow> ('w, 'v) handler \<Rightarrow> http_in \<Rightarrow> response_writer \<Rightarrow> 'w \<Rightarrow> goerr option outcome \<times> response_writer \<times> 'w" where
  "handler_invoke sys beats h r w world =
     (let opts = h_opts h; dev = isDev (sy_env sys) opts;
          sig = (if dev then [] else header_Get (ri_Header r) HeaderKeySignature)
      in if \<not> dev \<and> sig = [] then (Returned (Some (Sentinel errUnauthorized)), w, world)
         else case read_body opts r of
           None \<Rightarrow> (Returned (Some (bad_request too_large)), w, world)
         | Some byt \<Rightarrow>
             if \<not> fst (ValidateRequestSignature (sy_jcs sys) (sy_now sys) sig (GetSigningKey (sy_env sys) opts)
                         (GetSigningKeyFallback (sy_env sys) opts) byt dev)
             then (Returned (Some (Sentinel errUnauthorized)), w, world)
             else (case (case json_parse byt of None \<Rightarrow> None | Some j \<Rightarrow> Unmarshal_Request j) of
               None \<Rightarrow> (Returned (Some (bad_request json_error)), w, world)
             | Some request \<Rightarrow>
                 (let fnID = values_Get (url_Query (ri_URL r)) ''fnId'' in
                  case find_fn (sy_slugMake sys) h fnID of
                    None \<Rightarrow> (Returned (Some (Errorf (sentinel_text errFunctionMissing @ '': '' @ fnID) [Sentinel errFunctionMissing])), w, world)
                  | Some fn \<Rightarrow>
                      (let rawStepID = values_Get (url_Query (ri_URL r)) ''stepId'';
                           stepID = (if rawStepID \<noteq> [] \<and> rawStepID \<noteq> ''step'' then Some rawStepID else None);
                           w1 = (if ho_UseStreaming opts then ((rw_Write '' '') ^^ beats) (WriteHeader 201 w) else w)
                       in case invoke (sy_dur sys) (sy_stack sys) fn request stepID world of
                            (Returned res, world') \<Rightarrow>
                              (case (if ho_UseStreaming opts then respond_stream sys res w1 else respond sys res w1) of
                                 (oc, w2) \<Rightarrow> (oc, w2, world'))
                          | (Hijacked, world') \<Rightarrow> (Hijacked, w1, world')
                          | (Panicked p, world') \<Rightarrow> (Panicked p, w1, world')))))"

section \<open>Inspection and trust probe\<close>

definition inspect :: "'v sys \<Rightarrow> ('w, 'v) handler \<Rightarrow> http_in \<Rightarrow> response_writer \<Rightarrow> goerr option \<times> response_writer" where
  "inspect sys h r w =
     (let opts = h_opts h; sig = header_Get (ri_Header r) HeaderKeySignature;
          valid = (sig \<noteq> [] \<and> fst (ValidateRequestSignature (sy_jcs sys) (sy_now sys) sig (GetSigningKey (sy_env sys) opts)
                     (GetSigningKeyFallback (sy_env sys) opts) [] (isDev (sy_env sys) opts)))
      in if valid then
           (case createSecureInspection (sy_env sys) h of
              Inl e \<Rightarrow> (Some e, w)
            | Inr i \<Rightarrow> (None, Encode (JObj (secure_members i)) (rw_Set HeaderKeyContentType ''application/json'' w)))
         else (None, Encode (JObj (insecure_members (createInsecureInspection (sy_env sys) h (if sig \<noteq> [] then Some False else None))))
                       (rw_Set HeaderKeyContentType ''application/json'' w)))"

definition trust :: "'v sys \<Rightarrow> ('w, 'v) handler \<Rightarrow> http_in \<Rightarrow> response_writer \<Rightarrow> goerr option \<times> response_writer" where
  "trust sys h r w =
     (let opts = h_opts h in
      if isDev (sy_env sys) opts then (None, WriteHeader 200 w)
      else let w1 = rw_Add ''Content-Type'' ''application/json'' w; sig = header_Get (ri_Header r) HeaderKeySignature
        in if sig = [] then (Some (PublicErr (''missing '' @ HeaderKeySignature @ '' header'') 401 None), w1)
           else case read_body opts r of
             None \<Rightarrow> (Some (PublicErr (''error decoding function request: '' @ fmt_err (CHR ''s'') too_large) 400 None), w1)
           | Some byt \<Rightarrow>
               (case ValidateRequestSignature (sy_jcs sys) (sy_now sys) sig (GetSigningKey (sy_env sys) opts)
                       (GetSigningKeyFallback (sy_env sys) opts) byt False of
                  (valid, key, err) \<Rightarrow>
                    (case err of
                       Some e \<Rightarrow> (Some (PublicErr (''error validating signature: '' @ fmt_err (CHR ''s'') e) 401 None), w1)
                     | None \<Rightarrow>
                         if \<not> valid then (Some (PublicErr ''invalid signature'' 401 None), w1)
                         else let byt = json_text (JObj []);
                                  resSig = signWithoutJCS (sy_sign_now sys) (sy_sign_now sys) key byt
                           in (None, rw_Write byt (WriteHeader 200 (rw_Add ''X-Inngest-Signature'' resSig w1))))))"

text \<open>\<open>publicerr.WriteHTTP\<close>: any other error is written as an empty object, with the status that is in place.\<close>

definition WriteHTTP :: "goerr \<Rightarrow> response_writer \<Rightarrow> response_writer" where
  "WriteHTTP e w = (case e of
     PublicErr m status _ \<Rightarrow> Encode (JObj [(''error'', JStr m), (''data'', JNull), (''status'', JNum (Itoa status))]) (WriteHeader status w)
   | _ \<Rightarrow> Encode (JObj []) w)"

section \<open>ServeHTTP\<close>

definition invoke_status :: "goerr \<Rightarrow> int" where
  "invoke_status e =
     (if Is_sentinel errFunctionMissing (Some e) then 410
      else if Is_sentinel errBadRequest (Some e) then 400
      else if Is_sentinel errUnauthorized (Some e) then 401
      else 500)"

definition register_status :: "goerr \<Rightarrow> string \<times> int" where
  "register_status e = (case e of
     PublicErr m status (Some (SysErr code _)) \<Rightarrow> (code, status)
   | PublicErr m status _ \<Rightarrow> (''unknown'', status)
   | _ \<Rightarrow> (''unknown'', 500))"

text \<open>The public error that the branch for the trust probe writes.\<close>

definition public_error :: "goerr \<Rightarrow> goerr option" where
  "public_error e =
     (case errors_As (\<lambda>d. case d of PublicErr m st x \<Rightarrow> Some (m, st, x) | _ \<Rightarrow> None) e of
        Some (m, st, x) \<Rightarrow> Some (PublicErr m (if st = 0 then 500 else st) x)
      | None \<Rightarrow> map_option (\<lambda>m. PublicErr m 500 (Some e)) (Error e))"

definition ServeHTTP ::
  "'v sys \<Rightarrow> nat \<Rightarrow> client \<Rightarrow> ('w, 'v) handler \<Rightarrow> http_in \<Rightarrow> 'w \<Rightarrow> http_request list \<Rightarrow>
     unit outcome \<times> response_writer \<times> 'w \<times> http_request list" where
  "ServeHTTP sys beats Do h r world sent =
     (if \<not> ho_Logger (h_opts h) then (Panicked nil_deref, new_response, world, sent)
      else let w = SetBasicResponseHeaders new_response in
        if ri_Method r = ''GET'' then
          (case inspect sys h r w of
             (None, w') \<Rightarrow> (Returned (), w', world, sent)
           | (Some e, w') \<Rightarrow> (Returned (), WriteHTTP e w', world, sent))
        else if ri_Method r = ''POST'' then
          (if values_Get (url_Query (ri_URL r)) ''probe'' = ''trust'' then
             (case trust sys h r w of
                (None, w') \<Rightarrow> (Returned (), w', world, sent)
              | (Some e, w') \<Rightarrow>
                  (case public_error e of
                     None \<Rightarrow> (Panicked nil_deref, w', world, sent)
                   | Some pe \<Rightarrow> (Returned (), WriteHTTP pe w', world, sent)))
           else case handler_invoke sys beats h r w world of
             (Returned None, w', world') \<Rightarrow> (Returned (), w', world', sent)
           | (Returned (Some e), w', world') \<Rightarrow>
               (let w1 = rw_Set ''content-type'' ''application/json'' (WriteHeader (invoke_status e) w')
                in case Error e of
                     None \<Rightarrow> (Panicked nil_deref, w1, world', sent)
                   | Some m \<Rightarrow> (Returned (), Encode (JObj [(''message'', JStr m)]) w1, world', sent))
           | (Hijacked, w', world') \<Rightarrow> (Hijacked, w', world', sent)
           | (Panicked p, w', world') \<Rightarrow> (Panicked p, w', world', sent))
        else if ri_Method r = ''PUT'' then
          (case register sys Do h r w sent of
             (Returned None, w', sent') \<Rightarrow> (Returned (), w', world, sent')
           | (Returned (Some e), w', sent') \<Rightarrow>
               (case Error e of
                  None \<Rightarrow> (Panicked nil_deref, w', world, sent')
                | Some m \<Rightarrow>
                    (case register_status e of (code, status) \<Rightarrow>
                       (Returned (), Encode (JObj [(''code'', JStr code), (''message'', JStr m)])
                          (rw_Set ''Content-Type'' ''application/json'' (WriteHeader status w')), world, sent')))
           | (Hijacked, w', sent') \<Rightarrow> (Hijacked, w', world, sent')
           | (Panicked p, w', sent') \<Rightarrow> (Panicked p, w', world, sent'))
        else (Returned (), w, world, sent))"

section \<open>Who can make functions run\<close>

text \<open>The signature check a request goes through.\<close>

definition authentic :: "'v sys \<Rightarrow> HandlerOpts \<Rightarrow> http_in \<Rightarrow> bool" where
  "authentic sys opts r \<longleftrightarrow> isDev (sy_env sys) opts \<or>
     fst (ValidateRequestSignature (sy_jcs sys) (sy_now sys) (header_Get (ri_Header r) HeaderKeySignature)
       (GetSigningKey (sy_env sys) opts) (GetSigningKeyFallback (sy_env sys) opts) (ri_Body r) False)"

lemma ValidateRequestSignature_dev [simp]: "ValidateRequestSignature jcs now sig k f b True = (True, [], None)"
  by (simp add: ValidateRequestSignature_def)

lemma read_body_Some: "read_body opts r = Some b \<Longrightarrow> b = ri_Body r"
  by (auto simp: read_body_def split: if_splits)

lemma handler_invoke_unauthentic:
  assumes "\<not> authentic sys (h_opts h) r"
  shows "\<exists>e. handler_invoke sys beats h r w world = (Returned (Some e), w, world) \<and>
    (e = Sentinel errUnauthorized \<or> e = bad_request too_large \<and> read_body (h_opts h) r = None)"
  using assms read_body_Some [of "h_opts h" r]
  by (auto simp: handler_invoke_def authentic_def Let_def split: option.splits)

lemma new_response_unsent [simp]: "rw_sent new_response = None"
  by (simp add: new_response_def)

lemma status_Encode [simp]: "rw_status (Encode j w) = rw_status w"
  unfolding Encode_def rw_status_Write by (simp add: rw_status_def)

lemma invoke_status_simps [simp]:
  "invoke_status (Sentinel errUnauthorized) = 401" "invoke_status (bad_request e) = 400"
  "invoke_status (Errorf m [Sentinel errBadRequest]) = 400"
  "invoke_status (Errorf m [Sentinel errFunctionMissing]) = 410"
  by (simp_all add: invoke_status_def bad_request_def)

lemma Error_simps [simp]: "Error (bad_request e) \<noteq> None" "Error (Sentinel s) \<noteq> None"
  by (simp_all add: bad_request_def)

section \<open>Examples\<close>

definition sample_sys :: "int sys" where
  "sample_sys = \<lparr>sy_env = \<lambda>_. [], sy_jcs = Some, sy_now = time_Unix 1700000000 0, sy_sign_now = time_Unix 1700000000 0,
     sy_slugMake = \<lambda>n. n, sy_dur = \<lambda>_. [], sy_stack = [], sy_rfc3339 = \<lambda>_. [], sy_json_time = \<lambda>_. [],
     sy_value = \<lambda>v. Some (case v of Some i \<Rightarrow> JNum (Itoa i) | None \<Rightarrow> JNull), sy_op = \<lambda>op. JStr (op_Name op),
     sy_fn = \<lambda>c. JStr (sdk_Slug c), sy_fmt_s = \<lambda>_. []\<rparr>"

definition sample_handler :: "bool option \<Rightarrow> (int, int) handler" where
  "sample_handler dev = \<lparr>h_opts = no_handler_opts\<lparr>ho_Logger := True, ho_Dev := dev\<rparr>, h_appName = ''app'', h_funcs = [count_fn]\<rparr>"

definition sample_request :: "string \<Rightarrow> json \<Rightarrow> http_in" where
  "sample_request meth body = \<lparr>ri_Method = meth, ri_URL = zero_url\<lparr>url_RawQuery := ''fnId=app-counter''\<rparr>, ri_Header = [],
     ri_Body = json_text body, ri_Host = ''localhost'', ri_TLS = False, ri_RequestURI = ''/''\<rparr>"

definition event_body :: json where
  "event_body = JObj [(''event'', JObj [])]"

lemma sample_simps [simp]:
  "sy_env sample_sys = (\<lambda>_. [])" "sy_slugMake sample_sys = (\<lambda>n. n)" "sy_jcs sample_sys = Some"
  "sy_value sample_sys v = Some (case v of Some i \<Rightarrow> JNum (Itoa i) | None \<Rightarrow> JNull)" "sy_op sample_sys op = JStr (op_Name op)"
  "sy_sign_now sample_sys = time_Unix 1700000000 0"
  "h_opts (sample_handler dev) = no_handler_opts\<lparr>ho_Logger := True, ho_Dev := dev\<rparr>"
  "h_appName (sample_handler dev) = ''app''" "h_funcs (sample_handler dev) = [count_fn]"
  "ri_Method (sample_request meth body) = meth" "ri_Header (sample_request meth body) = []" "ri_Body (sample_request meth body) = json_text body"
  by (simp_all add: sample_sys_def sample_handler_def sample_request_def)

lemma sample_auth [simp]:
  "isDev env (no_handler_opts\<lparr>ho_Logger := l, ho_Dev := Some b\<rparr>) = b"
  "GetSigningKey (\<lambda>_. []) (no_handler_opts\<lparr>ho_Logger := l, ho_Dev := dev\<rparr>) = []"
  "GetSigningKeyFallback (\<lambda>_. []) (no_handler_opts\<lparr>ho_Logger := l, ho_Dev := dev\<rparr>) = []"
  "ho_UseStreaming no_handler_opts = False" "ho_URL no_handler_opts = None" "header_Get [] k = []"
  by (simp_all add: isDev_def GetSigningKey_def GetSigningKeyFallback_def no_handler_opts_def header_Get_def)

lemma unsigned_invalid [simp]: "fst (ValidateRequestSignature jcs now [] k [] b False) = False"
  by (simp add: ValidateRequestSignature_def validateRequestSignature_def values_Get_def)

lemma sample_query: "url_Query (ri_URL (sample_request meth body)) = [(''fnId'', ''app-counter'')]"
proof -
  have "ParseQuery ''fnId=app-counter'' = ([(''fnId'', ''app-counter'')], False)" by code_simp
  then show ?thesis by (simp add: sample_request_def url_Query_def)
qed

lemma event_body_parse: "json_parse (json_text event_body) = Some event_body"
  by code_simp

lemma event_body_members:
  "list_all (\<lambda>f. members f [(''event'', JObj [])] = []) [''events'', ''steps'', ''ctx'', ''use_api'']"
  "members ''event'' [(''event'', JObj [])] = [JObj []]"
  by code_simp+

lemma event_body_request: "Unmarshal_Request event_body = Some count_request"
  using event_body_members
  by (simp add: Unmarshal_Request_def event_body_def count_request_def zero_Request_def zero_CallCtx_def raw_list_field_def
      raw_map_field_def struct_field_def Unmarshal_CallCtx_def Unmarshal_CallStack_def bool_field_def string_field_def
      string_list_field_def uint_field_def int_field_def raw_field_def members_def [of _ "[]"])

lemma body_length: "int (length (json_text event_body)) = 12"
  by code_simp

lemma sample_invoke:
  "handler_invoke sample_sys beats (sample_handler (Some True)) (sample_request ''POST'' event_body) w 0 =
     (Returned None, Encode (JArr [JStr ''count'']) (WriteHeader 206 w), 1)"
  (is "?lhs = _")
proof -
  let ?h = "sample_handler (Some True)" and ?r = "sample_request ''POST'' event_body"
  have body: "read_body (h_opts ?h) ?r = Some (json_text event_body)"
    using body_length by (simp add: read_body_def body_limit_def no_handler_opts_def DefaultMaxBodySize_def)
  have fn: "find_fn (\<lambda>n. n) ?h ''app-counter'' = Some count_fn"
    by (simp add: find_fn_def Slug_def count_fn_def no_opts_def)
  have inv: "snd (invoke d stack count_fn count_request None 0) = 1" for d stack
    by (simp add: invoke_def example_defs)
  obtain x where x: "invoke (sy_dur sample_sys) (sy_stack sample_sys) count_fn count_request None 0 = x" by blast
  with count_invoke [of "sy_dur sample_sys" "sy_stack sample_sys"] inv [of "sy_dur sample_sys" "sy_stack sample_sys"]
  have run: "invoke (sy_dur sample_sys) (sy_stack sample_sys) count_fn count_request None 0 =
    (Returned \<lparr>iv_response = None, iv_ops = [(run_op OpcodeStepRun (MustHash \<lparr>uo_Op = OpcodeStep, uo_ID = ''count'', uo_Name = [], uo_Opts = None, uo_Pos = 0\<rparr>) ''count'')
       \<lparr>op_Data := Some (JNum (Itoa 1))\<rparr>], iv_err = None\<rparr>, 1)"
    by (cases x) auto
  show ?thesis
    unfolding handler_invoke_def Let_def body sample_query
    by (simp add: event_body_parse event_body_request values_Get_def fn run respond_def settle_error_def run_op_def)
qed

text \<open>C5: In cloud mode a request to invoke a function whose signature does not validate runs nothing: the world is untouched, and the
  answer is 401, or 400 when the body is over the limit and is not even read.\<close>

theorem unauthentic_invoke_rejected:
  assumes "ho_Logger (h_opts h)" "ri_Method r = ''POST''" "values_Get (url_Query (ri_URL r)) ''probe'' \<noteq> ''trust''"
    "\<not> authentic sys (h_opts h) r"
  shows "\<exists>w. ServeHTTP sys beats Do h r world sent = (Returned (), w, world, sent) \<and>
    rw_status w = (if read_body (h_opts h) r = None \<and> header_Get (ri_Header r) HeaderKeySignature \<noteq> [] then 400 else 401)"
proof -
  let ?w = "SetBasicResponseHeaders new_response"
  from handler_invoke_unauthentic [OF assms(4), of beats ?w world] obtain e where
    e: "handler_invoke sys beats h r ?w world = (Returned (Some e), ?w, world)"
    and kind: "e = Sentinel errUnauthorized \<or> e = bad_request too_large \<and> read_body (h_opts h) r = None" by blast
  have "e = bad_request too_large \<longleftrightarrow> read_body (h_opts h) r = None \<and> header_Get (ri_Header r) HeaderKeySignature \<noteq> []"
    using e kind assms(4) by (auto simp: handler_invoke_def authentic_def Let_def bad_request_def split: option.splits if_splits)
  with kind assms e show ?thesis by (auto simp: ServeHTTP_def Let_def bad_request_def)
qed

theorem unauthentic_invoke_rejected_witness:
  "\<exists>w. ServeHTTP sample_sys 0 (\<lambda>_ _. Inl json_error) (sample_handler (Some False)) (sample_request ''POST'' event_body) 0 [] =
     (Returned (), w, 0, []) \<and> rw_status w = 401"
  using unauthentic_invoke_rejected [of "sample_handler (Some False)" "sample_request ''POST'' event_body" sample_sys 0 "\<lambda>_ _. Inl json_error" 0 "[]"]
  by (simp add: sample_query values_Get_def authentic_def)

text \<open>C4: User code runs for one kind of request only: if serving a request changed the world, it was a POST that is no trust probe, it was
  authentic (or the handler is in dev mode), and a registered function matched its \<open>fnId\<close>.\<close>

theorem world_changes_only_by_invoke:
  assumes "fst (snd (snd (ServeHTTP sys beats Do h r world sent))) \<noteq> world"
  shows "ri_Method r = ''POST'' \<and> values_Get (url_Query (ri_URL r)) ''probe'' \<noteq> ''trust'' \<and> authentic sys (h_opts h) r \<and>
    find_fn (sy_slugMake sys) h (values_Get (url_Query (ri_URL r)) ''fnId'') \<noteq> None"
proof -
  let ?w = "SetBasicResponseHeaders new_response"
  have post: "ri_Method r = ''POST''" "values_Get (url_Query (ri_URL r)) ''probe'' \<noteq> ''trust''"
    and inv: "snd (snd (handler_invoke sys beats h r ?w world)) \<noteq> world"
    using assms by (auto simp: ServeHTTP_def Let_def split: if_splits prod.splits option.splits outcome.splits)
  have "authentic sys (h_opts h) r"
  proof (rule ccontr)
    assume "\<not> authentic sys (h_opts h) r"
    from handler_invoke_unauthentic [OF this, of beats ?w world] inv show False by auto
  qed
  moreover have "find_fn (sy_slugMake sys) h (values_Get (url_Query (ri_URL r)) ''fnId'') \<noteq> None"
  proof
    assume "find_fn (sy_slugMake sys) h (values_Get (url_Query (ri_URL r)) ''fnId'') = None"
    then have "snd (snd (handler_invoke sys beats h r ?w world)) = world"
      by (simp add: handler_invoke_def Let_def split: option.splits)
    with inv show False ..
  qed
  ultimately show ?thesis using post by blast
qed

theorem world_changes_only_by_invoke_witness:
  "authentic sample_sys (h_opts (sample_handler (Some True))) (sample_request ''POST'' event_body)"
proof (rule world_changes_only_by_invoke [THEN conjunct2, THEN conjunct2, THEN conjunct1])
  show "fst (snd (snd (ServeHTTP sample_sys 0 (\<lambda>_ _. Inl json_error) (sample_handler (Some True)) (sample_request ''POST'' event_body) 0 []))) \<noteq> 0"
    using sample_invoke [of 0 "SetBasicResponseHeaders new_response"] sample_query [of "''POST''" event_body]
    by (simp add: ServeHTTP_def Let_def values_Get_def)
qed

section \<open>What the service is told\<close>

text \<open>The answer to an invocation that was authentic, well-formed and found its function.\<close>

lemma handler_invoke_called:
  assumes "authentic sys (h_opts h) r" "read_body (h_opts h) r = Some byt" "json_parse byt = Some j" "Unmarshal_Request j = Some request"
    "find_fn (sy_slugMake sys) h (values_Get (url_Query (ri_URL r)) ''fnId'') = Some fn" "\<not> ho_UseStreaming (h_opts h)"
    "values_Get (url_Query (ri_URL r)) ''stepId'' = sid" "stepID = (if sid \<noteq> [] \<and> sid \<noteq> ''step'' then Some sid else None)"
    "invoke (sy_dur sys) (sy_stack sys) fn request stepID world = (Returned res, world')"
  shows "handler_invoke sys beats h r w world = (fst (respond sys res w), snd (respond sys res w), world')"
proof -
  have sig: "isDev (sy_env sys) (h_opts h) \<or> header_Get (ri_Header r) HeaderKeySignature \<noteq> []"
    using assms(1) by (auto simp: authentic_def ValidateRequestSignature_def validateRequestSignature_def values_Get_def split: if_splits)
  show ?thesis
    using assms sig read_body_Some [OF assms(2)] unfolding authentic_def
    by (cases "isDev (sy_env sys) (h_opts h)") (auto simp: handler_invoke_def Let_def split: prod.splits)
qed

lemma rw_status_unsent: "rw_sent w = None \<Longrightarrow> rw_status w = 200"
  by (simp add: rw_status_def)

lemma respond_status:
  "rw_sent w = None \<Longrightarrow> fst (respond sys res w) = Returned None \<Longrightarrow>
     rw_status (snd (respond sys res w)) = (if iv_ops res \<noteq> [] then 206 else 200)"
  by (auto simp: respond_def Let_def rw_status_unsent split: option.splits prod.splits if_splits)

text \<open>C6: The status code tells the service what to do next. For an authentic request that names a registered function and carries a
  well-formed body, with streaming off: an error that is left gives the status of its kind (500 unless it wraps one of the handler's
  own errors), otherwise opcodes to store give 206, otherwise the function is done and gives 200.\<close>

theorem invoke_http_status:
  assumes "ho_Logger (h_opts h)" "ri_Method r = ''POST''" "values_Get (url_Query (ri_URL r)) ''probe'' \<noteq> ''trust''"
    and "authentic sys (h_opts h) r" "read_body (h_opts h) r = Some byt" "json_parse byt = Some j" "Unmarshal_Request j = Some request"
    "find_fn (sy_slugMake sys) h (values_Get (url_Query (ri_URL r)) ''fnId'') = Some fn" "\<not> ho_UseStreaming (h_opts h)"
    "values_Get (url_Query (ri_URL r)) ''stepId'' = sid" "stepID = (if sid \<noteq> [] \<and> sid \<noteq> ''step'' then Some sid else None)"
    "invoke (sy_dur sys) (sy_stack sys) fn request stepID world = (Returned res, world')"
    and "settle_error res = (err, noRetry, retryAt)" "sy_value sys (iv_response res) \<noteq> None"
  shows "\<exists>oc w. ServeHTTP sys beats Do h r world sent = (oc, w, world', sent) \<and>
    rw_status w = (case err of Some e \<Rightarrow> invoke_status e | None \<Rightarrow> if iv_ops res \<noteq> [] then 206 else 200)"
proof -
  let ?w = "SetBasicResponseHeaders new_response"
  have inv: "handler_invoke sys beats h r ?w world = (fst (respond sys res ?w), snd (respond sys res ?w), world')"
    by (rule handler_invoke_called [OF assms(4-12)])
  show ?thesis
  proof (cases err)
    case None
    with assms(13,14) have "fst (respond sys res ?w) = Returned None" by (auto simp: respond_def Let_def)
    with inv respond_status [of ?w sys res] None assms(1-3) show ?thesis by (auto simp: ServeHTTP_def Let_def)
  next
    case (Some e)
    with assms(13) have r: "fst (respond sys res ?w) = Returned (Some e)" "rw_sent (snd (respond sys res ?w)) = None"
      by (auto simp: respond_def Let_def split: option.splits)
    with inv Some assms(1-3) show ?thesis by (cases "Error e") (auto simp: ServeHTTP_def Let_def)
  qed
qed

theorem invoke_http_status_witness:
  "\<exists>oc w. ServeHTTP sample_sys 0 (\<lambda>_ _. Inl json_error) (sample_handler (Some True)) (sample_request ''POST'' event_body) 0 [] =
     (oc, w, 1, []) \<and> rw_status w = 206"
proof -
  let ?op = "(run_op OpcodeStepRun (MustHash \<lparr>uo_Op = OpcodeStep, uo_ID = ''count'', uo_Name = [], uo_Opts = None, uo_Pos = 0\<rparr>) ''count'')
       \<lparr>op_Data := Some (JNum (Itoa 1))\<rparr>"
  let ?res = "\<lparr>iv_response = None, iv_ops = [?op], iv_err = None\<rparr>"
  have "snd (invoke (sy_dur sample_sys) (sy_stack sample_sys) count_fn count_request None 0) = 1" by (simp add: invoke_def example_defs)
  with count_invoke have "invoke (sy_dur sample_sys) (sy_stack sample_sys) count_fn count_request None 0 = (Returned ?res, 1)"
    by (metis prod.collapse)
  moreover have "read_body (no_handler_opts\<lparr>ho_Logger := True, ho_Dev := Some True\<rparr>) (sample_request ''POST'' event_body) = Some (json_text event_body)"
    using body_length by (simp add: read_body_def body_limit_def no_handler_opts_def DefaultMaxBodySize_def)
  moreover have "settle_error ?res = (None, False, None)" by (simp add: settle_error_def run_op_def)
  moreover have "find_fn (\<lambda>n. n) (sample_handler (Some True)) ''app-counter'' = Some count_fn"
    by (simp add: find_fn_def Slug_def count_fn_def no_opts_def)
  ultimately show ?thesis
    using invoke_http_status [of "sample_handler (Some True)" "sample_request ''POST'' event_body" sample_sys "json_text event_body" event_body
      count_request count_fn "[]" None 0 ?res 1 None False None 0 "\<lambda>_ _. Inl json_error" "[]"]
    by (simp add: sample_query values_Get_def authentic_def event_body_parse event_body_request)
qed

lemma final_header_Encode [simp]:
  "rw_final_header (Encode j w) = rw_final_header w"
  by (simp add: Encode_def rw_Write_def rw_final_header_def WriteHeader_def Let_def split: option.splits)

lemma final_header_WriteHeader: "rw_sent w = None \<Longrightarrow> rw_final_header (WriteHeader c w) = rw_header w"
  by (simp add: rw_final_header_def WriteHeader_def)

lemma rw_header_Add: "rw_header (rw_Add k v w) = rw_header w @ [(CanonicalHeaderKey k, v)]"
  by (simp add: rw_Add_def header_Add_def)

lemma canonical_keys:
  "map_of (rw_header (SetBasicResponseHeaders new_response)) (CanonicalHeaderKey HeaderKeyNoRetry) = None"
  "map_of (rw_header (SetBasicResponseHeaders new_response)) (CanonicalHeaderKey HeaderKeyRetryAfter) = None"
  "map_of (rw_header (SetBasicResponseHeaders new_response)) (CanonicalHeaderKey HeaderKeySignature) = None"
  "CanonicalHeaderKey HeaderKeyNoRetry \<noteq> CanonicalHeaderKey HeaderKeyRetryAfter"
  "CanonicalHeaderKey HeaderKeyRetryAfter \<noteq> CanonicalHeaderKey HeaderKeyNoRetry"
  "CanonicalHeaderKey HeaderKeySignature \<noteq> CanonicalHeaderKey HeaderKeyContentType"
  "CanonicalHeaderKey HeaderKeySignature \<noteq> CanonicalHeaderKey HeaderKeySyncKind"
  by code_simp+

text \<open>A failed step is reported as progress, not as a failed request: when the only opcode of an invocation is a \<open>StepError\<close>, the
  answer is 206 with the opcode, whatever the error is, and the error decides the retry headers only: no-retry exactly for a
  \<open>NoRetryError\<close> and retry-after exactly for a \<open>RetryAtError\<close>.\<close>

theorem step_error_response:
  assumes "iv_ops res = [op]" "op_Op op = OpcodeStepError" and w: "w = SetBasicResponseHeaders new_response"
  shows "fst (respond sys res w) = Returned None \<and> rw_status (snd (respond sys res w)) = 206 \<and>
    header_Get (rw_final_header (snd (respond sys res w))) HeaderKeyNoRetry = (if IsNoRetryError (iv_err res) then ''true'' else []) \<and>
    header_Get (rw_final_header (snd (respond sys res w))) HeaderKeyRetryAfter =
      (case GetRetryAtTime (iv_err res) of Some t \<Rightarrow> sy_rfc3339 sys t | None \<Rightarrow> [])"
proof -
  let ?w1 = "if IsNoRetryError (iv_err res) then rw_Add HeaderKeyNoRetry ''true'' w else w"
  let ?w2 = "case GetRetryAtTime (iv_err res) of Some t \<Rightarrow> rw_Add HeaderKeyRetryAfter (sy_rfc3339 sys t) ?w1 | None \<Rightarrow> ?w1"
  have resp: "respond sys res w = (Returned None, Encode (JArr [sy_op sys op]) (WriteHeader 206 ?w2))"
    using assms(1,2) by (simp add: respond_def settle_error_def Let_def)
  have unsent: "rw_sent ?w2 = None" by (simp add: w split: option.splits)
  have plain: "header_Get (rw_header w) HeaderKeyNoRetry = []" "header_Get (rw_header w) HeaderKeyRetryAfter = []"
    by (simp_all add: w header_Get_def canonical_keys)
  have "header_Get (rw_header ?w2) HeaderKeyNoRetry = (if IsNoRetryError (iv_err res) then ''true'' else [])"
    "header_Get (rw_header ?w2) HeaderKeyRetryAfter = (case GetRetryAtTime (iv_err res) of Some t \<Rightarrow> sy_rfc3339 sys t | None \<Rightarrow> [])"
    using plain by (auto simp: rw_header_Add header_Get_def map_add_def canonical_keys w split: option.splits)
  then show ?thesis using unsent by (simp add: resp final_header_WriteHeader)
qed

theorem step_error_response_witness:
  "rw_status (snd (respond sample_sys \<lparr>iv_response = None, iv_ops = [run_op OpcodeStepError [] ''s''], iv_err = Some (NoRetryError (Some json_error))\<rparr>
     (SetBasicResponseHeaders new_response))) = 206"
  using step_error_response [where op = "run_op OpcodeStepError [] ''s''" and sys = sample_sys and w = "SetBasicResponseHeaders new_response"
      and res = "\<lparr>iv_response = None, iv_ops = [run_op OpcodeStepError [] ''s''], iv_err = Some (NoRetryError (Some json_error))\<rparr>"]
  by (simp add: run_op_def)

text \<open>Secrets of an inspection: a GET without a valid signature is answered 200 with the insecure inspection, which holds no key hashes,
  origins or names, and says whether authentication failed.\<close>

theorem inspect_unauthenticated:
  assumes "ho_Logger (h_opts h)" "ri_Method r = ''GET''"
    and "sig = header_Get (ri_Header r) HeaderKeySignature"
    and "sig = [] \<or> \<not> fst (ValidateRequestSignature (sy_jcs sys) (sy_now sys) sig (GetSigningKey (sy_env sys) (h_opts h))
       (GetSigningKeyFallback (sy_env sys) (h_opts h)) [] (isDev (sy_env sys) (h_opts h)))"
  shows "\<exists>w. ServeHTTP sys beats Do h r world sent = (Returned (), w, world, sent) \<and> rw_status w = 200 \<and>
    rw_body w = json_text (JObj (insecure_members (createInsecureInspection (sy_env sys) h (if sig \<noteq> [] then Some False else None)))) @ [CHR 0x0A]"
  using assms by (auto simp: ServeHTTP_def inspect_def Let_def Encode_def rw_Write_def rw_status_unsent WriteHeader_def rw_status_def new_response_def)

theorem inspect_unauthenticated_witness:
  "\<exists>w. ServeHTTP sample_sys 0 (\<lambda>_ _. Inl json_error) (sample_handler None) (sample_request ''GET'' JNull) 0 [] = (Returned (), w, 0, []) \<and>
     rw_status w = 200"
  using inspect_unauthenticated [of "sample_handler None" "sample_request ''GET'' JNull" "[]" sample_sys 0 "\<lambda>_ _. Inl json_error" 0 "[]"]
  by auto

text \<open>\<open>SetOptions\<close> fills in the defaults of its own copy of the options after it stored them: a handler whose options were set without a
  logger panics on every request, while one made by \<open>NewHandler\<close> with the same options has a logger.\<close>

theorem SetOptions_without_logger:
  "fst (ServeHTTP sys beats Do (SetOptions (opts\<lparr>ho_Logger := False\<rparr>) h) r world sent) = Panicked nil_deref \<and>
   ho_Logger (h_opts (NewHandler name (opts\<lparr>ho_Logger := False\<rparr>)))"
  by (simp add: ServeHTTP_def SetOptions_def NewHandler_def)

end
