(* ===== verification/SyncProps.thy ===== *)
theory SyncProps
  imports Serve
begin

text \<open>
  Properties of registration: the URLs that are registered lead back to their functions, the in-band response is
  signed, and an unauthenticated sync discloses nothing.
\<close>

section \<open>Registered URLs\<close>

lemma fn_url_Query [simp]:
  "values_Get (url_Query (fn_url slug u)) ''fnId'' = slug" "values_Get (url_Query (fn_url slug u)) ''step'' = ''step''"
  by (simp_all add: fn_url_def url_Query_def ParseQuery_Encode)

lemma values_Get_neq:
  "values_Get (url_Query (fn_url slug u)) k = (if k = ''fnId'' then slug else if k = ''step'' then ''step'' else values_Get (url_Query u) k)"
  by (simp add: fn_url_def url_Query_def [of "u\<lparr>url_RawQuery := _\<rparr>"] ParseQuery_Encode)

lemma fn_url_base [simp]: "(fn_url slug u)\<lparr>url_RawQuery := q\<rparr> = u\<lparr>url_RawQuery := q\<rparr>"
  by (simp add: fn_url_def)

text \<open>The configuration of each function names the function's slug twice: as its ID, and in a URL built from the app's.\<close>

definition leads_to :: "string \<Rightarrow> url \<Rightarrow> SDKFunction \<Rightarrow> bool" where
  "leads_to slug base c \<longleftrightarrow> sdk_Slug c = slug \<and>
     (\<exists>u. sdk_URL c = url_String u \<and> values_Get (url_Query u) ''fnId'' = slug \<and> values_Get (url_Query u) ''stepId'' = values_Get (url_Query base) ''stepId'' \<and>
        u\<lparr>url_RawQuery := []\<rparr> = base\<lparr>url_RawQuery := []\<rparr>)"

lemma fn_configs_lead:
  "fn_configs sm app fns base = Returned cs \<Longrightarrow> list_all2 (\<lambda>fn c. leads_to (Slug sm fn app) base c) fns cs"
proof (induction sm app fns base arbitrary: cs rule: fn_configs.induct)
  case (2 sm app fn fns base)
  let ?slug = "Slug sm fn app"
  let ?u = "fn_url ?slug base"
  from 2(2) obtain t cs' where t: "config_trigger (sf_trigger fn) = Some t" and rest: "fn_configs sm app fns ?u = Returned cs'"
    and cs: "cs = fn_config fn ?slug ?u t # cs'"
    by (auto simp: Let_def split: option.splits outcome.splits)
  have "leads_to s ?u c \<Longrightarrow> leads_to s base c" for s c
    by (auto simp: leads_to_def values_Get_neq)
  with 2(1) [OF _ _ t rest] have "list_all2 (\<lambda>fn c. leads_to (Slug sm fn app) base c) fns cs'"
    by (auto elim: list_all2_mono)
  moreover have "leads_to ?slug base (fn_config fn ?slug ?u t)"
    by (auto simp: leads_to_def fn_config_def Let_def values_Get_neq intro!: exI [of _ ?u])
  ultimately show ?case by (simp add: cs)
qed simp

text \<open>C11: Registration and invocation agree. If the handler registers its functions without error, every configuration carries its
  function's slug as ID and a URL that differs from the app's in the query only, and the \<open>fnId\<close> of that query makes the
  handler's lookup find this very function (provided no bare function ID equals another function's full slug).\<close>

theorem registered_urls_resolve:
  assumes "createFunctionConfigs sm (h_appName h) (h_funcs h) base conn = Returned (Inr cs)"
    and "distinct (map (\<lambda>f. Slug sm f (h_appName h)) (h_funcs h))"
    and "\<forall>f \<in> set (h_funcs h). \<forall>g \<in> set (h_funcs h). Slug sm g [] = Slug sm f (h_appName h) \<longrightarrow> g = f"
  shows "list_all2 (\<lambda>f c. sdk_Slug c = Slug sm f (h_appName h) \<and>
     (\<exists>u. sdk_URL c = url_String u \<and> u\<lparr>url_RawQuery := []\<rparr> = base\<lparr>url_RawQuery := []\<rparr> \<and>
        find_fn sm h (values_Get (url_Query u) ''fnId'') = Some f)) (h_funcs h) cs"
proof -
  have "fn_configs sm (h_appName h) (h_funcs h) base = Returned cs"
    using assms(1) by (auto simp: createFunctionConfigs_def split: if_splits outcome.splits)
  from fn_configs_lead [OF this] have l: "list_all2 (\<lambda>f c. leads_to (Slug sm f (h_appName h)) base c) (h_funcs h) cs" .
  have "find_fn sm h (Slug sm f (h_appName h)) = Some f" if "f \<in> set (h_funcs h)" for f
    using that assms(2,3) by (intro find_fn_own) auto
  with l show ?thesis by (fastforce simp: list_all2_conv_all_nth leads_to_def)
qed

theorem registered_urls_resolve_witness:
  "\<exists>c u. createFunctionConfigs (\<lambda>n. n) ''app'' [count_fn] (zero_url\<lparr>url_Host := ''localhost''\<rparr>) False = Returned (Inr [c]) \<and>
     sdk_URL c = url_String u \<and> find_fn (\<lambda>n. n) (sample_handler None) (values_Get (url_Query u) ''fnId'') = Some count_fn"
proof -
  let ?base = "zero_url\<lparr>url_Host := ''localhost''\<rparr>"
  have ne: "?base \<noteq> zero_url" by (simp add: zero_url_def)
  obtain c where c: "createFunctionConfigs (\<lambda>n. n) ''app'' [count_fn] ?base False = Returned (Inr [c])"
    using ne by (simp add: createFunctionConfigs_def count_fn_def CronTrigger_def config_trigger_def Let_def)
  have "list_all2 (\<lambda>f c. sdk_Slug c = Slug (\<lambda>n. n) f ''app'' \<and>
     (\<exists>u. sdk_URL c = url_String u \<and> u\<lparr>url_RawQuery := []\<rparr> = ?base\<lparr>url_RawQuery := []\<rparr> \<and>
        find_fn (\<lambda>n. n) (sample_handler None) (values_Get (url_Query u) ''fnId'') = Some f)) [count_fn] [c]"
    using registered_urls_resolve [of "\<lambda>n. n" "sample_handler None" ?base False "[c]"] c by simp
  with c show ?thesis by auto
qed

section \<open>In-band sync\<close>

lemma trim_json: "trim_newline (json_text (JObj kvs) @ [CHR 0x0A]) = json_text (JObj kvs)"
  by (simp add: trim_newline_def del: json_text.simps)

lemma final_header_unsent: "rw_sent w = None \<Longrightarrow> rw_final_header w = rw_header w"
  by (simp add: rw_final_header_def)

lemma sync_response_shape:
  assumes "sync_response sys h skey u w = (Returned None, w')"
  shows "\<exists>kvs. w' = Encode (JObj kvs) (rw_Add HeaderKeySyncKind SyncKindInBand (rw_Add HeaderKeyContentType ''application/json''
    (rw_Add HeaderKeySignature (signWithoutJCS (sy_sign_now sys) (sy_sign_now sys) skey (json_text (JObj kvs))) w)))"
proof -
  from assms obtain fns i where w': "w' = Encode (inBandSynchronizeResponse sys h fns i u) (rw_Add HeaderKeySyncKind SyncKindInBand
      (rw_Add HeaderKeyContentType ''application/json'' (rw_Add HeaderKeySignature (signWithoutJCS (sy_sign_now sys) (sy_sign_now sys) skey
        (json_text (inBandSynchronizeResponse sys h fns i u))) w)))"
    by (auto simp: sync_response_def Let_def split: outcome.splits sum.splits)
  obtain kvs where "inBandSynchronizeResponse sys h fns i u = JObj kvs" by (simp add: inBandSynchronizeResponse_def)
  with w' show ?thesis by (intro exI [of _ kvs]) (simp only:)
qed

lemma inBandSync_shape:
  assumes "inBandSync sys h r w = (Returned None, w')"
  shows "authentic sys (h_opts h) r \<and> (\<exists>u. sync_response sys h
    (fst (snd (ValidateRequestSignature (sy_jcs sys) (sy_now sys)
      (if isDev (sy_env sys) (h_opts h) then [] else header_Get (ri_Header r) HeaderKeySignature)
      (GetSigningKey (sy_env sys) (h_opts h)) (GetSigningKeyFallback (sy_env sys) (h_opts h)) (ri_Body r) (isDev (sy_env sys) (h_opts h))))) u w
    = (Returned None, w'))"
  using assms read_body_Some [of "h_opts h" r]
  by (cases "isDev (sy_env sys) (h_opts h)")
    (auto simp: inBandSync_def authentic_def Let_def split: if_splits option.splits prod.splits)

text \<open>C12: Outside dev mode a successful in-band sync is authenticated in both directions. The request carried a signature that validates for its body under the signing key
  or the fallback key, and the signature header of the response validates for the response's body under that same key, for five minutes; the latter for a key with at most one
  \<open>signkey-...-\<close> prefix, since the validator strips prefixes twice and the signer once. (In dev mode requests are not checked and the response is signed with the empty key.)\<close>

theorem inBandSync_signed:
  assumes "\<not> isDev (sy_env sys) (h_opts h)" "inBandSync sys h r (SetBasicResponseHeaders new_response) = (Returned None, w')"
    and "clock_set now" "clock_set (sy_sign_now sys)" "time_Sub now (time_Unix (Unix (sy_sign_now sys)) 0) \<le> 5 * Minute"
  shows "\<exists>skey. (skey = GetSigningKey (sy_env sys) (h_opts h) \<or> skey = GetSigningKeyFallback (sy_env sys) (h_opts h) \<and> skey \<noteq> []) \<and>
    validateRequestSignature (sy_jcs sys) (sy_now sys) (header_Get (ri_Header r) HeaderKeySignature) skey (ri_Body r) = (True, None) \<and>
    (normalizeKey (normalizeKey skey) = normalizeKey skey \<longrightarrow>
       ValidateResponseSignature now (header_Get (rw_final_header w') HeaderKeySignature) skey (rw_body w') = (True, None))"
proof -
  let ?w = "SetBasicResponseHeaders new_response" and ?sig = "header_Get (ri_Header r) HeaderKeySignature"
    and ?k = "GetSigningKey (sy_env sys) (h_opts h)" and ?fb = "GetSigningKeyFallback (sy_env sys) (h_opts h)"
  define skey where "skey = fst (snd (ValidateRequestSignature (sy_jcs sys) (sy_now sys) ?sig ?k ?fb (ri_Body r) False))"
  from inBandSync_shape [OF assms(2)] assms(1) obtain u where auth: "authentic sys (h_opts h) r"
    and resp: "sync_response sys h skey u ?w = (Returned None, w')" by (auto simp: skey_def)
  from auth assms(1) have key: "(skey = ?k \<or> skey = ?fb \<and> skey \<noteq> []) \<and> validateRequestSignature (sy_jcs sys) (sy_now sys) ?sig skey (ri_Body r) = (True, None)"
    unfolding authentic_def skey_def signing_key_fallback using validate_True by (auto split: if_splits)
  from sync_response_shape [OF resp] obtain kvs where
    w': "w' = Encode (JObj kvs) (rw_Add HeaderKeySyncKind SyncKindInBand (rw_Add HeaderKeyContentType ''application/json''
      (rw_Add HeaderKeySignature (signWithoutJCS (sy_sign_now sys) (sy_sign_now sys) skey (json_text (JObj kvs))) ?w)))" by blast
  have hd: "header_Get (rw_final_header w') HeaderKeySignature =
      signWithoutJCS (sy_sign_now sys) (sy_sign_now sys) skey (json_text (JObj kvs))"
    by (simp add: w' final_header_unsent rw_header_Add header_Get_def canonical_keys map_add_def del: json_text.simps)
  have body: "rw_body w' = json_text (JObj kvs) @ [CHR 0x0A]"
    by (simp add: w' Encode_def rw_Write_def WriteHeader_def new_response_def Let_def del: json_text.simps)
  show ?thesis
    unfolding hd body using key response_accepted [OF assms(3-5) _ trim_json] by blast
qed

definition sync_body :: json where
  "sync_body = JObj [(''url'', JStr ''http://a'')]"

lemma sync_body_facts:
  "json_parse (json_text sync_body) = Some sync_body" "int (length (json_text sync_body)) = 18"
  "Unmarshal_syncRequest sync_body = Some ''http://a''" "url_Parse ''http://a'' = Some (zero_url\<lparr>url_Scheme := ''http'', url_Host := ''a''\<rparr>)"
  by code_simp+

definition signed_sys :: "int sys" where
  "signed_sys = sample_sys\<lparr>sy_env := \<lambda>n. if n = ''INNGEST_SIGNING_KEY'' then ''ab'' else []\<rparr>"

definition signed_request :: http_in where
  "signed_request = (sample_request ''PUT'' sync_body)\<lparr>ri_Header :=
     header_Set [] HeaderKeySignature (Sign Some (time_Unix 1700000000 0) (time_Unix 1700000000 0) ''ab'' (json_text sync_body))\<rparr>"

lemma signed_simps:
  "GetSigningKey (sy_env signed_sys) (h_opts (sample_handler (Some False))) = ''ab''" "GetSigningKeyFallback (sy_env signed_sys) (h_opts (sample_handler (Some False))) = []"
  "sy_jcs signed_sys = Some" "sy_now signed_sys = time_Unix 1700000000 0" "sy_sign_now signed_sys = time_Unix 1700000000 0" "sy_slugMake signed_sys = (\<lambda>n. n)"
  "ri_Body signed_request = json_text sync_body"
  "header_Get (ri_Header signed_request) HeaderKeySignature = Sign Some (time_Unix 1700000000 0) (time_Unix 1700000000 0) ''ab'' (json_text sync_body)"
  by (simp_all add: signed_sys_def signed_request_def GetSigningKey_def GetSigningKeyFallback_def no_handler_opts_def, simp_all add: sample_sys_def)

lemma signed_valid: "ValidateRequestSignature Some (time_Unix 1700000000 0) (Sign Some (time_Unix 1700000000 0) (time_Unix 1700000000 0) ''ab'' b) ''ab'' [] b False = (True, ''ab'', None)"
proof -
  have "normalizeKey ''ab'' = ''ab''" by code_simp
  then have "fst (validateRequestSignature Some (time_Unix 1700000000 0) (Sign Some (time_Unix 1700000000 0) (time_Unix 1700000000 0) ''ab'' b) ''ab'' b)"
    by (intro req.accepts_own) (simp_all add: clock_set_sample clock_set_not_zero fresh_def signatureTimeDeltaMax_def is_int64_def Minute_def Second_def)
  from validate_True [OF this] show ?thesis by (simp add: ValidateRequestSignature_def)
qed

theorem inBandSync_signed_witness:
  "\<exists>w'. inBandSync signed_sys (sample_handler (Some False)) signed_request (SetBasicResponseHeaders new_response) = (Returned None, w') \<and>
     ValidateResponseSignature (time_Unix 1700000000 0) (header_Get (rw_final_header w') HeaderKeySignature) ''ab'' (rw_body w') = (True, None)"
proof -
  let ?h = "sample_handler (Some False)" and ?w = "SetBasicResponseHeaders new_response"
  have body: "read_body (h_opts ?h) signed_request = Some (json_text sync_body)"
    using sync_body_facts(2) by (simp add: read_body_def body_limit_def no_handler_opts_def DefaultMaxBodySize_def signed_simps)
  have key: "normalizeKey ''ab'' = ''ab''" "hex_decode ''ab'' \<noteq> None" by code_simp+
  then obtain k where k: "hashedSigningKey ''ab'' = Inr k" by (auto simp: hashedSigningKey_def)
  have sig: "Sign Some t t k b \<noteq> []" for t k b by (simp add: Sign_alt Let_def sig_text_def)
  have "zero_url\<lparr>url_Scheme := ''http'', url_Host := ''a''\<rparr> \<noteq> zero_url" by (simp add: zero_url_def)
  then obtain w' where w': "inBandSync signed_sys ?h signed_request ?w = (Returned None, w')"
    unfolding inBandSync_def Let_def body signed_simps
    by (simp add: sync_body_facts Validate_syncRequest_def sync_response_def createFunctionConfigs_def count_fn_def CronTrigger_def sig signed_valid signed_simps [simplified]
        config_trigger_def createSecureInspection_def key_hash_of_def k Let_def del: json_text.simps)
  have "time_Sub (time_Unix 1700000000 0) (time_Unix (Unix (time_Unix 1700000000 0)) 0) \<le> 5 * Minute" by (simp add: is_int64_def Minute_def Second_def)
  from inBandSync_signed [OF _ w' clock_set_sample, unfolded signed_simps, OF _ clock_set_sample this] w' key(1) show ?thesis by auto
qed

end
