(* ===== verification/Client.thy ===== *)
theory Client
  imports Sync
begin

text \<open>
  Sending events, \<open>client.go\<close>, and the event types of \<open>event.go\<close>. A value passed to \<open>Send\<close> is known by the result of its
  \<open>Validate\<close> method, if it has one, and by its JSON encoding. The HTTP client is the parameter \<open>Do\<close> of \<open>Net\<close>.

  A value of Go type \<open>any\<close> is a JSON tree. Decoding into \<open>any\<close> turns a number into a \<open>float64\<close>;
  \<open>flt\<close> gives the text that number is written with afterwards.
\<close>

section \<open>event.go\<close>

record Event =
  ev_ID :: "string option"
  ev_Name :: string
  ev_Data :: "(string \<times> json) list option"
  ev_User :: "json option"
  ev_Timestamp :: int
  ev_Version :: string

definition zero_Event :: Event where
  "zero_Event = \<lparr>ev_ID = None, ev_Name = [], ev_Data = None, ev_User = None, ev_Timestamp = 0, ev_Version = []\<rparr>"

definition Event_Validate :: "Event \<Rightarrow> goerr option" where
  "Event_Validate e =
     (if ev_Name e = [] then Some (Errorf ''event name must be present'' [])
      else if (case ev_Data e of None \<Rightarrow> True | Some d \<Rightarrow> d = []) then Some (Errorf ''event data must be present'' [])
      else None)"

text \<open>\<open>float64(i)\<close>: the nearest value with 53 significant bits, ties to even.\<close>

definition float64_nat :: "nat \<Rightarrow> nat" where
  "float64_nat n =
     (if n < 2 ^ 53 then n
      else let s = length (takeWhile (\<lambda>k. 2 ^ (53 + k) \<le> n) [0..<64]);
               q = n div 2 ^ s; r = n mod 2 ^ s
           in (if 2 * r > 2 ^ s \<or> 2 * r = 2 ^ s \<and> odd q then q + 1 else q) * 2 ^ s)"

definition float64_int :: "int \<Rightarrow> int" where
  "float64_int i = (if i < 0 then - int (float64_nat (nat (- i))) else int (float64_nat (nat i)))"

text \<open>The values of the map that \<open>Event.Map\<close> returns.\<close>

datatype map_value = MString string | MMap "(string \<times> json) list" | MAny json | MFloat int

definition Event_Map :: "Event \<Rightarrow> string \<rightharpoonup> map_value" where
  "Event_Map e =
     (let m = [''name'' \<mapsto> MString (ev_Name e),
               ''data'' \<mapsto> MMap (case ev_Data e of Some d \<Rightarrow> d | None \<Rightarrow> []),
               ''user'' \<mapsto> (case ev_User e of Some u \<Rightarrow> MAny u | None \<Rightarrow> MMap []),
               ''ts'' \<mapsto> MFloat (float64_int (ev_Timestamp e))];
          m' = (if ev_Version e \<noteq> [] then m(''v'' \<mapsto> MString (ev_Version e)) else m)
      in case ev_ID e of Some i \<Rightarrow> m'(''id'' \<mapsto> MString i) | None \<Rightarrow> m')"

text \<open>\<open>json.Marshal\<close> of an event, with the \<open>omitempty\<close> tags; map keys are written in order.\<close>

definition event_members :: "string option \<Rightarrow> string \<Rightarrow> json \<Rightarrow> json option \<Rightarrow> int \<Rightarrow> string \<Rightarrow> (string \<times> json) list" where
  "event_members eid name data user ts v =
     (case eid of Some i \<Rightarrow> [(''id'', JStr i)] | None \<Rightarrow> []) @
     [(''name'', JStr name), (''data'', data)] @
     (case user of Some u \<Rightarrow> [(''user'', u)] | None \<Rightarrow> []) @
     (if ts \<noteq> 0 then [(''ts'', JNum (Itoa ts))] else []) @
     (if v \<noteq> [] then [(''v'', JStr v)] else [])"

definition Event_json :: "Event \<Rightarrow> json" where
  "Event_json e = JObj (event_members (ev_ID e) (ev_Name e)
     (case ev_Data e of Some d \<Rightarrow> StructToMap (JObj d) | None \<Rightarrow> JNull)
     (map_option StructToMap (ev_User e)) (ev_Timestamp e) (ev_Version e))"

text \<open>A value decoded into \<open>any\<close>.\<close>

fun decode_any :: "(string \<Rightarrow> string) \<Rightarrow> json \<Rightarrow> json" where
  "decode_any flt (JNum t) = JNum (flt t)"
| "decode_any flt (JArr js) = JArr (map (decode_any flt) js)"
| "decode_any flt (JObj kvs) = JObj (AList.clearjunk (rev (map (\<lambda>kv. (fst kv, decode_any flt (snd kv))) kvs)))"
| "decode_any flt j = j"

definition decode_map :: "(string \<Rightarrow> string) \<Rightarrow> (string \<times> json) list \<Rightarrow> (string \<times> json) list" where
  "decode_map flt kvs = AList.clearjunk (rev (map (\<lambda>kv. (fst kv, decode_any flt (snd kv))) kvs))"

text \<open>\<open>json.Unmarshal\<close> of an object into a zero event. A member of the wrong kind is skipped, the others are decoded; the caller ignores the error.
  An object has each of the fields at most once here (they come from \<open>event_members\<close>).\<close>

definition field :: "string \<Rightarrow> (string \<times> json) list \<Rightarrow> json option" where
  "field f kvs = (case members f kvs of [] \<Rightarrow> None | vs \<Rightarrow> Some (last vs))"

definition Unmarshal_Event :: "(string \<Rightarrow> string) \<Rightarrow> (string \<times> json) list \<Rightarrow> Event" where
  "Unmarshal_Event flt kvs =
     \<lparr>ev_ID = (case field ''id'' kvs of Some (JStr s) \<Rightarrow> Some s | _ \<Rightarrow> None),
      ev_Name = (case field ''name'' kvs of Some (JStr s) \<Rightarrow> s | _ \<Rightarrow> []),
      ev_Data = (case field ''data'' kvs of Some (JObj d) \<Rightarrow> Some (decode_map flt d) | _ \<Rightarrow> None),
      ev_User = (case field ''user'' kvs of Some JNull \<Rightarrow> None | Some u \<Rightarrow> Some (decode_any flt u) | None \<Rightarrow> None),
      ev_Timestamp = (case field ''ts'' kvs of Some (JNum t) \<Rightarrow> (case Atoi t of Some n \<Rightarrow> n | None \<Rightarrow> 0) | _ \<Rightarrow> 0),
      ev_Version = (case field ''v'' kvs of Some (JStr s) \<Rightarrow> s | _ \<Rightarrow> [])\<rparr>"

text \<open>A generic event; \<open>data\<close> and \<open>user\<close> are the JSON encodings of the values of its type parameters: \<open>data\<close> is \<open>None\<close> when it cannot be
  encoded, \<open>user\<close> is \<open>None\<close> when it counts as empty.\<close>

record GenericEvent =
  ge_ID :: "string option"
  ge_Name :: string
  ge_Data :: "json option"
  ge_User :: "json option"
  ge_Timestamp :: int
  ge_Version :: string

definition GenericEvent_json :: "GenericEvent \<Rightarrow> json option" where
  "GenericEvent_json ge = map_option (\<lambda>d. JObj (event_members (ge_ID ge) (ge_Name ge) d (ge_User ge) (ge_Timestamp ge) (ge_Version ge))) (ge_Data ge)"

definition GenericEvent_Event :: "(string \<Rightarrow> string) \<Rightarrow> GenericEvent \<Rightarrow> Event" where
  "GenericEvent_Event flt ge = (case GenericEvent_json ge of Some (JObj kvs) \<Rightarrow> Unmarshal_Event flt kvs | _ \<Rightarrow> zero_Event)"

definition GenericEvent_Validate :: "GenericEvent \<Rightarrow> goerr option" where
  "GenericEvent_Validate ge = (if ge_Name ge = [] then Some (Errorf ''event name must be present'' []) else None)"

text \<open>\<open>Time.UnixMilli()\<close> and \<open>Time.UnixNano()\<close>; both wrap around.\<close>

definition NowMillis :: "gotime \<Rightarrow> int" where
  "NowMillis now = wrap64 (Unix now * 1000 + nsec now div 1000000)"

definition Timestamp :: "gotime \<Rightarrow> int" where
  "Timestamp t = (let ns = wrap64 (Unix t * Second + nsec t) in sgn ns * (\<bar>ns\<bar> div 1000000))"

section \<open>client.go\<close>

record ClientOpts =
  cl_EventKey :: "string option"
  cl_EventURL :: "string option"
  cl_Env :: "string option"

record payload =
  pl_Validate :: "goerr option option"
  pl_json :: "json option"

definition event_payload :: "Event \<Rightarrow> payload" where
  "event_payload e = \<lparr>pl_Validate = Some (Event_Validate e), pl_json = Some (Event_json e)\<rparr>"

definition generic_payload :: "GenericEvent \<Rightarrow> payload" where
  "generic_payload ge = \<lparr>pl_Validate = Some (GenericEvent_Validate ge), pl_json = GenericEvent_json ge\<rparr>"

definition defaultEndpoint :: string where
  "defaultEndpoint = ''https://inn.gs''"

definition client_GetEnv :: "getenv \<Rightarrow> ClientOpts \<Rightarrow> string" where
  "client_GetEnv env a = (case cl_Env a of None \<Rightarrow> env ''INNGEST_ENV'' | Some e \<Rightarrow> e)"

definition GetEventKey :: "getenv \<Rightarrow> ClientOpts \<Rightarrow> string" where
  "GetEventKey env a =
     (case cl_EventKey a of
        Some k \<Rightarrow> k
      | None \<Rightarrow>
          (let envVar = env ''INNGEST_EVENT_KEY''
           in if envVar \<noteq> [] then envVar else if IsDev env then ''NO_EVENT_KEY_SET'' else []))"

text \<open>\<open>json.NewDecoder(r).Decode(&ids)\<close> reads one value. A member of the wrong kind is skipped and the error is ignored; a second
  \<open>ids\<close> member is decoded over the first.\<close>

definition decode_ids :: "json \<Rightarrow> string list \<Rightarrow> string list" where
  "decode_ids v old = (case v of
     JArr js \<Rightarrow> map (\<lambda>i. case js ! i of JStr t \<Rightarrow> t | _ \<Rightarrow> if i < length old then old ! i else []) [0..<length js]
   | JNull \<Rightarrow> []
   | _ \<Rightarrow> old)"

definition eventAPIResponse :: "bytes \<Rightarrow> string list" where
  "eventAPIResponse body = (case parse_value (3 * length body + 3) body of
     Some (JObj kvs, _) \<Rightarrow> fold decode_ids (members ''ids'' kvs) []
   | _ \<Rightarrow> [])"

definition event_url :: "getenv \<Rightarrow> ClientOpts \<Rightarrow> string" where
  "event_url env a =
     (let ep0 = (if IsDev env then DevServerURL env else defaultEndpoint);
          ep = (case cl_EventURL a of Some u \<Rightarrow> u | None \<Rightarrow> ep0)
      in ep @ ''/e/'' @ GetEventKey env a)"

text \<open>The answer of the API.\<close>

definition event_answer :: "http_response \<Rightarrow> goerr + string list" where
  "event_answer resp =
     (let st = hr_StatusCode resp
      in if st = 200 \<or> st = 201 then (let ids = eventAPIResponse (hr_Body resp) in Inr (if length ids = 1 then ids else []))
         else if st = 400 then Inl (Errorf ''invalid event data'' [])
         else if st = 401 then Inl (Errorf ''unknown ingest key'' [])
         else if st = 403 then Inl (Errorf ''this ingest key is not authorized to send this event'' [])
         else Inl (Errorf (''unknown status code sending event: '' @ Itoa st) []))"

text \<open>The request that gets the SDK's headers and the environment is only built; what goes out is a plain \<open>Post\<close> of the same body.\<close>

definition post_request :: "url \<Rightarrow> bytes \<Rightarrow> http_request" where
  "post_request u byt = \<lparr>hq_Method = ''POST'', hq_URL = u, hq_Header = header_Set [] ''Content-Type'' ''application/json'', hq_Body = byt\<rparr>"

definition SendMany :: "getenv \<Rightarrow> client \<Rightarrow> ClientOpts \<Rightarrow> payload list \<Rightarrow> http_request list \<Rightarrow> (goerr + string list) \<times> http_request list" where
  "SendMany env Do a es sent =
     (case find_first (\<lambda>p. case pl_Validate p of Some r \<Rightarrow> r | None \<Rightarrow> None) es of
        Some e \<Rightarrow> (Inl (wrapf ''error validating event: '' e), sent)
      | None \<Rightarrow>
          (case those (map pl_json es) of
             None \<Rightarrow> (Inl (wrapf ''error marshalling event to json: '' json_error), sent)
           | Some js \<Rightarrow>
               (case url_Parse (event_url env a) of
                  None \<Rightarrow> (Inl (wrapf ''error creating event request: '' (Errorf ''parse error'' [])), sent)
                | Some u \<Rightarrow>
                    (let req = post_request u (json_text (JArr js))
                     in ((case Do sent req of
                            Inl e \<Rightarrow> Inl (wrapf ''error sending event request: '' e)
                          | Inr resp \<Rightarrow> event_answer resp), sent @ [req])))))"

definition Send :: "getenv \<Rightarrow> client \<Rightarrow> ClientOpts \<Rightarrow> payload \<Rightarrow> http_request list \<Rightarrow> (goerr + string) \<times> http_request list" where
  "Send env Do a e sent = (case SendMany env Do a [e] sent of
     (Inl err, sent') \<Rightarrow> (Inl err, sent')
   | (Inr [], sent') \<Rightarrow> (Inr [], sent')
   | (Inr (i # _), sent') \<Rightarrow> (Inr i, sent'))"

text \<open>The package functions, which use \<open>DefaultClient\<close>.\<close>

definition default_Send :: "getenv \<Rightarrow> client \<Rightarrow> ClientOpts option \<Rightarrow> payload \<Rightarrow> http_request list \<Rightarrow> (goerr + string) \<times> http_request list" where
  "default_Send env Do dc e sent = (case dc of
     None \<Rightarrow> (Inl (Errorf ''no default client initialized for inngest'' []), sent) | Some a \<Rightarrow> Send env Do a e sent)"

definition default_SendMany ::
  "getenv \<Rightarrow> client \<Rightarrow> ClientOpts option \<Rightarrow> payload list \<Rightarrow> http_request list \<Rightarrow> (goerr + string list) \<times> http_request list" where
  "default_SendMany env Do dc es sent = (case dc of
     None \<Rightarrow> (Inl (Errorf ''no default client initialized for inngest'' []), sent) | Some a \<Rightarrow> SendMany env Do a es sent)"

section \<open>Properties\<close>

text \<open>A batch is sent whole or not at all, at most once. When an event is invalid or cannot be encoded nothing goes out and the caller gets an error; otherwise
  one request goes out, a POST of the JSON array of all events in order to the event URL, and success is reported only when the API
  answered it with 200 or 201.\<close>

theorem SendMany_all_or_nothing:
  assumes "SendMany env Do a es sent = (r, sent')"
  shows "sent' = sent \<and> (\<exists>e. r = Inl e) \<or>
    list_all (\<lambda>p. pl_Validate p = None \<or> pl_Validate p = Some None) es \<and>
    (\<exists>js u. map pl_json es = map Some js \<and> url_Parse (event_url env a) = Some u \<and>
       sent' = sent @ [post_request u (json_text (JArr js))] \<and>
       (\<exists>ids. r = Inr ids) = (\<exists>resp. Do sent (post_request u (json_text (JArr js))) = Inr resp \<and> hr_StatusCode resp \<in> {200, 201}))"
proof (cases "find_first (\<lambda>p. case pl_Validate p of Some r \<Rightarrow> r | None \<Rightarrow> None) es")
  case (Some e)
  with assms show ?thesis by (auto simp: SendMany_def)
next
  case None
  then have valid: "list_all (\<lambda>p. pl_Validate p = None \<or> pl_Validate p = Some None) es"
    unfolding find_first_None_iff list_all_iff by (metis not_Some_eq option.simps(5))
  show ?thesis
  proof (cases "those (map pl_json es)")
    case None': None
    with None assms show ?thesis by (auto simp: SendMany_def)
  next
    case (Some js)
    then have "map pl_json es = map Some js" by (induction es arbitrary: js) (auto split: option.splits)
    with None Some valid assms show ?thesis
      by (auto simp: SendMany_def event_answer_def Let_def simp del: json_text.simps split: option.splits sum.splits if_splits)
  qed
qed

definition sample_client :: ClientOpts where
  "sample_client = \<lparr>cl_EventKey = Some ''key'', cl_EventURL = None, cl_Env = Some ''branch''\<rparr>"

definition sample_Event :: Event where
  "sample_Event = zero_Event\<lparr>ev_Name := ''user/signup'', ev_Data := Some [(''plan'', JStr ''free'')]\<rparr>"

definition sample_api :: "bytes \<Rightarrow> client" where
  "sample_api body = (\<lambda>_ _. Inr \<lparr>hr_StatusCode = 200, hr_Body = body\<rparr>)"

lemma sample_event_url: "event_url (\<lambda>_. []) sample_client = ''https://inn.gs/e/key''"
  by (simp add: event_url_def sample_client_def GetEventKey_def IsDev_def defaultEndpoint_def)

lemma sample_url: "\<exists>u. url_Parse ''https://inn.gs/e/key'' = Some u"
proof -
  have "url_Parse ''https://inn.gs/e/key'' \<noteq> None" by code_simp
  then show ?thesis by auto
qed

lemma sample_payload: "pl_Validate (event_payload sample_Event) = Some None" "pl_json (event_payload sample_Event) = Some (Event_json sample_Event)"
  by (simp_all add: event_payload_def Event_Validate_def sample_Event_def)

lemma sample_SendMany:
  "\<exists>u. SendMany (\<lambda>_. []) (sample_api body) sample_client [event_payload sample_Event, event_payload sample_Event] [] =
     (Inr (let ids = eventAPIResponse body in if length ids = 1 then ids else []),
      [post_request u (json_text (JArr [Event_json sample_Event, Event_json sample_Event]))])"
proof -
  obtain u where "url_Parse ''https://inn.gs/e/key'' = Some u" using sample_url by blast
  then show ?thesis
    by (intro exI [of _ u]) (simp add: SendMany_def sample_payload sample_event_url event_answer_def sample_api_def Let_def del: json_text.simps)
qed

theorem SendMany_all_or_nothing_witness:
  "\<exists>r sent'. SendMany (\<lambda>_. []) (sample_api []) sample_client [event_payload sample_Event, event_payload sample_Event] [] = (r, sent') \<and>
     length sent' = 1 \<and> (\<exists>ids. r = Inr ids)"
proof -
  obtain r sent' where s: "SendMany (\<lambda>_. []) (sample_api []) sample_client [event_payload sample_Event, event_payload sample_Event] [] = (r, sent')"
    and ok: "\<exists>ids. r = Inr ids" using sample_SendMany [of "[]"] by auto
  from SendMany_all_or_nothing [OF s] s ok show ?thesis by auto
qed

text \<open>C38: What the client prepares does not all arrive. The request that goes out has the content type as its only header, so neither the environment the client was
  configured with nor the SDK's own headers are sent; and when the API accepts the events, the IDs in its answer are returned if there is exactly one, and none of them otherwise.\<close>

theorem SendMany_drops_env_and_ids:
  assumes "SendMany env Do a es sent = (r, sent @ [req])"
  shows "hq_Header req = header_Set [] ''Content-Type'' ''application/json'' \<and>
    header_Get (hq_Header req) HeaderKeyEnv = [] \<and> header_Get (hq_Header req) HeaderKeySDK = [] \<and> header_Get (hq_Header req) HeaderKeyUserAgent = [] \<and>
    (\<forall>resp ids. Do sent req = Inr resp \<and> hr_StatusCode resp \<in> {200, 201} \<and> eventAPIResponse (hr_Body resp) = ids \<longrightarrow>
       r = Inr (if length ids = 1 then ids else []))"
proof -
  let ?h = "header_Set [] ''Content-Type'' ''application/json''"
  have "header_Get ?h HeaderKeyEnv = []" "header_Get ?h HeaderKeySDK = []" "header_Get ?h HeaderKeyUserAgent = []" by code_simp+
  moreover obtain u b where "req = post_request u b" "r = (case Do sent req of Inl e \<Rightarrow> Inl (wrapf ''error sending event request: '' e) | Inr resp \<Rightarrow> event_answer resp)"
    using assms by (auto simp: SendMany_def Let_def simp del: json_text.simps split: option.splits)
  ultimately show ?thesis by (auto simp: post_request_def event_answer_def)
qed

theorem SendMany_drops_env_and_ids_witness:
  "\<exists>req. SendMany (\<lambda>_. []) (sample_api (json_text (JObj [(''ids'', JArr [JStr ''a'', JStr ''b''])]))) sample_client
      [event_payload sample_Event, event_payload sample_Event] [] = (Inr [], [req]) \<and>
     client_GetEnv (\<lambda>_. []) sample_client = ''branch'' \<and> header_Get (hq_Header req) HeaderKeyEnv = []"
proof -
  let ?b = "json_text (JObj [(''ids'', JArr [JStr ''a'', JStr ''b''])])"
  have "eventAPIResponse ?b = [''a'', ''b'']" by code_simp
  with sample_SendMany [of ?b] obtain u where
    "SendMany (\<lambda>_. []) (sample_api ?b) sample_client [event_payload sample_Event, event_payload sample_Event] [] =
       (Inr [], [] @ [post_request u (json_text (JArr [Event_json sample_Event, Event_json sample_Event]))])"
    by (auto simp: Let_def simp del: json_text.simps)
  from SendMany_drops_env_and_ids [OF this, THEN conjunct2, THEN conjunct1] this show ?thesis
    by (intro exI [of _ "post_request u (json_text (JArr [Event_json sample_Event, Event_json sample_Event]))"]) (simp add: client_GetEnv_def, simp add: sample_client_def)
qed

lemma field_simps:
  "field f [] = None"
  "field f ((k, v) # kvs) = (case field f kvs of Some w \<Rightarrow> Some w | None \<Rightarrow> if fold_name k = fold_name f then Some v else None)"
  by (auto simp: field_def members_def split: list.splits)

lemma event_fold_names:
  "fold_name ''id'' = ''id''" "fold_name ''name'' = ''name''" "fold_name ''data'' = ''data''" "fold_name ''user'' = ''user''"
  "fold_name ''ts'' = ''ts''" "fold_name ''v'' = ''v''"
  by code_simp+

lemma decode_map_Nil_iff: "decode_map flt d = [] \<longleftrightarrow> d = []"
proof -
  have "fst ` set (decode_map flt d) = fst ` set d" by (auto simp: decode_map_def dom_clearjunk image_image)
  then show ?thesis by (metis image_is_empty set_empty)
qed

text \<open>Turning a generic event into an event keeps it: when its data encodes to an object, every field comes back, the data and the user as
  the values their JSON decodes to, and the event is valid exactly when it has a name and its data is not empty.\<close>

theorem GenericEvent_Event_keeps:
  assumes "ge_Data ge = Some (JObj d)" "is_int64 (ge_Timestamp ge)"
  shows "GenericEvent_Event flt ge = \<lparr>ev_ID = ge_ID ge, ev_Name = ge_Name ge, ev_Data = Some (decode_map flt d),
      ev_User = (case ge_User ge of Some u \<Rightarrow> (if u = JNull then None else Some (decode_any flt u)) | None \<Rightarrow> None),
      ev_Timestamp = ge_Timestamp ge, ev_Version = ge_Version ge\<rparr> \<and>
    (Event_Validate (GenericEvent_Event flt ge) = None \<longleftrightarrow> ge_Name ge \<noteq> [] \<and> d \<noteq> [])"
proof -
  have "GenericEvent_Event flt ge = \<lparr>ev_ID = ge_ID ge, ev_Name = ge_Name ge, ev_Data = Some (decode_map flt d),
      ev_User = (case ge_User ge of Some u \<Rightarrow> (if u = JNull then None else Some (decode_any flt u)) | None \<Rightarrow> None),
      ev_Timestamp = ge_Timestamp ge, ev_Version = ge_Version ge\<rparr>"
    using assms
    by (auto simp: GenericEvent_Event_def GenericEvent_json_def Unmarshal_Event_def event_members_def field_simps event_fold_names Atoi_Itoa
        split: option.splits json.splits)
  then show ?thesis by (simp add: Event_Validate_def decode_map_Nil_iff)
qed

theorem GenericEvent_Event_keeps_witness:
  "let ge = \<lparr>ge_ID = None, ge_Name = ''n'', ge_Data = Some (JObj [(''a'', JBool True)]), ge_User = None, ge_Timestamp = 1700000000250, ge_Version = []\<rparr>
   in ev_Data (GenericEvent_Event (\<lambda>t. t) ge) = Some [(''a'', JBool True)] \<and> Event_Validate (GenericEvent_Event (\<lambda>t. t) ge) = None"
  using GenericEvent_Event_keeps [of "\<lparr>ge_ID = None, ge_Name = ''n'', ge_Data = Some (JObj [(''a'', JBool True)]), ge_User = None,
      ge_Timestamp = 1700000000250, ge_Version = []\<rparr>" "[(''a'', JBool True)]" "\<lambda>t. t"]
  by (simp add: is_int64_def decode_map_def Let_def Event_Validate_def)

text \<open>Event timestamps are milliseconds: from 1970 until the nanoseconds leave 64 bits in the year 2262, \<open>Timestamp\<close> gives what \<open>UnixMilli\<close> gives,
  and \<open>Map\<close> represents every such timestamp exactly.\<close>

theorem Timestamp_millis:
  assumes "0 \<le> Unix t" "Unix t < 9223372036" "0 \<le> nsec t" "nsec t < Second"
  shows "Timestamp t = NowMillis t \<and> Timestamp t = Unix t * 1000 + nsec t div 1000000 \<and> float64_int (Timestamp t) = Timestamp t"
proof -
  have r: "is_int64 (Unix t * Second + nsec t)" "is_int64 (Unix t * 1000 + nsec t div 1000000)"
    using assms by (auto simp: is_int64_def Second_def)
  have "0 \<le> Unix t * Second + nsec t" using assms by (simp add: Second_def)
  then have ts: "Timestamp t = (Unix t * Second + nsec t) div 1000000"
    using r(1) by (cases "Unix t * Second + nsec t = 0") (auto simp: Timestamp_def Let_def)
  also have "\<dots> = Unix t * 1000 + nsec t div 1000000" by (simp add: Second_def div_plus_div_distrib_dvd_left)
  finally have eq: "Timestamp t = Unix t * 1000 + nsec t div 1000000" .
  have "0 \<le> Unix t * 1000 + nsec t div 1000000" "Unix t * 1000 + nsec t div 1000000 < 2 ^ 53"
    using assms by (simp_all add: Second_def)
  then show ?thesis using r(2) eq by (auto simp: NowMillis_def float64_int_def float64_nat_def)
qed

theorem Timestamp_millis_witness: "Timestamp (time_Unix 1700000000 250000000) = 1700000000250"
proof -
  have u: "Unix (time_Unix 1700000000 250000000) = 1700000000" by (simp add: is_int64_def)
  have n: "nsec (time_Unix 1700000000 250000000) = 250000000" by (simp add: time_Unix_def)
  show ?thesis using Timestamp_millis [of "time_Unix 1700000000 250000000"] unfolding u n by (simp add: Second_def)
qed

end
