(* ===== verification/Buffer.thy ===== *)
theory Buffer
  imports Steps "HOL-Library.AList" "HOL-Library.Multiset"
begin

text \<open>
  The message buffer of a connect worker, \<open>connect/buffer.go\<close>. It holds the responses that wait for the gateway's
  acknowledgement (\<open>pendingAck\<close>) and those to send through the API (\<open>buffered\<close>), both by request ID. Every call of \<open>addPending\<close>
  starts a goroutine that moves the response to the buffer after a timeout; its \<open>break\<close> leaves the \<open>select\<close> only, so the goroutine
  never ends and acts again after every further timeout. The mutex makes every method, and every action of such a goroutine, one
  atomic step.

  The order in which Go iterates over the buffer is a parameter, \<open>order\<close>, for each pass; \<open>send\<close> says whether the API accepts a message, given the
  messages that were tried before.
\<close>

section \<open>Messages\<close>

datatype SDKResponseStatus = NOT_COMPLETED | ERROR | DONE

record SDKResponse =
  sr_RequestId :: string
  sr_EnvId :: string
  sr_AppId :: string
  sr_Status :: SDKResponseStatus
  sr_Body :: bytes
  sr_NoRetry :: bool
  sr_RetryAfter :: "string option"
  sr_SdkVersion :: string
  sr_RequestVersion :: nat

section \<open>The buffer\<close>

type_synonym msgmap = "(string \<times> SDKResponse) list"

record messageBuffer =
  mb_buffered :: msgmap
  mb_pendingAck :: msgmap
  mb_watchers :: "SDKResponse list"

definition newMessageBuffer :: messageBuffer where
  "newMessageBuffer = \<lparr>mb_buffered = [], mb_pendingAck = [], mb_watchers = []\<rparr>"

definition hasMessages :: "messageBuffer \<Rightarrow> bool" where
  "hasMessages m \<longleftrightarrow> length (mb_buffered m) > 0"

definition append_msg :: "SDKResponse \<Rightarrow> messageBuffer \<Rightarrow> messageBuffer" where
  "append_msg msg m = m\<lparr>mb_buffered := AList.update (sr_RequestId msg) msg (mb_buffered m),
     mb_pendingAck := AList.delete (sr_RequestId msg) (mb_pendingAck m)\<rparr>"

definition addPending :: "SDKResponse \<Rightarrow> messageBuffer \<Rightarrow> messageBuffer" where
  "addPending resp m = m\<lparr>mb_pendingAck := AList.update (sr_RequestId resp) resp (mb_pendingAck m),
     mb_watchers := mb_watchers m @ [resp]\<rparr>"

text \<open>One turn of the goroutine that \<open>addPending\<close> started for \<open>resp\<close>.\<close>

definition watcher_turn :: "SDKResponse \<Rightarrow> messageBuffer \<Rightarrow> messageBuffer" where
  "watcher_turn resp m =
     (if map_of (mb_pendingAck m) (sr_RequestId resp) \<noteq> None
      then m\<lparr>mb_buffered := AList.update (sr_RequestId resp) resp (mb_buffered m),
             mb_pendingAck := AList.delete (sr_RequestId resp) (mb_pendingAck m)\<rparr>
      else m)"

definition acknowledge :: "string \<Rightarrow> messageBuffer \<Rightarrow> messageBuffer" where
  "acknowledge sid m = m\<lparr>mb_pendingAck := AList.delete sid (mb_pendingAck m)\<rparr>"

section \<open>flush\<close>

text \<open>One pass over the buffer: it stops at the first message that cannot be sent. \<open>tried\<close> collects the messages that were tried.\<close>

fun flush_pass :: "(SDKResponse list \<Rightarrow> SDKResponse \<Rightarrow> bool) \<Rightarrow> msgmap \<Rightarrow> msgmap \<Rightarrow> SDKResponse list \<Rightarrow> msgmap \<times> SDKResponse list" where
  "flush_pass send [] buffered tried = (buffered, tried)"
| "flush_pass send ((k, msg) # rest) buffered tried =
     (if send tried msg then flush_pass send rest (AList.delete k buffered) (tried @ [msg])
      else (buffered, tried @ [msg]))"

text \<open>The loop with \<open>n\<close> attempts left.\<close>

fun flush_loop :: "(SDKResponse list \<Rightarrow> SDKResponse \<Rightarrow> bool) \<Rightarrow> (nat \<Rightarrow> msgmap \<Rightarrow> msgmap) \<Rightarrow> nat \<Rightarrow> msgmap \<Rightarrow> SDKResponse list \<Rightarrow>
    goerr option \<times> msgmap \<times> SDKResponse list" where
  "flush_loop send order 0 buffered tried =
     (Some (Errorf (''could not send '' @ show_nat (length buffered) @ '' buffered messages'') []), buffered, tried)"
| "flush_loop send order (Suc n) buffered tried =
     (case flush_pass send (order n buffered) buffered tried of (buffered', tried') \<Rightarrow>
        if buffered' = [] then (None, [], tried') else flush_loop send order n buffered' tried')"

definition flush :: "(SDKResponse list \<Rightarrow> SDKResponse \<Rightarrow> bool) \<Rightarrow> (nat \<Rightarrow> msgmap \<Rightarrow> msgmap) \<Rightarrow> messageBuffer \<Rightarrow> SDKResponse list \<Rightarrow>
    goerr option \<times> messageBuffer \<times> SDKResponse list" where
  "flush send order m tried =
     (case flush_loop send order 5 (mb_buffered m) tried of (err, buffered, tried') \<Rightarrow> (err, m\<lparr>mb_buffered := buffered\<rparr>, tried'))"

section \<open>Well-formed buffers\<close>

text \<open>The lists are maps, every entry is stored under its own request ID, and every pending response has a goroutine for its ID.\<close>

definition wf_map :: "msgmap \<Rightarrow> bool" where
  "wf_map al \<longleftrightarrow> distinct (map fst al) \<and> (\<forall>(k, r) \<in> set al. sr_RequestId r = k)"

definition wf_buffer :: "messageBuffer \<Rightarrow> bool" where
  "wf_buffer m \<longleftrightarrow> wf_map (mb_buffered m) \<and> wf_map (mb_pendingAck m) \<and>
     (\<forall>(k, r) \<in> set (mb_pendingAck m). \<exists>r' \<in> set (mb_watchers m). sr_RequestId r' = k)"

lemma set_delete: "set (AList.delete k al) = {(k', v). (k', v) \<in> set al \<and> k' \<noteq> k}"
  by (auto simp: AList.delete_eq)

lemma wf_map_Nil [simp]: "wf_map []"
  by (simp add: wf_map_def)

lemma wf_map_delete [simp]: "wf_map al \<Longrightarrow> wf_map (AList.delete k al)"
  by (auto simp: wf_map_def set_delete distinct_delete)

lemma set_update: "distinct (map fst al) \<Longrightarrow> set (AList.update k v al) = insert (k, v) {(k', v'). (k', v') \<in> set al \<and> k' \<noteq> k}"
  by (induction al) (force simp: image_iff)+

lemma wf_map_update [simp]: "wf_map al \<Longrightarrow> wf_map (AList.update (sr_RequestId r) r al)"
  by (auto simp: wf_map_def set_update distinct_update)

lemma wf_buffer_ops:
  "wf_buffer newMessageBuffer"
  "wf_buffer m \<Longrightarrow> wf_buffer (append_msg r m)"
  "wf_buffer m \<Longrightarrow> wf_buffer (watcher_turn r m)"
  "wf_buffer m \<Longrightarrow> wf_buffer (acknowledge sid m)"
  by (auto simp: wf_buffer_def newMessageBuffer_def append_msg_def watcher_turn_def acknowledge_def set_delete)

lemma wf_buffer_addPending: "wf_buffer m \<Longrightarrow> wf_buffer (addPending r m)"
  unfolding wf_buffer_def addPending_def by (auto simp: set_update wf_map_def [of "mb_pendingAck m"])

section \<open>What flush does\<close>

text \<open>The messages that the API accepted between two histories of tries.\<close>

definition accepted :: "(SDKResponse list \<Rightarrow> SDKResponse \<Rightarrow> bool) \<Rightarrow> SDKResponse list \<Rightarrow> SDKResponse list \<Rightarrow> SDKResponse set" where
  "accepted send tried tried' = {msg. \<exists>i. length tried \<le> i \<and> i < length tried' \<and> tried' ! i = msg \<and> send (take i tried') msg}"

lemma accepted_trans:
  assumes t': "t' = t @ a" and t'': "t'' = t' @ b"
  shows "accepted send t t'' = accepted send t t' \<union> accepted send t' t''"
proof (intro set_eqI iffI)
  fix x assume "x \<in> accepted send t t''"
  then obtain i where i: "length t \<le> i" "i < length t''" "t'' ! i = x" "send (take i t'') x" unfolding accepted_def by blast
  show "x \<in> accepted send t t' \<union> accepted send t' t''"
  proof (cases "i < length t'")
    case True
    with i t'' have "t' ! i = x" "take i t'' = take i t'" by (auto simp: nth_append)
    with True i show ?thesis unfolding accepted_def by auto
  next
    case False
    with i show ?thesis unfolding accepted_def by auto
  qed
next
  fix x assume "x \<in> accepted send t t' \<union> accepted send t' t''"
  then show "x \<in> accepted send t t''"
  proof
    assume "x \<in> accepted send t t'"
    then obtain i where i: "length t \<le> i" "i < length t'" "t' ! i = x" "send (take i t') x" unfolding accepted_def by blast
    then have "t'' ! i = x" "take i t'' = take i t'" using t'' by (auto simp: nth_append)
    with i t'' show ?thesis unfolding accepted_def by auto
  next
    assume "x \<in> accepted send t' t''"
    moreover have "length t \<le> length t'" using t' by simp
    ultimately show ?thesis unfolding accepted_def using le_trans by blast
  qed
qed

text \<open>A flush from \<open>buf\<close> to \<open>buf'\<close> splits the buffer into what is left and what was accepted.\<close>

definition parted :: "(SDKResponse list \<Rightarrow> SDKResponse \<Rightarrow> bool) \<Rightarrow> msgmap \<Rightarrow> SDKResponse list \<Rightarrow> msgmap \<Rightarrow> SDKResponse list \<Rightarrow> bool" where
  "parted send buf tried buf' tried' \<longleftrightarrow> (\<exists>pre. tried' = tried @ pre) \<and> wf_map buf' \<and> set buf' \<subseteq> set buf \<and>
     accepted send tried tried' = snd ` (set buf - set buf')"

lemma parted_trans:
  assumes "parted send b t b' t'" "parted send b' t' b'' t''"
  shows "parted send b t b'' t''"
proof -
  from assms obtain x y where xy: "t' = t @ x" "t'' = t' @ y" by (auto simp: parted_def)
  with assms show ?thesis using accepted_trans [OF xy, of send] by (auto simp: parted_def)
qed

lemma flush_pass_spec:
  "flush_pass send xs buf tried = (buf', tried') \<Longrightarrow>
   \<exists>n \<le> length xs. set buf' = {kv \<in> set buf. fst kv \<notin> fst ` set (take n xs)} \<and> (wf_map buf \<longrightarrow> wf_map buf') \<and>
     tried' = tried @ map snd (take n xs) @ (if n < length xs then [snd (xs ! n)] else []) \<and>
     (\<forall>i < n. send (tried @ map snd (take i xs)) (snd (xs ! i))) \<and>
     (n < length xs \<longrightarrow> \<not> send (tried @ map snd (take n xs)) (snd (xs ! n)))"
proof (induction send xs buf tried rule: flush_pass.induct)
  case (2 send k msg rest buf tried)
  show ?case
  proof (cases "send tried msg")
    case True
    with 2 obtain n where n: "n \<le> length rest" "set buf' = {kv \<in> set (AList.delete k buf). fst kv \<notin> fst ` set (take n rest)}"
      "wf_map (AList.delete k buf) \<longrightarrow> wf_map buf'"
      "tried' = (tried @ [msg]) @ map snd (take n rest) @ (if n < length rest then [snd (rest ! n)] else [])"
      "\<forall>i < n. send ((tried @ [msg]) @ map snd (take i rest)) (snd (rest ! i))"
      "n < length rest \<longrightarrow> \<not> send ((tried @ [msg]) @ map snd (take n rest)) (snd (rest ! n))" by auto
    have "\<forall>i < Suc n. send (tried @ map snd (take i ((k, msg) # rest))) (snd (((k, msg) # rest) ! i))"
      using n(5) True by (simp add: All_less_Suc2)
    with n show ?thesis by (intro exI [of _ "Suc n"]) (auto simp: set_delete)
  next
    case False
    with 2(2) show ?thesis by (intro exI [of _ 0]) auto
  qed
qed auto

lemma wf_map_distinct: "wf_map al \<Longrightarrow> distinct al"
  by (auto simp: wf_map_def distinct_map)

lemma flush_pass_parted:
  assumes wf: "wf_map buf" and perm: "mset xs = mset buf" and pass: "flush_pass send xs buf tried = (buf', tried')"
  shows "parted send buf tried buf' tried' \<and> length tried' + length buf' \<le> length tried + length buf + 1 \<and>
    (buf' \<noteq> [] \<longrightarrow> (\<exists>i. length tried \<le> i \<and> i < length tried' \<and> \<not> send (take i tried') (tried' ! i)))"
proof -
  from flush_pass_spec [OF pass] wf obtain n where n: "n \<le> length xs"
    and buf': "set buf' = {kv \<in> set buf. fst kv \<notin> fst ` set (take n xs)}" "wf_map buf'"
    and tried': "tried' = tried @ map snd (take n xs) @ (if n < length xs then [snd (xs ! n)] else [])"
    and ok: "\<forall>i < n. send (tried @ map snd (take i xs)) (snd (xs ! i))"
    and bad: "n < length xs \<longrightarrow> \<not> send (tried @ map snd (take n xs)) (snd (xs ! n))" by auto
  have "mset (map fst xs) = mset (map fst buf)" using perm by (metis mset_map)
  then have "distinct (map fst xs)" using wf unfolding wf_map_def by (metis mset_eq_imp_distinct_iff)
  then have keys: "fst ` set (take n xs) \<inter> fst ` set (drop n xs) = {}" and dist: "distinct xs"
    by (metis append_take_drop_id distinct_append map_append set_map) (metis \<open>distinct (map fst xs)\<close> distinct_map)
  have sx: "set buf = set (take n xs) \<union> set (drop n xs)"
    using mset_eq_setD [OF perm] by (metis append_take_drop_id set_append)
  have left: "set buf' = set (drop n xs)" unfolding buf'(1) sx using keys by auto
  have sent: "set buf - set buf' = set (take n xs)"
    unfolding left sx using set_take_disj_set_drop_if_distinct [OF dist order_refl, of n] by auto
  have len: "length buf' = length buf - n"
    using distinct_card [OF wf_map_distinct [OF buf'(2)]] distinct_card [OF distinct_drop [OF dist, of n]] left
      mset_eq_length [OF perm] by simp
  have nth: "tried' ! (length tried + j) = snd (xs ! j)" "take (length tried + j) tried' = tried @ map snd (take j xs)"
    if "j \<le> n" "j < length xs" for j
    using that n by (auto simp: tried' nth_append min_def take_map)
  have acc: "accepted send tried tried' = snd ` set (take n xs)"
  proof (intro set_eqI iffI)
    fix x assume "x \<in> accepted send tried tried'"
    then obtain i where i: "length tried \<le> i" "i < length tried'" "tried' ! i = x" "send (take i tried') x"
      unfolding accepted_def by blast
    define j where "j = i - length tried"
    with i n tried' have j: "i = length tried + j" "j \<le> n" "j < length xs" by (auto split: if_splits)
    with i nth [OF j(2,3)] bad have "j < n" by (cases "j = n") auto
    with nth [OF j(2,3)] i j n show "x \<in> snd ` set (take n xs)" by (force simp: in_set_conv_nth image_iff)
  next
    fix x assume "x \<in> snd ` set (take n xs)"
    then obtain j where j: "j < n" "x = snd (xs ! j)" using n by (auto simp: in_set_conv_nth)
    with nth [of j] ok n show "x \<in> accepted send tried tried'"
      unfolding accepted_def by (auto intro!: exI [of _ "length tried + j"] simp: tried')
  qed
  have "buf' \<noteq> [] \<Longrightarrow> n < length xs" using left n by (cases "n = length xs") auto
  with bad nth [of n] have "buf' \<noteq> [] \<longrightarrow> (\<exists>i. length tried \<le> i \<and> i < length tried' \<and> \<not> send (take i tried') (tried' ! i))"
    by (auto intro!: exI [of _ "length tried + n"] simp: tried')
  moreover have "parted send buf tried buf' tried'"
    unfolding parted_def using acc sent left sx buf'(2) tried' by auto
  moreover have "length tried' + length buf' \<le> length tried + length buf + 1"
    using len n mset_eq_length [OF perm] by (simp add: tried')
  ultimately show ?thesis by blast
qed

text \<open>The tries that the API rejected.\<close>

definition rejects :: "(SDKResponse list \<Rightarrow> SDKResponse \<Rightarrow> bool) \<Rightarrow> SDKResponse list \<Rightarrow> SDKResponse list \<Rightarrow> nat set" where
  "rejects send tried tried' = {i. length tried \<le> i \<and> i < length tried' \<and> \<not> send (take i tried') (tried' ! i)}"

lemma rejects_trans:
  assumes "t'' = t' @ b" "length t \<le> length t'"
  shows "rejects send t t' \<union> rejects send t' t'' \<subseteq> rejects send t t''" "rejects send t t' \<inter> rejects send t' t'' = {}"
  using assms by (auto simp: rejects_def nth_append)

lemma finite_rejects [simp]: "finite (rejects send t t')"
  by (rule finite_subset [of _ "{..< length t'}"]) (auto simp: rejects_def)

lemma flush_loop_spec:
  assumes "\<And>n b. mset (order n b) = mset b"
  shows "wf_map buf \<Longrightarrow> flush_loop send order k buf tried = (err, buf', tried') \<Longrightarrow>
    parted send buf tried buf' tried' \<and> length tried' + length buf' \<le> length tried + length buf + k \<and>
    (k > 0 \<or> buf \<noteq> [] \<longrightarrow> (err = None \<longleftrightarrow> buf' = [])) \<and> (err \<noteq> None \<longrightarrow> k \<le> card (rejects send tried tried'))"
proof (induction k arbitrary: buf tried)
  case 0
  then show ?case by (auto simp: parted_def accepted_def)
next
  case (Suc k)
  obtain b1 t1 where pass: "flush_pass send (order k buf) buf tried = (b1, t1)" by fastforce
  from flush_pass_parted [OF Suc.prems(1) assms pass]
  have p1: "parted send buf tried b1 t1" "length t1 + length b1 \<le> length tried + length buf + 1"
    and rej: "b1 \<noteq> [] \<Longrightarrow> rejects send tried t1 \<noteq> {}" by (auto simp: rejects_def)
  show ?case
  proof (cases "b1 = []")
    case True
    with Suc.prems(2) pass p1 show ?thesis by auto
  next
    case False
    with Suc.prems(2) pass have loop: "flush_loop send order k b1 t1 = (err, buf', tried')" by simp
    have wf1: "wf_map b1" using p1 by (simp add: parted_def)
    from Suc.IH [OF wf1 loop] have p2: "parted send b1 t1 buf' tried'" "length tried' + length buf' \<le> length t1 + length b1 + k"
      "err = None \<longleftrightarrow> buf' = []" "err \<noteq> None \<longrightarrow> k \<le> card (rejects send t1 tried')" using False by auto
    from p1(1) p2(1) obtain a b where t: "t1 = tried @ a" "tried' = t1 @ b" by (auto simp: parted_def)
    have "Suc k \<le> card (rejects send tried tried')" if "err \<noteq> None"
    proof -
      have "1 \<le> card (rejects send tried t1)" using rej [OF False] by (simp add: Suc_leI card_gt_0_iff)
      with p2(4) that have "Suc k \<le> card (rejects send tried t1) + card (rejects send t1 tried')" by simp
      also have "\<dots> = card (rejects send tried t1 \<union> rejects send t1 tried')"
        using rejects_trans(2) [OF t(2), of tried send] t(1) by (simp add: card_Un_disjoint)
      also have "\<dots> \<le> card (rejects send tried tried')"
        using rejects_trans(1) [OF t(2), of tried send] t(1) by (simp add: card_mono)
      finally show ?thesis .
    qed
    with parted_trans [OF p1(1) p2(1)] p1(2) p2(2,3) show ?thesis by auto
  qed
qed

section \<open>Properties\<close>

text \<open>C24: Flushing loses nothing and ends. Whatever order the map iteration takes and whatever the API answers, a flush makes at most five
  more tries than there are messages, the messages that leave the buffer are exactly those the API accepted, the others stay,
  and the flush reports success exactly when the buffer is empty; it fails only after at least five rejected tries.\<close>

theorem flush_partition:
  assumes "wf_buffer m" "\<And>n b. mset (order n b) = mset b" "flush send order m tried = (err, m', tried')"
  shows "set (mb_buffered m') \<subseteq> set (mb_buffered m) \<and>
    accepted send tried tried' = snd ` (set (mb_buffered m) - set (mb_buffered m')) \<and>
    mb_pendingAck m' = mb_pendingAck m \<and>
    length tried' + length (mb_buffered m') \<le> length tried + length (mb_buffered m) + 5 \<and>
    (err = None \<longleftrightarrow> mb_buffered m' = []) \<and> (err \<noteq> None \<longrightarrow> 5 \<le> card (rejects send tried tried'))"
proof -
  obtain b where loop: "flush_loop send order 5 (mb_buffered m) tried = (err, b, tried')" and m': "m' = m\<lparr>mb_buffered := b\<rparr>"
    using assms(3) by (auto simp: flush_def split: prod.splits)
  from flush_loop_spec [OF assms(2) _ loop] assms(1) show ?thesis
    by (auto simp: m' wf_buffer_def parted_def)
qed

definition sample_resp :: "string \<Rightarrow> SDKResponse" where
  "sample_resp k = \<lparr>sr_RequestId = k, sr_EnvId = [], sr_AppId = [], sr_Status = DONE, sr_Body = [], sr_NoRetry = False,
     sr_RetryAfter = None, sr_SdkVersion = [], sr_RequestVersion = 0\<rparr>"

theorem flush_partition_witness:
  "length (snd (snd (flush (\<lambda>tried msg. length tried > 1) (\<lambda>_ b. b) (append_msg (sample_resp ''a'') newMessageBuffer) []))) \<le> 6"
proof -
  let ?m = "append_msg (sample_resp ''a'') newMessageBuffer"
  obtain err m' t' where f: "flush (\<lambda>tried msg. length tried > 1) (\<lambda>_ b. b) ?m [] = (err, m', t')" by (cases "flush (\<lambda>tried msg. length tried > 1) (\<lambda>_ b. b) ?m []")
  have "wf_buffer ?m" by (rule wf_buffer_ops(2) [OF wf_buffer_ops(1)])
  from flush_partition [OF this _ f] have "length t' \<le> length (mb_buffered ?m) + 5" by auto
  moreover have "length (mb_buffered ?m) = 1" by (simp add: append_msg_def newMessageBuffer_def)
  ultimately show ?thesis unfolding f by simp
qed

section \<open>The life of a response\<close>

text \<open>The states the buffer can reach, with the responses that were handed to it so far, and those among them that are still owed: added or appended, and since then
  neither acknowledged nor accepted by the API.\<close>

inductive reachable :: "messageBuffer \<Rightarrow> SDKResponse set \<Rightarrow> SDKResponse set \<Rightarrow> bool" where
  fresh: "reachable newMessageBuffer {} {}"
| add: "reachable m given owed \<Longrightarrow> reachable (addPending r m) (insert r given) (insert r owed)"
| app: "reachable m given owed \<Longrightarrow> reachable (append_msg r m) (insert r given) (insert r owed)"
| ack: "reachable m given owed \<Longrightarrow> reachable (acknowledge sid m) given {r \<in> owed. sr_RequestId r \<noteq> sid}"
| turn: "reachable m given owed \<Longrightarrow> r \<in> set (mb_watchers m) \<Longrightarrow> reachable (watcher_turn r m) given owed"
| sent: "reachable m given owed \<Longrightarrow> (\<And>n b. mset (order n b) = mset b) \<Longrightarrow> flush send order m tried = (err, m', tried') \<Longrightarrow>
    reachable m' given (owed - accepted send tried tried')"

text \<open>The responses a buffer holds, and the responses that no other one in a set replaces: both maps keep one response per request ID.\<close>

definition held :: "messageBuffer \<Rightarrow> SDKResponse set" where
  "held m = snd ` set (mb_pendingAck m) \<union> snd ` set (mb_buffered m)"

definition sole :: "SDKResponse set \<Rightarrow> SDKResponse \<Rightarrow> bool" where
  "sole given r \<longleftrightarrow> (\<forall>r' \<in> given. sr_RequestId r' = sr_RequestId r \<longrightarrow> r' = r)"

lemma sole_mono: "sole given' r \<Longrightarrow> given \<subseteq> given' \<Longrightarrow> sole given r"
  by (auto simp: sole_def)

lemma in_wf_map:
  assumes "wf_map al"
  shows "r \<in> snd ` set al \<longleftrightarrow> (sr_RequestId r, r) \<in> set al"
proof
  show "(sr_RequestId r, r) \<in> set al" if "r \<in> snd ` set al" using that assms by (auto simp: wf_map_def)
qed (rule image_eqI [of _ _ "(sr_RequestId r, r)"], simp)

lemma wf_map_lookup: "wf_map al \<Longrightarrow> map_of al (sr_RequestId r) = Some r \<longleftrightarrow> r \<in> snd ` set al"
  by (simp add: in_wf_map) (simp add: wf_map_def)

text \<open>What each operation does to the responses that are held.\<close>

lemma snd_delete: "wf_map al \<Longrightarrow> snd ` set (AList.delete k al) = {x \<in> snd ` set al. sr_RequestId x \<noteq> k}"
  by (auto simp: set_delete wf_map_def image_iff)

lemma snd_update: "wf_map al \<Longrightarrow> snd ` set (AList.update (sr_RequestId r) r al) = insert r {x \<in> snd ` set al. sr_RequestId x \<noteq> sr_RequestId r}"
  by (auto simp: set_update wf_map_def image_iff)

lemma held_ops:
  assumes "wf_buffer m"
  shows "held (addPending r m) = insert r {x \<in> snd ` set (mb_pendingAck m). sr_RequestId x \<noteq> sr_RequestId r} \<union> snd ` set (mb_buffered m)"
    "held (append_msg r m) = insert r {x \<in> held m. sr_RequestId x \<noteq> sr_RequestId r}"
    "held (acknowledge sid m) = {x \<in> snd ` set (mb_pendingAck m). sr_RequestId x \<noteq> sid} \<union> snd ` set (mb_buffered m)"
    "held (watcher_turn r m) = (if map_of (mb_pendingAck m) (sr_RequestId r) = None then held m else insert r {x \<in> held m. sr_RequestId x \<noteq> sr_RequestId r})"
  using assms by (auto simp: wf_buffer_def held_def addPending_def append_msg_def acknowledge_def watcher_turn_def snd_update snd_delete)

lemma watchers_simps:
  "mb_watchers (addPending r m) = mb_watchers m @ [r]" "mb_watchers (append_msg r m) = mb_watchers m"
  "mb_watchers (acknowledge sid m) = mb_watchers m" "mb_watchers (watcher_turn r m) = mb_watchers m"
  by (simp_all add: addPending_def append_msg_def acknowledge_def watcher_turn_def)

lemma flush_parts:
  assumes "wf_buffer m" "\<And>n b. mset (order n b) = mset b" "flush send order m tried = (err, m', tried')"
  shows "wf_buffer m'" "held m \<subseteq> held m' \<union> accepted send tried tried'" "held m' \<subseteq> held m" "mb_pendingAck m' = mb_pendingAck m"
    "mb_watchers m' = mb_watchers m" "snd ` set (mb_buffered m) \<subseteq> snd ` set (mb_buffered m') \<union> accepted send tried tried'"
    "err = None \<Longrightarrow> mb_buffered m' = []" "\<exists>new. tried' = tried @ new"
proof -
  obtain b where loop: "flush_loop send order 5 (mb_buffered m) tried = (err, b, tried')" and m': "m' = m\<lparr>mb_buffered := b\<rparr>"
    using assms(3) by (auto simp: flush_def split: prod.splits)
  from flush_loop_spec [OF assms(2) _ loop] assms(1)
  have p: "parted send (mb_buffered m) tried b tried'" and e: "err = None \<Longrightarrow> b = []" by (simp_all add: wf_buffer_def)
  then show buf: "snd ` set (mb_buffered m) \<subseteq> snd ` set (mb_buffered m') \<union> accepted send tried tried'"
    by (auto simp: parted_def m')
  then show "held m \<subseteq> held m' \<union> accepted send tried tried'" by (auto simp: held_def m')
  show "wf_buffer m'" "held m' \<subseteq> held m" using p assms(1) by (auto simp: m' wf_buffer_def held_def parted_def)
  show "mb_pendingAck m' = mb_pendingAck m" "mb_watchers m' = mb_watchers m" "err = None \<Longrightarrow> mb_buffered m' = []" "\<exists>new. tried' = tried @ new"
    using p e by (simp_all add: m' parted_def)
qed

text \<open>The invariant: the buffer holds, and its goroutines carry, nothing it was not given, and every owed response is held unless another one for its request ID was given.\<close>

definition keeps_owed :: "messageBuffer \<Rightarrow> SDKResponse set \<Rightarrow> SDKResponse set \<Rightarrow> bool" where
  "keeps_owed m given owed \<longleftrightarrow> wf_buffer m \<and> held m \<union> set (mb_watchers m) \<subseteq> given \<and> (\<forall>r \<in> owed. sole given r \<longrightarrow> r \<in> held m)"

lemma keeps_owed_step:
  assumes "keeps_owed m given owed" "wf_buffer m'" "held m' \<union> set (mb_watchers m') \<subseteq> given' \<union> (held m \<union> set (mb_watchers m))" "given \<subseteq> given'"
    "\<And>r. r \<in> owed' \<Longrightarrow> sole given' r \<Longrightarrow> r \<in> held m' \<or> r \<in> owed \<and> (r \<in> held m \<longrightarrow> r \<in> held m')"
  shows "keeps_owed m' given' owed'"
  using assms sole_mono [OF _ assms(4)] unfolding keeps_owed_def by blast

lemma reachable_keeps: "reachable m given owed \<Longrightarrow> keeps_owed m given owed"
proof (induction rule: reachable.induct)
  case fresh
  show ?case by (simp add: keeps_owed_def held_def wf_buffer_ops(1)) (simp add: newMessageBuffer_def)
next
  case (add m given owed r)
  then have wf: "wf_buffer m" by (simp add: keeps_owed_def)
  from add.IH show ?case
    by (rule keeps_owed_step) (use wf in \<open>auto simp: held_ops wf_buffer_addPending held_def [of m] sole_def watchers_simps\<close>)
next
  case (app m given owed r)
  then have wf: "wf_buffer m" by (simp add: keeps_owed_def)
  from app.IH show ?case
    by (rule keeps_owed_step) (use wf in \<open>auto simp: held_ops wf_buffer_ops sole_def watchers_simps\<close>)
next
  case (ack m given owed sid)
  then have wf: "wf_buffer m" by (simp add: keeps_owed_def)
  from ack.IH show ?case
    by (rule keeps_owed_step) (use wf in \<open>auto simp: held_ops wf_buffer_ops held_def [of m] watchers_simps\<close>)
next
  case (turn m given owed r)
  then have wf: "wf_buffer m" and r: "r \<in> given" by (auto simp: keeps_owed_def)
  from turn.IH show ?case
    by (rule keeps_owed_step) (use wf r in \<open>auto simp: held_ops wf_buffer_ops sole_def watchers_simps split: if_splits\<close>)
next
  case (sent m given owed order send tried err m' tried')
  then have "wf_buffer m" by (simp add: keeps_owed_def)
  note parts = flush_parts [OF this sent(2,3)]
  from sent.IH show ?case by (rule keeps_owed_step) (use parts in auto)
qed

lemma reachable_wf: "reachable m given owed \<Longrightarrow> wf_buffer m"
  using reachable_keeps by (auto simp: keeps_owed_def)

text \<open>C23: No response is lost by the worker. In every state the buffer can reach, a response that was handed to it, was neither acknowledged nor accepted by the API since, and is the only
  one handed over for its request ID (both maps keep one response per ID, so another one may replace it), is itself in the buffer, or is itself pending, and then its own goroutine is running
  and the next turn of it moves the response into the buffer; and a flush of a buffer with this response has the API accept it, or fails and leaves it there.\<close>

theorem no_response_lost:
  assumes "reachable m given owed" "r \<in> owed" "\<forall>r' \<in> given. sr_RequestId r' = sr_RequestId r \<longrightarrow> r' = r"
  shows "(map_of (mb_buffered m) (sr_RequestId r) = Some r \<or>
      map_of (mb_pendingAck m) (sr_RequestId r) = Some r \<and> r \<in> set (mb_watchers m) \<and> map_of (mb_buffered (watcher_turn r m)) (sr_RequestId r) = Some r) \<and>
    (\<forall>send order tried err m' tried'. (\<forall>n b. mset (order n b) = mset b) \<and> flush send order m tried = (err, m', tried') \<and> map_of (mb_buffered m) (sr_RequestId r) = Some r \<longrightarrow>
       r \<in> accepted send tried tried' \<or> err \<noteq> None \<and> map_of (mb_buffered m') (sr_RequestId r) = Some r)"
proof (intro conjI allI impI)
  from reachable_keeps [OF assms(1)] assms(2,3)
  have wf: "wf_buffer m" and sub: "set (mb_watchers m) \<subseteq> given" and r: "r \<in> held m" by (auto simp: keeps_owed_def sole_def)
  then have maps: "wf_map (mb_buffered m)" "wf_map (mb_pendingAck m)" by (simp_all add: wf_buffer_def)
  show "map_of (mb_buffered m) (sr_RequestId r) = Some r \<or>
      map_of (mb_pendingAck m) (sr_RequestId r) = Some r \<and> r \<in> set (mb_watchers m) \<and> map_of (mb_buffered (watcher_turn r m)) (sr_RequestId r) = Some r"
  proof (cases "r \<in> snd ` set (mb_buffered m)")
    case True
    then show ?thesis by (simp add: wf_map_lookup maps)
  next
    case False
    with r have pend: "r \<in> snd ` set (mb_pendingAck m)" by (simp add: held_def)
    with wf maps obtain r' where "r' \<in> set (mb_watchers m)" "sr_RequestId r' = sr_RequestId r" by (auto simp: wf_buffer_def in_wf_map)
    with sub assms(3) have "r \<in> set (mb_watchers m)" by auto
    moreover have "map_of (mb_pendingAck m) (sr_RequestId r) = Some r" using pend by (simp add: wf_map_lookup maps)
    ultimately show ?thesis by (simp add: watcher_turn_def update_conv')
  qed
  fix send order tried err m' tried'
  assume f: "(\<forall>n b. mset (order n b) = mset b) \<and> flush send order m tried = (err, m', tried') \<and> map_of (mb_buffered m) (sr_RequestId r) = Some r"
  then have "r \<in> snd ` set (mb_buffered m)" by (simp add: wf_map_lookup maps)
  with f flush_parts [OF wf, of order send tried err m' tried'] have "r \<in> snd ` set (mb_buffered m') \<or> r \<in> accepted send tried tried'" "err = None \<Longrightarrow> mb_buffered m' = []" "wf_map (mb_buffered m')"
    by (auto simp: wf_buffer_def)
  then show "r \<in> accepted send tried tried' \<or> err \<noteq> None \<and> map_of (mb_buffered m') (sr_RequestId r) = Some r" by (cases err) (auto simp: wf_map_lookup)
qed

theorem no_response_lost_witness:
  "map_of (mb_pendingAck (acknowledge ''b'' (addPending (sample_resp ''b'') (addPending (sample_resp ''a'') newMessageBuffer)))) ''a'' = Some (sample_resp ''a'')"
proof -
  let ?m = "acknowledge ''b'' (addPending (sample_resp ''b'') (addPending (sample_resp ''a'') newMessageBuffer))"
  have id: "sr_RequestId (sample_resp k) = k" for k by (simp add: sample_resp_def)
  have "reachable ?m {sample_resp ''b'', sample_resp ''a''} {r \<in> {sample_resp ''b'', sample_resp ''a''}. sr_RequestId r \<noteq> ''b''}"
    by (intro reachable.intros)
  from no_response_lost [OF this, of "sample_resp ''a''"]
  have "map_of (mb_buffered ?m) ''a'' = Some (sample_resp ''a'') \<or> map_of (mb_pendingAck ?m) ''a'' = Some (sample_resp ''a'')" by (auto simp: id)
  moreover have "mb_buffered ?m = []" by (simp add: addPending_def acknowledge_def newMessageBuffer_def)
  ultimately show ?thesis by simp
qed

text \<open>The goroutine of an earlier response with the same request ID is still running, and it puts its own response into the buffer: when a
  request ID is answered again after the first answer was acknowledged, the old answer can replace the new one.\<close>

theorem stale_response_replaces:
  assumes "sr_RequestId old = k" "sr_RequestId new = k"
    and "m = addPending new (acknowledge k (addPending old m0))"
  shows "old \<in> set (mb_watchers m) \<and> map_of (mb_pendingAck m) k = Some new \<and>
    map_of (mb_buffered (watcher_turn old m)) k = Some old \<and> map_of (mb_pendingAck (watcher_turn old m)) k = None"
  using assms by (simp add: addPending_def acknowledge_def watcher_turn_def update_conv' delete_conv')

theorem stale_response_replaces_witness:
  "map_of (mb_buffered (watcher_turn (sample_resp ''a'') (addPending (sample_resp ''a''\<lparr>sr_Status := ERROR\<rparr>)
     (acknowledge ''a'' (addPending (sample_resp ''a'') newMessageBuffer))))) ''a'' = Some (sample_resp ''a'')"
  using stale_response_replaces [of "sample_resp ''a''" "''a''" "sample_resp ''a''\<lparr>sr_Status := ERROR\<rparr>" _ newMessageBuffer]
  by (simp add: sample_resp_def)

end
