(* ===== verification/Worker.thy ===== *)
theory Worker
  imports SyncProps Buffer
begin

text \<open>
  A connect worker's requests: \<open>connect/invoke.go\<close>, the acknowledgement handler of \<open>connect/connection.go\<close>, and \<open>Connect\<close> of
  \<open>connect.go\<close>, which makes a worker's options.

  \<open>proto\<close> collects the protobuf encodings (generated code): \<open>None\<close> is an error. The websocket is the list of messages written so far
  and the parameter \<open>ws\<close>, which says how the next write ends.
\<close>

section \<open>Messages\<close>

datatype GatewayMessageType = GATEWAY_HELLO | WORKER_CONNECT | GATEWAY_CONNECTION_READY | GATEWAY_EXECUTOR_REQUEST
  | WORKER_READY | WORKER_REQUEST_ACK | WORKER_REPLY | WORKER_REPLY_ACK | WORKER_PAUSE | WORKER_HEARTBEAT
  | GATEWAY_HEARTBEAT | GATEWAY_CLOSING

record ConnectMessage =
  cm_Kind :: GatewayMessageType
  cm_Payload :: bytes

record GatewayExecutorRequestData =
  gr_RequestId :: string
  gr_EnvId :: string
  gr_AppId :: string
  gr_FunctionSlug :: string
  gr_StepId :: "string option"
  gr_RequestPayload :: bytes

record WorkerRequestAckData =
  wa_RequestId :: string
  wa_AppId :: string
  wa_FunctionSlug :: string
  wa_StepId :: "string option"

record proto =
  pb_request :: "bytes \<Rightarrow> GatewayExecutorRequestData option"
  pb_ack :: "WorkerRequestAckData \<Rightarrow> bytes option"
  pb_response :: "SDKResponse \<Rightarrow> bytes option"
  pb_message :: "bytes \<Rightarrow> ConnectMessage option"

type_synonym websocket = "ConnectMessage list \<Rightarrow> ConnectMessage \<Rightarrow> goerr option"

text \<open>\<open>fmt.Errorf\<close> around an error of another package.\<close>

definition proto_error :: goerr where
  "proto_error = Errorf ''proto: error'' []"

section \<open>connect.go: the options of a worker\<close>

record Opts =
  co_AppName :: string
  co_Env :: "string option"
  co_Functions :: "SDKFunction list"
  co_Capabilities :: json
  co_HashedSigningKey :: string
  co_HashedSigningKeyFallback :: string
  co_MaxConcurrency :: int
  co_APIBaseUrl :: string
  co_IsDev :: bool
  co_DevServerUrl :: string
  co_AppVersion :: "string option"
  co_InstanceID :: "string option"
  co_Platform :: "string option"
  co_SDKVersion :: string
  co_SDKLanguage :: string
  co_RewriteGatewayEndpoint :: "(url \<Rightarrow> goerr + url) option"

record ConnectOpts =
  cp_InstanceID :: "string option"
  cp_RewriteGatewayEndpoint :: "(url \<Rightarrow> goerr + url) option"
  cp_MaxConcurrency :: int

definition defaultMaxWorkerConcurrency :: int where
  "defaultMaxWorkerConcurrency = 1000"

definition connectPlaceholder :: url where
  "connectPlaceholder = zero_url\<lparr>url_Scheme := ''ws'', url_Host := ''connect''\<rparr>"

text \<open>What \<open>Connect\<close> passes to \<open>connect.Connect\<close>.\<close>

definition handler_Connect :: "'v sys \<Rightarrow> ('w, 'v) handler \<Rightarrow> ConnectOpts \<Rightarrow> (goerr + Opts) outcome" where
  "handler_Connect sys h opts =
     (let concurrency = (if cp_MaxConcurrency opts < 1 then defaultMaxWorkerConcurrency else cp_MaxConcurrency opts);
          ho = h_opts h; env = sy_env sys
      in if cp_InstanceID opts = None then Returned (Inl (Errorf ''missing required Instance ID'' []))
         else case createFunctionConfigs (sy_slugMake sys) (h_appName h) (h_funcs h) connectPlaceholder True of
           Panicked p \<Rightarrow> Panicked p
         | Hijacked \<Rightarrow> Hijacked
         | Returned (Inl e) \<Rightarrow> Returned (Inl (wrapf ''error creating function configs: '' e))
         | Returned (Inr fns) \<Rightarrow>
             (let signingKey = GetSigningKey env ho; fallbackKey = GetSigningKeyFallback env ho
              in if signingKey = [] then Returned (Inl (Errorf ''signing key is required'' []))
                 else case hashedSigningKey signingKey of
                   Inl e \<Rightarrow> Returned (Inl (wrapf ''failed to hash signing key: '' e))
                 | Inr hashedKey \<Rightarrow>
                     (case (if fallbackKey \<noteq> [] then hashedSigningKey fallbackKey else Inr []) of
                        Inl e \<Rightarrow> Returned (Inl (wrapf ''failed to hash fallback signing key: '' e))
                      | Inr hashedFallbackKey \<Rightarrow> Returned (Inr
                          \<lparr>co_AppName = h_appName h, co_Env = ho_Env ho, co_Functions = fns, co_Capabilities = capabilities,
                           co_HashedSigningKey = hashedKey, co_HashedSigningKeyFallback = hashedFallbackKey,
                           co_MaxConcurrency = concurrency, co_APIBaseUrl = GetAPIBaseURL env ho, co_IsDev = isDev env ho,
                           co_DevServerUrl = DevServerURL env, co_AppVersion = ho_AppVersion ho, co_InstanceID = cp_InstanceID opts,
                           co_Platform = Some (platform env), co_SDKVersion = SDKVersion, co_SDKLanguage = SDKLanguage,
                           co_RewriteGatewayEndpoint = cp_RewriteGatewayEndpoint opts\<rparr>))))"

section \<open>invoke.go\<close>

text \<open>What is sent back for the result of the call; the response fields that all branches share come first.\<close>

definition base_response :: "GatewayExecutorRequestData \<Rightarrow> SDKResponse" where
  "base_response body = \<lparr>sr_RequestId = gr_RequestId body, sr_EnvId = gr_EnvId body, sr_AppId = gr_AppId body, sr_Status = NOT_COMPLETED,
     sr_Body = [], sr_NoRetry = False, sr_RetryAfter = None, sr_SdkVersion = [], sr_RequestVersion = 0\<rparr>"

text \<open>The error that is left after the ones reported as opcodes, whether retries are off, and when to retry, as \<open>connectInvoke\<close> settles them (its own copy of the code in \<open>handler.go\<close>).\<close>

definition connect_settle :: "'v sys \<Rightarrow> goerr option \<Rightarrow> GeneratorOpcode list \<Rightarrow> goerr option \<times> bool \<times> string option" where
  "connect_settle sys err ops =
     (let noRetry = IsNoRetryError err;
          retryAt = GetRetryAtTime err;
          err1 = (if length ops = 1 \<and> op_Op (ops ! 0) = OpcodeStepError then None else err);
          (err2, noRetry2) = (if IsStepError err1
            then (Some (Errorf (''Unhandled step error: '' @ (case err1 of Some e \<Rightarrow> fmt_err (CHR ''s'') e | None \<Rightarrow> ''%!s(<nil>)'')) []), True)
            else (err1, noRetry));
          retryAfterVal = (case retryAt of None \<Rightarrow> None | Some at \<Rightarrow> Some (sy_rfc3339 sys at))
      in (err2, noRetry2, retryAfterVal))"

definition invoke_response :: "'v sys \<Rightarrow> Opts \<Rightarrow> GatewayExecutorRequestData \<Rightarrow> 'v invoke_result \<Rightarrow> (goerr + SDKResponse) outcome" where
  "invoke_response sys opts body res =
     (case connect_settle sys (iv_err res) (iv_ops res) of (err, noRetry, retryAfterVal) \<Rightarrow>
        let r0 = (base_response body)\<lparr>sr_NoRetry := noRetry, sr_RetryAfter := retryAfterVal\<rparr>
        in case err of
             Some e \<Rightarrow>
               (case Error e of
                  None \<Rightarrow> Panicked nil_deref
                | Some m \<Rightarrow> Returned (Inr (r0\<lparr>sr_Status := ERROR, sr_Body := ''error calling function: '' @ m, sr_SdkVersion := co_SDKLanguage opts @ '':v'' @ co_SDKVersion opts\<rparr>)))
           | None \<Rightarrow>
               if iv_ops res \<noteq> [] then
                 Returned (Inr (r0\<lparr>sr_Status := NOT_COMPLETED, sr_Body := json_text (JArr (map (sy_op sys) (iv_ops res)))\<rparr>))
               else (case sy_value sys (iv_response res) of
                       None \<Rightarrow> Returned (Inl (wrapf ''could not serialize resp: '' json_error))
                     | Some j \<Rightarrow> Returned (Inr (r0\<lparr>sr_Status := DONE, sr_Body := json_text j\<rparr>))))"

definition connectInvoke ::
  "'v sys \<Rightarrow> proto \<Rightarrow> Opts \<Rightarrow> ('w, 'v) handler \<Rightarrow> websocket \<Rightarrow> ConnectMessage \<Rightarrow> ConnectMessage list \<Rightarrow> 'w \<Rightarrow>
     (goerr + SDKResponse) outcome \<times> ConnectMessage list \<times> 'w" where
  "connectInvoke sys pb opts h ws msg written world =
     (case pb_request pb (cm_Payload msg) of
        None \<Rightarrow> (Returned (Inl (wrapf ''invalid gateway message data: '' proto_error)), written, world)
      | Some body \<Rightarrow>
          (case (case json_parse (gr_RequestPayload body) of None \<Rightarrow> None | Some j \<Rightarrow> Unmarshal_Request j) of
             None \<Rightarrow> (Returned (Inl (wrapf ''invalid SDK request payload: '' json_error)), written, world)
           | Some request \<Rightarrow>
               (case pb_ack pb \<lparr>wa_RequestId = gr_RequestId body, wa_AppId = gr_AppId body, wa_FunctionSlug = gr_FunctionSlug body,
                        wa_StepId = gr_StepId body\<rparr> of
                  None \<Rightarrow> (Returned (Inl (PublicErr ''malformed input'' 400 None)), written, world)
                | Some ackPayload \<Rightarrow>
                    (let ackMsg = \<lparr>cm_Kind = WORKER_REQUEST_ACK, cm_Payload = ackPayload\<rparr>; written' = written @ [ackMsg]
                     in if ws written ackMsg \<noteq> None
                        then (Returned (Inl (PublicErr ''failed to ack worker request'' 400 None)), written', world)
                        else let stepId = (case gr_StepId body of Some s \<Rightarrow> if s \<noteq> ''step'' then Some s else None | None \<Rightarrow> None)
                          in case InvokeFunction (sy_slugMake sys) (sy_dur sys) (sy_stack sys) h (gr_FunctionSlug body) stepId request world of
                               (Returned res, world') \<Rightarrow> (invoke_response sys opts body res, written', world')
                             | (Hijacked, world') \<Rightarrow> (Hijacked, written', world')
                             | (Panicked p, world') \<Rightarrow> (Panicked p, written', world')))))"

definition handleInvokeMessage ::
  "'v sys \<Rightarrow> proto \<Rightarrow> Opts \<Rightarrow> ('w, 'v) handler \<Rightarrow> websocket \<Rightarrow> ConnectMessage \<Rightarrow> ConnectMessage list \<Rightarrow> messageBuffer \<Rightarrow> 'w \<Rightarrow>
     goerr option outcome \<times> ConnectMessage list \<times> messageBuffer \<times> 'w" where
  "handleInvokeMessage sys pb opts h ws msg written mb world =
     (case connectInvoke sys pb opts h ws msg written world of
        (Panicked p, written', world') \<Rightarrow> (Panicked p, written', mb, world')
      | (Hijacked, written', world') \<Rightarrow> (Hijacked, written', mb, world')
      | (Returned (Inl e), written', world') \<Rightarrow> (Returned (Some (wrapf ''could not handle sdk request: '' e)), written', mb, world')
      | (Returned (Inr resp), written', world') \<Rightarrow>
          (case pb_response pb resp of
             None \<Rightarrow> (Returned (Some (wrapf ''could not serialize sdk response: '' proto_error)), written', mb, world')
           | Some data \<Rightarrow>
               (let reply = \<lparr>cm_Kind = WORKER_REPLY, cm_Payload = data\<rparr>; mb1 = addPending resp mb
                in case ws written' reply of
                     Some e \<Rightarrow> (Returned (Some (wrapf ''could not send sdk response: '' e)), written' @ [reply], append_msg resp mb1, world')
                   | None \<Rightarrow> (Returned None, written' @ [reply], mb1, world'))))"

section \<open>connection.go: acknowledgements\<close>

text \<open>The payload is decoded into the message that carried it, and the request ID is read from the empty acknowledgement.\<close>

definition handleMessageReplyAck :: "proto \<Rightarrow> ConnectMessage \<Rightarrow> messageBuffer \<Rightarrow> goerr option \<times> messageBuffer" where
  "handleMessageReplyAck pb msg mb =
     (case pb_message pb (cm_Payload msg) of
        None \<Rightarrow> (Some (wrapf ''could not unmarshal reply ack data: '' proto_error), mb)
      | Some _ \<Rightarrow> (None, acknowledge [] mb))"

section \<open>Examples\<close>

definition sample_opts :: Opts where
  "sample_opts = \<lparr>co_AppName = ''app'', co_Env = None, co_Functions = [], co_Capabilities = capabilities, co_HashedSigningKey = ''key'',
     co_HashedSigningKeyFallback = [], co_MaxConcurrency = 1, co_APIBaseUrl = [], co_IsDev = False, co_DevServerUrl = [], co_AppVersion = None,
     co_InstanceID = Some ''host'', co_Platform = None, co_SDKVersion = SDKVersion, co_SDKLanguage = SDKLanguage,
     co_RewriteGatewayEndpoint = None\<rparr>"

definition sample_gateway_request :: GatewayExecutorRequestData where
  "sample_gateway_request = \<lparr>gr_RequestId = ''req'', gr_EnvId = [], gr_AppId = [], gr_FunctionSlug = ''app-counter'', gr_StepId = None,
     gr_RequestPayload = json_text event_body\<rparr>"

definition sample_proto :: proto where
  "sample_proto = \<lparr>pb_request = \<lambda>p. if p = ''other'' then Some (sample_gateway_request\<lparr>gr_FunctionSlug := ''other''\<rparr>) else Some sample_gateway_request,
     pb_ack = \<lambda>a. Some (wa_RequestId a), pb_response = \<lambda>r. Some (sr_Body r), pb_message = \<lambda>_. None\<rparr>"

definition sample_message :: ConnectMessage where
  "sample_message = \<lparr>cm_Kind = GATEWAY_EXECUTOR_REQUEST, cm_Payload = []\<rparr>"

definition sample_ack :: ConnectMessage where
  "sample_ack = \<lparr>cm_Kind = WORKER_REQUEST_ACK, cm_Payload = ''req''\<rparr>"

lemma sample_proto_simps [simp]:
  "pb_request sample_proto p = Some (if p = ''other'' then sample_gateway_request\<lparr>gr_FunctionSlug := ''other''\<rparr> else sample_gateway_request)"
  "pb_ack sample_proto a = Some (wa_RequestId a)" "pb_response sample_proto r = Some (sr_Body r)"
  "gr_RequestId sample_gateway_request = ''req''" "gr_FunctionSlug sample_gateway_request = ''app-counter''"
  "gr_RequestPayload sample_gateway_request = json_text event_body" "gr_StepId sample_gateway_request = None"
  "cm_Payload sample_message = []"
  by (simp_all add: sample_proto_def sample_gateway_request_def sample_message_def)

lemma sample_settled: "connect_settle sys None [(run_op OpcodeStepRun k n)\<lparr>op_Data := d\<rparr>] = (None, False, None)"
  by (simp add: connect_settle_def)

lemma sample_connectInvoke:
  "\<exists>resp. connectInvoke sample_sys sample_proto sample_opts (sample_handler None) (\<lambda>_ _. None) sample_message [] 0 =
     (Returned (Inr resp), [sample_ack], 1) \<and> sr_RequestId resp = ''req''"
proof -
  have fn: "getServableFunctionBySlug (\<lambda>n. n) (sample_handler None) ''app-counter'' = Some count_fn"
    by (simp add: getServableFunctionBySlug_def example_defs Slug_def no_opts_def)
  have snd: "snd (invoke (sy_dur sample_sys) (sy_stack sample_sys) count_fn count_request None 0) = 1" by (simp add: invoke_def example_defs)
  note run = prod.collapse [of "invoke (sy_dur sample_sys) (sy_stack sample_sys) count_fn count_request None 0", unfolded count_invoke snd, symmetric]
  show ?thesis
    by (simp add: connectInvoke_def Let_def event_body_parse event_body_request InvokeFunction_def fn run invoke_response_def sample_settled
        sample_ack_def base_response_def del: json_text.simps)
qed

section \<open>Properties\<close>

lemma connect_settle_agrees:
  "connect_settle sys (iv_err res) (iv_ops res) =
     (fst (settle_error res), fst (snd (settle_error res)), map_option (sy_rfc3339 sys) (snd (snd (settle_error res))))"
proof -
  have one: "(length ops = 1 \<and> op_Op (ops ! 0) = OpcodeStepError) = (case ops of [op] \<Rightarrow> op_Op op = OpcodeStepError | _ \<Rightarrow> False)" for ops
    by (auto split: list.splits)
  show ?thesis unfolding connect_settle_def one settle_error_def Let_def by (auto split: list.splits option.splits)
qed

text \<open>The retry headers of the HTTP answer.\<close>

lemma respond_retry_headers:
  assumes "settle_error res = (err, noRetry, retryAt)" "w = SetBasicResponseHeaders new_response"
  shows "map_of (rw_final_header (snd (respond sys res w))) (CanonicalHeaderKey HeaderKeyNoRetry) = (if noRetry then Some ''true'' else None)"
    "map_of (rw_final_header (snd (respond sys res w))) (CanonicalHeaderKey HeaderKeyRetryAfter) = map_option (sy_rfc3339 sys) retryAt"
proof -
  define w2 where "w2 = (case retryAt of Some t \<Rightarrow> rw_Add HeaderKeyRetryAfter (sy_rfc3339 sys t) (if noRetry then rw_Add HeaderKeyNoRetry ''true'' w else w)
    | None \<Rightarrow> (if noRetry then rw_Add HeaderKeyNoRetry ''true'' w else w))"
  have "rw_sent w2 = None" by (simp add: w2_def assms(2) split: option.splits)
  then have "rw_final_header (snd (respond sys res w)) = rw_header w2"
    by (simp add: respond_def assms(1) w2_def [symmetric] final_header_WriteHeader final_header_unsent split: option.splits)
  moreover have "map_of (rw_header w2) (CanonicalHeaderKey HeaderKeyNoRetry) = (if noRetry then Some ''true'' else None)"
    "map_of (rw_header w2) (CanonicalHeaderKey HeaderKeyRetryAfter) = map_option (sy_rfc3339 sys) retryAt"
    by (auto simp: w2_def assms(2) rw_header_Add map_add_def canonical_keys split: option.splits)
  ultimately show "map_of (rw_final_header (snd (respond sys res w))) (CanonicalHeaderKey HeaderKeyNoRetry) = (if noRetry then Some ''true'' else None)"
    "map_of (rw_final_header (snd (respond sys res w))) (CanonicalHeaderKey HeaderKeyRetryAfter) = map_option (sy_rfc3339 sys) retryAt" by simp_all
qed

text \<open>C29: The two ways to serve a function tell the service the same, although each has its own copy of the code that settles errors. For one and the same result of the call, the worker's response is \<open>DONE\<close> exactly
  when the HTTP handler answers 200, \<open>NOT_COMPLETED\<close> exactly when it answers 206, and \<open>ERROR\<close> exactly when it fails the request;
  the bodies of the first two are equal up to the newline the HTTP encoder adds; and whatever the status, the response forbids retries exactly when the HTTP answer has the no-retry header,
  and carries the time to retry at exactly when the HTTP answer has the retry-after header, with the same text.\<close>

theorem connect_agrees_with_http:
  assumes "invoke_response sys opts body res = Returned (Inr r)" "w = SetBasicResponseHeaders new_response"
  shows "(sr_Status r = DONE \<longleftrightarrow> fst (respond sys res w) = Returned None \<and> rw_status (snd (respond sys res w)) = 200) \<and>
    (sr_Status r = NOT_COMPLETED \<longleftrightarrow> fst (respond sys res w) = Returned None \<and> rw_status (snd (respond sys res w)) = 206) \<and>
    (sr_Status r = ERROR \<longleftrightarrow> (\<exists>e. fst (respond sys res w) = Returned (Some e))) \<and>
    (sr_Status r \<noteq> ERROR \<longrightarrow> rw_body (snd (respond sys res w)) = sr_Body r @ [CHR 0x0A]) \<and>
    (map_of (rw_final_header (snd (respond sys res w))) (CanonicalHeaderKey HeaderKeyNoRetry) = (if sr_NoRetry r then Some ''true'' else None)) \<and>
    map_of (rw_final_header (snd (respond sys res w))) (CanonicalHeaderKey HeaderKeyRetryAfter) = sr_RetryAfter r"
proof -
  obtain err noRetry retryAt where se: "settle_error res = (err, noRetry, retryAt)" by (cases "settle_error res")
  then have cs: "connect_settle sys (iv_err res) (iv_ops res) = (err, noRetry, map_option (sy_rfc3339 sys) retryAt)" by (simp add: connect_settle_agrees)
  have unsent: "rw_sent w = None" "rw_body w = []" using assms(2) by (simp_all add: new_response_def)
  have st: "fst (respond sys res w) = Returned None \<Longrightarrow> rw_status (snd (respond sys res w)) = (if iv_ops res \<noteq> [] then 206 else 200)"
    by (rule respond_status [OF unsent(1)])
  have flags: "sr_NoRetry r = noRetry" "sr_RetryAfter r = map_option (sy_rfc3339 sys) retryAt"
    using assms(1) cs by (auto simp: invoke_response_def Let_def base_response_def split: option.splits if_splits)
  have "(sr_Status r = DONE \<longleftrightarrow> fst (respond sys res w) = Returned None \<and> rw_status (snd (respond sys res w)) = 200) \<and>
    (sr_Status r = NOT_COMPLETED \<longleftrightarrow> fst (respond sys res w) = Returned None \<and> rw_status (snd (respond sys res w)) = 206) \<and>
    (sr_Status r = ERROR \<longleftrightarrow> (\<exists>e. fst (respond sys res w) = Returned (Some e))) \<and>
    (sr_Status r \<noteq> ERROR \<longrightarrow> rw_body (snd (respond sys res w)) = sr_Body r @ [CHR 0x0A])"
  proof (cases err)
    case None
    show ?thesis
    proof (cases "iv_ops res = []")
      case True
      with None assms(1) cs obtain j where "sy_value sys (iv_response res) = Some j"
        by (auto simp: invoke_response_def Let_def split: option.splits)
      with None True assms(1) se cs st unsent show ?thesis
        by (auto simp: invoke_response_def respond_def Let_def base_response_def Encode_def rw_Write_def WriteHeader_def split: option.splits)
    next
      case False
      with None assms(1) se cs st unsent show ?thesis
        by (auto simp: invoke_response_def respond_def Let_def base_response_def Encode_def rw_Write_def WriteHeader_def split: option.splits)
    qed
  next
    case (Some e)
    with assms(1) se cs show ?thesis
      by (auto simp: invoke_response_def respond_def Let_def base_response_def split: option.splits)
  qed
  with respond_retry_headers [OF se assms(2)] flags show ?thesis by simp
qed

theorem connect_agrees_with_http_witness:
  "let res = \<lparr>iv_response = None, iv_ops = [run_op OpcodeStepError [] ''s''], iv_err = Some (NoRetryError (Some json_error))\<rparr>; w = SetBasicResponseHeaders new_response
   in \<exists>r. invoke_response sample_sys sample_opts sample_gateway_request res = Returned (Inr r) \<and> sr_Status r = NOT_COMPLETED \<and> sr_NoRetry r \<and>
        rw_status (snd (respond sample_sys res w)) = 206 \<and> map_of (rw_final_header (snd (respond sample_sys res w))) (CanonicalHeaderKey HeaderKeyNoRetry) = Some ''true''"
proof -
  let ?res = "\<lparr>iv_response = None, iv_ops = [run_op OpcodeStepError [] ''s''], iv_err = Some (NoRetryError (Some json_error))\<rparr> :: int invoke_result"
  have "IsNoRetryError (Some (NoRetryError (Some json_error)))" by (simp add: NoRetryError_def err_simps)
  then obtain r where r: "invoke_response sample_sys sample_opts sample_gateway_request ?res = Returned (Inr r)" "sr_Status r = NOT_COMPLETED" "sr_NoRetry r"
    by (simp add: invoke_response_def connect_settle_def run_op_def Let_def del: json_text.simps)
  with connect_agrees_with_http [OF r(1) refl] show ?thesis by (auto simp: Let_def)
qed

text \<open>A computed response is never dropped by the worker: after it was written to the gateway it is pending, and when the write failed it is in the
  buffer; a buffer that satisfies the invariant of \<open>Buffer\<close> satisfies it afterwards, with the response among those owed.\<close>

theorem response_is_kept:
  assumes "connectInvoke sys pb opts h ws msg written world = (Returned (Inr resp), written1, world1)" "pb_response pb resp = Some data"
    "handleInvokeMessage sys pb opts h ws msg written mb world = (oc, written', mb', world')" "reachable mb given owed"
  shows "reachable mb' (insert resp given) (insert resp owed) \<and>
    (case oc of Returned None \<Rightarrow> map_of (mb_pendingAck mb') (sr_RequestId resp) = Some resp
     | _ \<Rightarrow> map_of (mb_buffered mb') (sr_RequestId resp) = Some resp)"
proof -
  have add: "reachable (addPending resp mb) (insert resp given) (insert resp owed)" by (rule reachable.add [OF assms(4)])
  then have app: "reachable (append_msg resp (addPending resp mb)) (insert resp given) (insert resp owed)"
    using reachable.app [OF add, of resp] by simp
  have kept: "map_of (mb_pendingAck (addPending resp mb)) (sr_RequestId resp) = Some resp"
    "map_of (mb_buffered (append_msg resp (addPending resp mb))) (sr_RequestId resp) = Some resp"
    by (simp_all add: addPending_def append_msg_def update_conv')
  show ?thesis using assms(1-3) add app kept by (auto simp: handleInvokeMessage_def Let_def split: option.splits)
qed

theorem response_is_kept_witness:
  "\<exists>written' mb' resp. handleInvokeMessage sample_sys sample_proto sample_opts (sample_handler None) (\<lambda>_ _. None) sample_message [] newMessageBuffer 0 =
     (Returned None, written', mb', 1) \<and> sr_RequestId resp = ''req'' \<and> reachable mb' {resp} {resp}"
proof -
  obtain resp where inv: "connectInvoke sample_sys sample_proto sample_opts (sample_handler None) (\<lambda>_ _. None) sample_message [] 0 =
      (Returned (Inr resp), [sample_ack], 1)" and sid: "sr_RequestId resp = ''req''"
    using sample_connectInvoke by blast
  obtain written' mb' where h: "handleInvokeMessage sample_sys sample_proto sample_opts (sample_handler None) (\<lambda>_ _. None) sample_message []
      newMessageBuffer 0 = (Returned None, written', mb', 1)"
    using inv by (simp add: handleInvokeMessage_def Let_def)
  from response_is_kept [OF inv _ h reachable.fresh] sid h show ?thesis by auto
qed

text \<open>C32: A request is acknowledged before its function runs, and a request whose acknowledgement cannot be sent is not run: if handling a message changed
  the world, the acknowledgement is the first message written for it and its write succeeded.\<close>

theorem acknowledged_before_run:
  assumes "connectInvoke sys pb v h ws msg written world = (oc, written', world')" "world' \<noteq> world"
  shows "\<exists>a. written' = written @ [a] \<and> cm_Kind a = WORKER_REQUEST_ACK \<and> ws written a = None"
  using assms by (auto simp: connectInvoke_def Let_def split: option.splits if_splits prod.splits outcome.splits)

theorem acknowledged_before_run_witness:
  "\<exists>oc written' world'. connectInvoke sample_sys sample_proto sample_opts (sample_handler None) (\<lambda>_ _. None) sample_message [] 0 = (oc, written', world') \<and>
     world' \<noteq> 0 \<and> (\<exists>a. written' = [a] \<and> cm_Kind a = WORKER_REQUEST_ACK)"
proof -
  obtain resp where inv: "connectInvoke sample_sys sample_proto sample_opts (sample_handler None) (\<lambda>_ _. None) sample_message [] 0 =
      (Returned (Inr resp), [sample_ack], 1)"
    using sample_connectInvoke by blast
  from acknowledged_before_run [OF inv] inv show ?thesis by auto
qed

text \<open>C39: A request for a function that is not registered crashes the worker: the error has no wrapped error, so asking for its text dereferences
  nil in a goroutine that recovers no panics.\<close>

theorem unknown_function_panics:
  assumes "pb_request pb (cm_Payload msg) = Some body" "json_parse (gr_RequestPayload body) = Some j" "Unmarshal_Request j = Some request"
    "pb_ack pb \<lparr>wa_RequestId = gr_RequestId body, wa_AppId = gr_AppId body, wa_FunctionSlug = gr_FunctionSlug body, wa_StepId = gr_StepId body\<rparr> = Some a"
    "ws written \<lparr>cm_Kind = WORKER_REQUEST_ACK, cm_Payload = a\<rparr> = None"
    "getServableFunctionBySlug (sy_slugMake sys) h (gr_FunctionSlug body) = None"
  shows "fst (connectInvoke sys pb v h ws msg written world) = Panicked nil_deref"
  using assms by (simp add: connectInvoke_def Let_def InvokeFunction_def invoke_response_def connect_settle_def)

theorem unknown_function_panics_witness:
  "fst (connectInvoke sample_sys sample_proto sample_opts (sample_handler None) (\<lambda>_ _. None) (sample_message\<lparr>cm_Payload := ''other''\<rparr>) [] 0) =
     Panicked nil_deref"
proof (rule unknown_function_panics)
  show "json_parse (gr_RequestPayload (sample_gateway_request\<lparr>gr_FunctionSlug := ''other''\<rparr>)) = Some event_body"
    by (simp add: event_body_parse del: json_text.simps)
  show "Unmarshal_Request event_body = Some count_request" by (rule event_body_request)
  show "getServableFunctionBySlug (sy_slugMake sample_sys) (sample_handler None) (gr_FunctionSlug (sample_gateway_request\<lparr>gr_FunctionSlug := ''other''\<rparr>)) = None"
    by (simp add: getServableFunctionBySlug_def example_defs Slug_def no_opts_def)
qed simp_all

text \<open>Acknowledgements from the gateway have no effect: whatever request ID an acknowledgement carries, every pending response with a non-empty request ID
  stays pending, so it is moved to the buffer later and sent a second time.\<close>

theorem reply_ack_ignored:
  assumes "k \<noteq> []"
  shows "map_of (mb_pendingAck (snd (handleMessageReplyAck pb msg mb))) k = map_of (mb_pendingAck mb) k"
  using assms by (auto simp: handleMessageReplyAck_def acknowledge_def delete_conv' split: option.splits)

theorem reply_ack_ignored_witness:
  "let r = (base_response sample_gateway_request)\<lparr>sr_Status := DONE\<rparr>; mb = addPending r newMessageBuffer;
       pb = sample_proto\<lparr>pb_message := \<lambda>_. Some sample_message\<rparr>
   in map_of (mb_pendingAck (snd (handleMessageReplyAck pb \<lparr>cm_Kind = WORKER_REPLY_ACK, cm_Payload = ''req''\<rparr> mb))) ''req'' = Some r"
  using reply_ack_ignored [of "''req''" "sample_proto\<lparr>pb_message := \<lambda>_. Some sample_message\<rparr>" "\<lparr>cm_Kind = WORKER_REPLY_ACK, cm_Payload = ''req''\<rparr>"
    "addPending ((base_response sample_gateway_request)\<lparr>sr_Status := DONE\<rparr>) newMessageBuffer"]
  by (simp add: Let_def addPending_def newMessageBuffer_def base_response_def)

text \<open>A worker does not start with options it could not run on: the options passed on have an instance ID, at least one worker goroutine, and one
  configuration per registered function; without an instance ID nothing is started, although the field's documentation promises the host's name.\<close>

theorem handler_Connect_options:
  "(cp_InstanceID opts = None \<longrightarrow> (\<exists>e. handler_Connect sys h opts = Returned (Inl e))) \<and>
   (handler_Connect sys h opts = Returned (Inr copts) \<longrightarrow>
      co_InstanceID copts \<noteq> None \<and> co_MaxConcurrency copts \<ge> 1 \<and> map sdk_Slug (co_Functions copts) = map (\<lambda>f. Slug (sy_slugMake sys) f (h_appName h)) (h_funcs h) \<and>
      hashedSigningKey (GetSigningKey (sy_env sys) (h_opts h)) = Inr (co_HashedSigningKey copts))"
proof (intro conjI impI)
  show "\<exists>e. handler_Connect sys h opts = Returned (Inl e)" if "cp_InstanceID opts = None" using that by (simp add: handler_Connect_def Let_def)
next
  assume c: "handler_Connect sys h opts = Returned (Inr copts)"
  have slugs: "fn_configs m a fs u = Returned cs \<Longrightarrow> map sdk_Slug cs = map (\<lambda>f. Slug m f a) fs" for m a u cs and fs :: "('b, 'a) servableFunc list"
    by (induction fs arbitrary: u cs) (auto simp: Let_def fn_config_def split: option.splits outcome.splits)
  show "co_InstanceID copts \<noteq> None" "co_MaxConcurrency copts \<ge> 1" "hashedSigningKey (GetSigningKey (sy_env sys) (h_opts h)) = Inr (co_HashedSigningKey copts)"
    using c by (auto simp: handler_Connect_def Let_def defaultMaxWorkerConcurrency_def split: outcome.splits sum.splits if_splits)
  show "map sdk_Slug (co_Functions copts) = map (\<lambda>f. Slug (sy_slugMake sys) f (h_appName h)) (h_funcs h)"
    using c by (auto simp: handler_Connect_def createFunctionConfigs_def Let_def split: outcome.splits sum.splits if_splits dest: slugs)
qed

definition worker_sys :: "int sys" where
  "worker_sys = sample_sys\<lparr>sy_env := \<lambda>n. if n = ''INNGEST_SIGNING_KEY'' then ''ab'' else []\<rparr>"

definition worker_copts :: ConnectOpts where
  "worker_copts = \<lparr>cp_InstanceID = Some ''host'', cp_RewriteGatewayEndpoint = None, cp_MaxConcurrency = 0\<rparr>"

lemma sample_handler_connects: "\<exists>copts. handler_Connect worker_sys (sample_handler (Some True)) worker_copts = Returned (Inr copts)"
proof -
  have "normalizeKey ''ab'' = ''ab''" "hex_decode ''ab'' \<noteq> None" by code_simp+
  then obtain k where "hashedSigningKey ''ab'' = Inr k" by (auto simp: hashedSigningKey_def)
  moreover have "Slug (\<lambda>n. n) count_fn ''app'' = ''app-counter''" by (simp add: Slug_def count_fn_def no_opts_def)
  moreover have "GetSigningKey (\<lambda>n. if n = ''INNGEST_SIGNING_KEY'' then ''ab'' else []) (no_handler_opts\<lparr>ho_Logger := True, ho_Dev := Some True\<rparr>) = ''ab''"
    "GetSigningKeyFallback (\<lambda>n. if n = ''INNGEST_SIGNING_KEY'' then ''ab'' else []) (no_handler_opts\<lparr>ho_Logger := True, ho_Dev := Some True\<rparr>) = []"
    by (simp_all add: GetSigningKey_def GetSigningKeyFallback_def no_handler_opts_def)
  moreover have "\<exists>t. config_trigger (sf_trigger count_fn) = Some t" by (simp add: config_trigger_def count_fn_def CronTrigger_def)
  ultimately show ?thesis by (auto simp: worker_sys_def worker_copts_def handler_Connect_def createFunctionConfigs_def Let_def)
qed

theorem handler_Connect_options_witness:
  "\<exists>copts. handler_Connect worker_sys (sample_handler (Some True)) worker_copts = Returned (Inr copts) \<and>
     co_MaxConcurrency copts \<ge> 1 \<and> map sdk_Slug (co_Functions copts) = [''app-counter'']"
proof -
  obtain copts where "handler_Connect worker_sys (sample_handler (Some True)) worker_copts = Returned (Inr copts)" using sample_handler_connects ..
  with handler_Connect_options [of worker_copts worker_sys "sample_handler (Some True)" copts] show ?thesis
    by (simp add: worker_sys_def Slug_def count_fn_def no_opts_def)
qed

end
