(* ===== verification/Connection.thy ===== *)
theory Connection
  imports Worker
begin

text \<open>
  One connection of a connect worker to a gateway: the API calls of \<open>connect/workerapi.go\<close>, the handshake of
  \<open>connect/handshake.go\<close>, and \<open>connect/connection.go\<close>, from the start request to the report that the run loop
  receives when the connection is over.

  The protobuf encodings (generated code) are the record \<open>wire\<close>. What a websocket does is data: the messages or errors its reads return, in order, and
  how a write ends. Of the contexts it matters whether they were over when a connection was begun and
  when the read loop ended. Reading the body of an API
  response does not fail in the model.
\<close>

section \<open>workerapi.go\<close>

text \<open>\<open>strconv.Quote\<close> for the texts the gateway sends (bytes from 128 on are passed through).\<close>

definition quote_char :: "char \<Rightarrow> string" where
  "quote_char c = (let b = byte c in
     if b = 34 \<or> b = 92 then [CHR 0x5C, c]
     else if b = 7 then [CHR 0x5C, CHR ''a''] else if b = 8 then [CHR 0x5C, CHR ''b''] else if b = 12 then [CHR 0x5C, CHR ''f'']
     else if b = 10 then [CHR 0x5C, CHR ''n''] else if b = 13 then [CHR 0x5C, CHR ''r''] else if b = 9 then [CHR 0x5C, CHR ''t'']
     else if b = 11 then [CHR 0x5C, CHR ''v'']
     else if b < 32 \<or> b = 127 then [CHR 0x5C, CHR ''x'', hex_char (b div 16), hex_char (b mod 16)] else [c])"

definition Quote :: "string \<Rightarrow> string" where
  "Quote s = [CHR 0x22] @ concat (map quote_char s) @ [CHR 0x22]"

record StartResponse =
  st_GatewayEndpoint :: string
  st_GatewayGroup :: string
  st_SessionToken :: string
  st_SyncToken :: string

record WorkerConnectRequestData =
  wc_AppVersion :: "string option"
  wc_InstanceId :: string
  wc_ConnectionId :: string
  wc_SessionToken :: string
  wc_SyncToken :: string
  wc_AppName :: string
  wc_Capabilities :: bytes
  wc_Functions :: bytes
  wc_CpuCores :: int
  wc_MemBytes :: int
  wc_Os :: string
  wc_Environment :: "string option"
  wc_Platform :: "string option"
  wc_SdkVersion :: string
  wc_SdkLanguage :: string
  wc_WorkerManualReadinessAck :: bool
  wc_StartedAt :: gotime

record wire =
  wr_start_request :: "string list \<Rightarrow> bytes option"
  wr_start_response :: "bytes \<Rightarrow> StartResponse option"
  wr_flush_response :: "bytes \<Rightarrow> bool"
  wr_connect :: "WorkerConnectRequestData \<Rightarrow> bytes option"
  wr_kind :: "GatewayMessageType \<Rightarrow> string"

record workerApiClient =
  ac_env :: "string option"
  ac_apiBaseUrl :: string

definition newWorkerApiClient :: "string \<Rightarrow> string option \<Rightarrow> workerApiClient" where
  "newWorkerApiClient apiBaseUrl env = \<lparr>ac_env = env, ac_apiBaseUrl = apiBaseUrl\<rparr>"

definition api_request :: "workerApiClient \<Rightarrow> string \<Rightarrow> string \<Rightarrow> bytes \<Rightarrow> http_request option" where
  "api_request a path key body =
     (case url_Parse (ac_apiBaseUrl a @ path) of
        None \<Rightarrow> None
      | Some u \<Rightarrow>
          (let hd = header_Set (header_Set [] ''Content-Type'' ''application/protobuf'') ''Authorization'' (''Bearer '' @ key)
           in Some \<lparr>hq_Method = ''POST'', hq_URL = u,
                hq_Header = (case ac_env a of Some e \<Rightarrow> header_Add hd ''X-Inngest-Env'' e | None \<Rightarrow> hd), hq_Body = body\<rparr>))"

text \<open>\<open>ctxErr\<close> is what \<open>ctx.Err()\<close> gives when the request is made: \<open>http.Client\<close> sends no request under a context that is over.\<close>

definition start ::
  "wire \<Rightarrow> client \<Rightarrow> workerApiClient \<Rightarrow> goerr option \<Rightarrow> string \<Rightarrow> string list \<Rightarrow> http_request list \<Rightarrow> (goerr + StartResponse) \<times> http_request list" where
  "start w Do a ctxErr key excludeGateways sent =
     (case wr_start_request w excludeGateways of
        None \<Rightarrow> (Inl (wrapf ''could not marshal start request: '' proto_error), sent)
      | Some reqBody \<Rightarrow>
          (case api_request a ''/v0/connect/start'' key reqBody of
             None \<Rightarrow> (Inl (wrapf ''could not create start request: '' (Errorf ''parse error'' [])), sent)
           | Some req \<Rightarrow>
               if ctxErr \<noteq> None then (Inl (wrapf ''could not send start request: '' (wrapf (''Post '' @ Quote (url_String (hq_URL req)) @ '': '') (the ctxErr))), sent)
               else ((case Do sent req of
                   Inl e \<Rightarrow> Inl (wrapf ''could not send start request: '' e)
                 | Inr res \<Rightarrow>
                     (let st = hr_StatusCode res
                      in if st \<noteq> 200 then
                           (if st = 401 then Inl (ReconnectErr (Sentinel ErrUnauthenticated))
                            else if st = 429 then Inl (ReconnectErr (Sentinel ErrTooManyConnections))
                            else Inl (Errorf (''unexpected status code: '' @ Itoa st) []))
                         else case wr_start_response w (hr_Body res) of
                           None \<Rightarrow> Inl (wrapf ''could not unmarshal start response: '' proto_error)
                         | Some r \<Rightarrow> Inr r)), sent @ [req])))"

definition sendBufferedMessage ::
  "proto \<Rightarrow> wire \<Rightarrow> client \<Rightarrow> workerApiClient \<Rightarrow> string \<Rightarrow> SDKResponse \<Rightarrow> http_request list \<Rightarrow> goerr option \<times> http_request list" where
  "sendBufferedMessage pb w Do a key msg sent =
     (case pb_response pb msg of
        None \<Rightarrow> (Some (wrapf ''could not marshal sdk response for flush request: '' proto_error), sent)
      | Some reqBody \<Rightarrow>
          (case api_request a ''/v0/connect/flush'' key reqBody of
             None \<Rightarrow> (Some (wrapf ''could not create flush request: '' (Errorf ''parse error'' [])), sent)
           | Some req \<Rightarrow>
               ((case Do sent req of
                   Inl e \<Rightarrow> Some (wrapf ''could not send flush request: '' e)
                 | Inr res \<Rightarrow>
                     (let st = hr_StatusCode res
                      in if st \<noteq> 200 then Some (Errorf (''unexpected status code: '' @ Itoa st) [])
                         else if wr_flush_response w (hr_Body res) then None
                         else Some (wrapf ''could not unmarshal flush response: '' proto_error))), sent @ [req])))"

text \<open>The API as \<open>flush\<close> sees it: whether it accepts a message after those that were tried before. \<open>sent\<close> are the requests that went out earlier.\<close>

definition requests_after :: "proto \<Rightarrow> wire \<Rightarrow> client \<Rightarrow> workerApiClient \<Rightarrow> string \<Rightarrow> SDKResponse list \<Rightarrow> http_request list \<Rightarrow> http_request list" where
  "requests_after pb w Do a key tried sent = fold (\<lambda>msg sent. snd (sendBufferedMessage pb w Do a key msg sent)) tried sent"

definition flush_api :: "proto \<Rightarrow> wire \<Rightarrow> client \<Rightarrow> workerApiClient \<Rightarrow> string \<Rightarrow> http_request list \<Rightarrow> SDKResponse list \<Rightarrow> SDKResponse \<Rightarrow> bool" where
  "flush_api pb w Do a key sent tried msg = (fst (sendBufferedMessage pb w Do a key msg (requests_after pb w Do a key tried sent)) = None)"

section \<open>handshake.go\<close>

definition newReconnectErr :: "goerr \<Rightarrow> goerr" where
  "newReconnectErr wrapped = ReconnectErr wrapped"

definition shouldReconnect :: "goerr \<Rightarrow> bool" where
  "shouldReconnect err = (errors_As (\<lambda>e. case e of ReconnectErr _ \<Rightarrow> Some () | _ \<Rightarrow> None) err \<noteq> None)"

record connectionEstablishData =
  ce_hashedSigningKey :: string
  ce_numCpuCores :: int
  ce_totalMem :: int
  ce_marshaledFns :: bytes
  ce_marshaledCapabilities :: bytes
  ce_manualReadinessAck :: bool

text \<open>\<open>os.Hostname\<close> (empty when it fails) and \<open>runtime.GOOS\<close>.\<close>

record host =
  hs_hostname :: string
  hs_GOOS :: string

definition instanceId :: "host \<Rightarrow> Opts \<Rightarrow> string" where
  "instanceId hst opts = (case co_InstanceID opts of Some i \<Rightarrow> i
     | None \<Rightarrow> if hs_hostname hst \<noteq> [] then hs_hostname hst else ''<missing-instance-id>'')"

text \<open>A websocket during the handshake: the two reads and the write.\<close>

record handshake_io =
  hk_hello :: "goerr + ConnectMessage"
  hk_write :: "ConnectMessage \<Rightarrow> goerr option"
  hk_ready :: "goerr + ConnectMessage"

definition connect_data :: "host \<Rightarrow> Opts \<Rightarrow> string \<Rightarrow> StartResponse \<Rightarrow> connectionEstablishData \<Rightarrow> gotime \<Rightarrow> WorkerConnectRequestData" where
  "connect_data hst opts connectionId startResponse data startTime =
     \<lparr>wc_AppVersion = co_AppVersion opts, wc_InstanceId = instanceId hst opts, wc_ConnectionId = connectionId,
      wc_SessionToken = st_SessionToken startResponse, wc_SyncToken = st_SyncToken startResponse, wc_AppName = co_AppName opts,
      wc_Capabilities = ce_marshaledCapabilities data, wc_Functions = ce_marshaledFns data, wc_CpuCores = ce_numCpuCores data,
      wc_MemBytes = ce_totalMem data, wc_Os = hs_GOOS hst, wc_Environment = co_Env opts, wc_Platform = co_Platform opts,
      wc_SdkVersion = co_SDKVersion opts, wc_SdkLanguage = co_SDKLanguage opts,
      wc_WorkerManualReadinessAck = ce_manualReadinessAck data, wc_StartedAt = startTime\<rparr>"

text \<open>The error, and the messages written.\<close>

definition performConnectHandshake ::
  "wire \<Rightarrow> WorkerConnectRequestData \<Rightarrow> handshake_io \<Rightarrow> goerr option \<times> ConnectMessage list" where
  "performConnectHandshake w request io =
     (case hk_hello io of
        Inl e \<Rightarrow> (Some (newReconnectErr (wrapf ''did not receive gateway hello message: '' e)), [])
      | Inr hello \<Rightarrow>
          if cm_Kind hello \<noteq> GATEWAY_HELLO then
            (Some (newReconnectErr (Errorf (''expected gateway hello message, got '' @ wr_kind w (cm_Kind hello)) [])), [])
          else case wr_connect w request of
            None \<Rightarrow> (Some (wrapf ''could not serialize sdk connect message: '' proto_error), [])
          | Some data \<Rightarrow>
              (let msg = \<lparr>cm_Kind = WORKER_CONNECT, cm_Payload = data\<rparr>
               in if hk_write io msg \<noteq> None then (Some (newReconnectErr (Errorf ''could not send initial message'' [])), [msg])
                  else case hk_ready io of
                    Inl e \<Rightarrow> (Some (newReconnectErr (wrapf ''did not receive gateway connection ready message: '' e)), [msg])
                  | Inr ready \<Rightarrow>
                      if cm_Kind ready \<noteq> GATEWAY_CONNECTION_READY then
                        (Some (newReconnectErr (Errorf (''expected gateway connection ready message, got '' @ wr_kind w (cm_Kind ready)) [])), [msg])
                      else (None, [msg])))"

section \<open>connection.go: preparing a connection\<close>

text \<open>\<open>websocket.Dial\<close> is the parameter \<open>dial\<close>; \<open>ctxErr\<close> says whether the context was over when the connection was begun. The result is the gateway's group and the messages written in the handshake.\<close>

definition prepareConnection ::
  "wire \<Rightarrow> client \<Rightarrow> workerApiClient \<Rightarrow> host \<Rightarrow> Opts \<Rightarrow> (string \<Rightarrow> goerr + handshake_io) \<Rightarrow> goerr option \<Rightarrow> string \<Rightarrow> gotime \<Rightarrow> connectionEstablishData \<Rightarrow>
     string list \<Rightarrow> http_request list \<Rightarrow> (goerr + string \<times> ConnectMessage list) \<times> http_request list" where
  "prepareConnection w Do a hst opts dial ctxErr connectionId startTime data excludeGateways sent =
     (case start w Do a ctxErr (ce_hashedSigningKey data) excludeGateways sent of
        (Inl e, sent') \<Rightarrow> (Inl (newReconnectErr (wrapf ''could not start connection: '' e)), sent')
      | (Inr startRes, sent') \<Rightarrow>
          ((case url_Parse (st_GatewayEndpoint startRes) of
              None \<Rightarrow> Inl (newReconnectErr (wrapf ''received invalid start gateway host: '' (Errorf ''parse error'' [])))
            | Some gatewayHost \<Rightarrow>
                (case (case co_RewriteGatewayEndpoint opts of None \<Rightarrow> Inr gatewayHost | Some f \<Rightarrow> f gatewayHost) of
                   Inl e \<Rightarrow> Inl (newReconnectErr (wrapf ''rewriting gateway host failed: '' e))
                 | Inr gatewayHost' \<Rightarrow>
                     (case dial (url_String gatewayHost') of
                        Inl e \<Rightarrow> Inl (newReconnectErr (wrapf ''could not connect to gateway: '' e))
                      | Inr io \<Rightarrow>
                          (case performConnectHandshake w (connect_data hst opts connectionId startRes data startTime) io of
                             (Some e, _) \<Rightarrow> Inl (newReconnectErr (wrapf ''could not perform connect handshake: '' e))
                           | (None, written) \<Rightarrow> Inr (st_GatewayGroup startRes, written))))), sent'))"

section \<open>connection.go: an established connection\<close>

definition WorkerHeartbeatInterval :: duration where
  "WorkerHeartbeatInterval = 10 * Second"

text \<open>The check of the heartbeat goroutine: nothing within two intervals.\<close>

definition heartbeat_missed :: "gotime \<Rightarrow> gotime \<Rightarrow> bool" where
  "heartbeat_missed lastGatewayHeartbeatReceived now =
     time_Before lastGatewayHeartbeatReceived (now\<lparr>isec := isec now - 2 * WorkerHeartbeatInterval div Second\<rparr>)"

text \<open>The checks of that goroutine for a connection that began at \<open>t0\<close>: the first after two intervals, then one per interval. \<open>received\<close> are the times at which heartbeats
  were read, in order; before the first one the variable holds the zero time.\<close>

definition check_time :: "gotime \<Rightarrow> nat \<Rightarrow> gotime" where
  "check_time t0 n = t0\<lparr>isec := isec t0 + int (n + 2) * (WorkerHeartbeatInterval div Second)\<rparr>"

definition last_heartbeat :: "gotime list \<Rightarrow> gotime \<Rightarrow> gotime" where
  "last_heartbeat received now = (let before = filter (\<lambda>t. \<not> time_Before now t) received in if before = [] then \<lparr>isec = 0, nsec = 0\<rparr> else last before)"

definition reader_cancelled :: "gotime \<Rightarrow> gotime list \<Rightarrow> nat \<Rightarrow> bool" where
  "reader_cancelled t0 received n = heartbeat_missed (last_heartbeat received (check_time t0 n)) (check_time t0 n)"

text \<open>What other goroutines do to the buffer, each operation under its lock: the requests in progress add and append responses, and the goroutines
  of \<open>addPending\<close> take their turns.\<close>

datatype buffer_op = Add SDKResponse | Append SDKResponse | Turn SDKResponse

fun buffer_do :: "buffer_op \<Rightarrow> messageBuffer \<Rightarrow> messageBuffer" where
  "buffer_do (Add r) mb = addPending r mb"
| "buffer_do (Append r) mb = append_msg r mb"
| "buffer_do (Turn r) mb = (if r \<in> set (mb_watchers mb) then watcher_turn r mb else mb)"

text \<open>The read loop: the requests it hands to the worker pool, and the error that ends it (\<open>None\<close>: it still waits for a message). With each read come the operations that other
  goroutines perform on the buffer before it returns.\<close>

type_synonym read = "buffer_op list \<times> (goerr + ConnectMessage)"

fun read_loop :: "proto \<Rightarrow> read list \<Rightarrow> messageBuffer \<Rightarrow> goerr option \<times> ConnectMessage list \<times> messageBuffer" where
  "read_loop pb [] mb = (None, [], mb)"
| "read_loop pb ((ops, Inl e) # reads) mb = (Some e, [], fold buffer_do ops mb)"
| "read_loop pb ((ops, Inr msg) # reads) mb =
     (let mb1 = fold buffer_do ops mb
      in if cm_Kind msg = GATEWAY_CLOSING then (Some (Sentinel errGatewayDraining), [], mb1)
         else if cm_Kind msg = GATEWAY_EXECUTOR_REQUEST then
           (case read_loop pb reads mb1 of (e, added, mb') \<Rightarrow> (e, msg # added, mb'))
         else if cm_Kind msg = WORKER_REPLY_ACK then read_loop pb reads (snd (handleMessageReplyAck pb msg mb1))
         else read_loop pb reads mb1)"

text \<open>The zero \<open>websocket.CloseError\<close>.\<close>

definition zero_CloseError :: goerr where
  "zero_CloseError = CloseErr [] (''status = StatusCode(0) and reason = '' @ Quote [])"

definition as_CloseError :: "goerr \<Rightarrow> (string \<times> goerr) option" where
  "as_CloseError e = (case e of CloseErr r _ \<Rightarrow> Some (r, e) | _ \<Rightarrow> None)"

text \<open>What \<open>handleConnection\<close> returns when the read loop ended with \<open>err\<close> while its context was live. \<open>readerDone\<close>: the reader's own
  context was cancelled, for a missed heartbeat.\<close>

definition connection_end :: "bool \<Rightarrow> goerr \<Rightarrow> goerr" where
  "connection_end readerDone err =
     (if Is_sentinel errGatewayDraining (Some err) then Sentinel errGatewayDraining
      else case errors_As as_CloseError err of
        Some (reason, cerr) \<Rightarrow> newReconnectErr (wrapf (''connection closed with reason '' @ Quote reason @ '': '') cerr)
      | None \<Rightarrow>
          if Is_sentinel net_ErrClosed (Some err) \<or> Is_sentinel io_EOF (Some err)
          then newReconnectErr (wrapf ''connection closed unexpectedly: '' zero_CloseError)
          else if readerDone then newReconnectErr (Errorf ''connection closed unexpectedly due to missed heartbeat'' [])
          else newReconnectErr (Errorf ''connection closed unexpectedly: %!w(<nil>)'' []))"

text \<open>The end of a connection: the error, the requests added to the pool, the buffer, the messages tried on the API, and what is
  written to the websocket by the shutdown. \<open>others\<close> are the operations of other goroutines on the buffer after the read loop ended: while the shutdown waits for the pool, while a drained
  connection waits for its replacement, or until an error is returned.\<close>

record connection_result =
  cr_err :: "goerr option"
  cr_added :: "ConnectMessage list"
  cr_buffer :: messageBuffer
  cr_tried :: "SDKResponse list"
  cr_written :: "ConnectMessage list"

definition flush_if_any :: "(SDKResponse list \<Rightarrow> SDKResponse \<Rightarrow> bool) \<Rightarrow> (nat \<Rightarrow> msgmap \<Rightarrow> msgmap) \<Rightarrow> messageBuffer \<Rightarrow> SDKResponse list \<Rightarrow>
    goerr option \<times> messageBuffer \<times> SDKResponse list" where
  "flush_if_any api order mb tried = (if hasMessages mb then flush api order mb tried else (None, mb, tried))"

definition shutdown ::
  "(SDKResponse list \<Rightarrow> SDKResponse \<Rightarrow> bool) \<Rightarrow> (nat \<Rightarrow> msgmap \<Rightarrow> msgmap) \<Rightarrow> buffer_op list \<Rightarrow> ConnectMessage list \<Rightarrow> messageBuffer \<Rightarrow> SDKResponse list \<Rightarrow>
     connection_result" where
  "shutdown api order others added mb tried =
     (case flush_if_any api order (fold buffer_do others mb) tried of (_, mb', tried') \<Rightarrow>
        \<lparr>cr_err = None, cr_added = added, cr_buffer = mb', cr_tried = tried', cr_written = [\<lparr>cm_Kind = WORKER_PAUSE, cm_Payload = []\<rparr>]\<rparr>)"

definition handleConnection ::
  "proto \<Rightarrow> (SDKResponse list \<Rightarrow> SDKResponse \<Rightarrow> bool) \<Rightarrow> (nat \<Rightarrow> msgmap \<Rightarrow> msgmap) \<Rightarrow> read list \<Rightarrow> bool \<Rightarrow> bool \<Rightarrow>
     buffer_op list \<Rightarrow> messageBuffer \<Rightarrow> SDKResponse list \<Rightarrow> connection_result option" where
  "handleConnection pb api order reads ctxDone readerDone others mb tried =
     (case flush_if_any api order mb tried of
        (Some e, mb1, tried1) \<Rightarrow>
          Some \<lparr>cr_err = Some (newReconnectErr (wrapf ''could not send buffered messages: '' e)), cr_added = [], cr_buffer = mb1,
            cr_tried = tried1, cr_written = []\<rparr>
      | (None, mb1, tried1) \<Rightarrow>
          (case read_loop pb reads mb1 of
             (None, _, _) \<Rightarrow> None
           | (Some err, added, mb2) \<Rightarrow>
               if \<not> ctxDone then
                 Some \<lparr>cr_err = Some (connection_end readerDone err), cr_added = added, cr_buffer = fold buffer_do others mb2,
                   cr_tried = tried1, cr_written = []\<rparr>
               else Some (shutdown api order others added mb2 tried1)))"

section \<open>connection.go: what the run loop is told\<close>

record connectReport =
  rp_reconnect :: bool
  rp_err :: "goerr option"

datatype notification = Connected | Done connectReport

text \<open>\<open>connect\<close>: the sends on the run loop's channels, given how the connection was prepared and how it ended. A drained connection sends
  no report; its replacement was started before.\<close>

definition connect_notifies :: "goerr option \<Rightarrow> goerr option \<Rightarrow> notification list" where
  "connect_notifies prepared handled =
     (case prepared of
        Some err \<Rightarrow> [Done \<lparr>rp_reconnect = shouldReconnect err, rp_err = Some (wrapf ''could not establish connection: '' err)\<rparr>]
      | None \<Rightarrow> Connected #
          (case handled of
             Some err \<Rightarrow>
               if Is_sentinel errGatewayDraining (Some err) then []
               else [Done \<lparr>rp_reconnect = shouldReconnect err, rp_err = Some (wrapf ''could not handle connection: '' err)\<rparr>]
           | None \<Rightarrow> [Done \<lparr>rp_reconnect = False, rp_err = None\<rparr>]))"

text \<open>A draining gateway: the replacement is prepared under a context that never ends, with the data of the old connection and without the old gateway's group, and the old connection stays open
  until the replacement has notified (\<open>connectedAfter\<close>, if it does), for ten seconds at most; the second component says that the wait timed out.\<close>

definition replace_drained ::
  "wire \<Rightarrow> client \<Rightarrow> workerApiClient \<Rightarrow> host \<Rightarrow> Opts \<Rightarrow> (string \<Rightarrow> goerr + handshake_io) \<Rightarrow> string \<Rightarrow> gotime \<Rightarrow> connectionEstablishData \<Rightarrow>
     string \<Rightarrow> http_request list \<Rightarrow> (goerr + string \<times> ConnectMessage list) \<times> http_request list" where
  "replace_drained w Do a hst opts dial connectionId startTime data gatewayGroupName sent =
     prepareConnection w Do a hst opts dial None connectionId startTime data [gatewayGroupName] sent"

definition drain_wait :: "duration option \<Rightarrow> duration \<times> bool" where
  "drain_wait connectedAfter = (let limit = 10 * Second in
     case connectedAfter of Some d \<Rightarrow> if d < limit then (d, False) else (limit, True) | None \<Rightarrow> (limit, True))"

section \<open>Properties\<close>

text \<open>What ends the read loop, and the reference for it: the reads before that point.\<close>

definition ends_reading :: "goerr + ConnectMessage \<Rightarrow> bool" where
  "ends_reading r = (case r of Inl _ \<Rightarrow> True | Inr m \<Rightarrow> cm_Kind m = GATEWAY_CLOSING)"

definition is_request :: "goerr + ConnectMessage \<Rightarrow> bool" where
  "is_request r = (case r of Inl _ \<Rightarrow> False | Inr m \<Rightarrow> cm_Kind m = GATEWAY_EXECUTOR_REQUEST)"

lemma read_loop_added:
  "map Inr (fst (snd (read_loop pb reads mb))) = filter is_request (takeWhile (\<lambda>r. \<not> ends_reading r) (map snd reads))"
  by (induction pb reads mb rule: read_loop.induct) (auto simp: ends_reading_def is_request_def Let_def split: prod.splits)

lemma read_loop_err:
  "fst (read_loop pb reads mb) = (case dropWhile (\<lambda>r. \<not> ends_reading r) (map snd reads) of
     [] \<Rightarrow> None | Inl e # _ \<Rightarrow> Some e | Inr _ # _ \<Rightarrow> Some (Sentinel errGatewayDraining))"
  by (induction pb reads mb rule: read_loop.induct) (auto simp: ends_reading_def Let_def split: prod.splits)

text \<open>C31: No request of the gateway is lost, repeated or reordered between the websocket and the worker pool: the requests handed to the pool are exactly the executor requests
  read before the connection's end, in the order they were read, whatever other messages come between them.\<close>

theorem requests_reach_pool:
  assumes "handleConnection pb api order reads ctxDone readerDone others mb tried = Some r"
    "fst (flush_if_any api order mb tried) = None"
  shows "map Inr (cr_added r) = filter is_request (takeWhile (\<lambda>x. \<not> ends_reading x) (map snd reads))"
proof -
  obtain mb1 tried1 where "flush_if_any api order mb tried = (None, mb1, tried1)" using assms(2) by (metis prod.collapse)
  moreover from this assms(1) obtain err added mb2 where rl: "read_loop pb reads mb1 = (Some err, added, mb2)"
    by (cases "read_loop pb reads mb1") (auto simp: handleConnection_def shutdown_def split: option.splits)
  ultimately have "cr_added r = added" using assms(1) by (auto simp: handleConnection_def shutdown_def split: if_splits prod.splits)
  with rl read_loop_added [of pb reads mb1] show ?thesis by simp
qed

theorem requests_reach_pool_witness:
  "\<exists>r. handleConnection sample_proto (\<lambda>_ _. True) (\<lambda>_ b. b) [([], Inr \<lparr>cm_Kind = GATEWAY_HEARTBEAT, cm_Payload = []\<rparr>), ([], Inr sample_message),
      ([Add (sample_resp ''a'')], Inr \<lparr>cm_Kind = GATEWAY_CLOSING, cm_Payload = []\<rparr>), ([], Inr sample_message)] False False [] newMessageBuffer [] = Some r \<and>
    map Inr (cr_added r) = [Inr sample_message :: goerr + ConnectMessage]"
proof -
  let ?reads = "[([], Inr \<lparr>cm_Kind = GATEWAY_HEARTBEAT, cm_Payload = []\<rparr>), ([], Inr sample_message),
      ([Add (sample_resp ''a'')], Inr \<lparr>cm_Kind = GATEWAY_CLOSING, cm_Payload = []\<rparr>), ([], Inr sample_message)]"
  have idle: "flush_if_any (\<lambda>_ _. True) (\<lambda>_ b. b) newMessageBuffer [] = (None, newMessageBuffer, [])"
    by (simp add: flush_if_any_def hasMessages_def newMessageBuffer_def)
  obtain r where r: "handleConnection sample_proto (\<lambda>_ _. True) (\<lambda>_ b. b) ?reads False False [] newMessageBuffer [] = Some r"
    using idle by (simp add: handleConnection_def shutdown_def sample_message_def)
  from requests_reach_pool [OF r] idle r show ?thesis by (simp add: ends_reading_def is_request_def sample_message_def)
qed

section \<open>Responses outlive a connection\<close>

text \<open>The responses that operations hand to the buffer, and the operations performed during the read loop: those before the read that ends it.\<close>

definition handed :: "buffer_op list \<Rightarrow> SDKResponse set" where
  "handed ops = {r. Add r \<in> set ops \<or> Append r \<in> set ops}"

fun loop_ops :: "read list \<Rightarrow> buffer_op list" where
  "loop_ops [] = []"
| "loop_ops ((ops, r) # reads) = (if ends_reading r then ops else ops @ loop_ops reads)"

lemma handed_simps [simp]:
  "handed [] = {}" "handed (ops @ ops') = handed ops \<union> handed ops'"
  "handed (op # ops) = (case op of Add r \<Rightarrow> {r} | Append r \<Rightarrow> {r} | Turn _ \<Rightarrow> {}) \<union> handed ops"
  by (auto simp: handed_def split: buffer_op.splits)

text \<open>The buffer is in a reachable state that was given nothing else, and owes at least these responses as far as their request IDs are not empty.\<close>

definition keeps :: "SDKResponse set \<Rightarrow> SDKResponse set \<Rightarrow> messageBuffer \<Rightarrow> bool" where
  "keeps given owed mb \<longleftrightarrow> (\<exists>given' owed'. given' \<subseteq> given \<and> {r \<in> owed. sr_RequestId r \<noteq> []} \<subseteq> owed' \<and> reachable mb given' owed')"

lemma keepsI: "reachable mb given' owed' \<Longrightarrow> given' \<subseteq> given \<Longrightarrow> {r \<in> owed. sr_RequestId r \<noteq> []} \<subseteq> owed' \<Longrightarrow> keeps given owed mb"
  by (auto simp: keeps_def)

lemma keeps_mono: "keeps given owed mb \<Longrightarrow> given \<subseteq> given' \<Longrightarrow> owed' \<subseteq> owed \<Longrightarrow> keeps given' owed' mb"
  unfolding keeps_def by (elim exE conjE) (intro exI conjI, erule (1) subset_trans, auto)

lemma keeps_buffer_do: "keeps given owed mb \<Longrightarrow> keeps (given \<union> handed [op]) (owed \<union> handed [op]) (buffer_do op mb)"
proof -
  assume "keeps given owed mb"
  then obtain given' owed' where o: "given' \<subseteq> given" "{r \<in> owed. sr_RequestId r \<noteq> []} \<subseteq> owed'" "reachable mb given' owed'" by (auto simp: keeps_def)
  show ?thesis
  proof (cases op)
    case (Add r)
    show ?thesis unfolding Add buffer_do.simps by (rule keepsI [OF reachable.add [OF o(3), of r]]) (use o(1,2) in auto)
  next
    case (Append r)
    show ?thesis unfolding Append buffer_do.simps by (rule keepsI [OF reachable.app [OF o(3), of r]]) (use o(1,2) in auto)
  next
    case (Turn r)
    have "keeps given owed (watcher_turn r mb)" if "r \<in> set (mb_watchers mb)" by (rule keepsI [OF reachable.turn [OF o(3) that] o(1,2)])
    with \<open>keeps given owed mb\<close> Turn show ?thesis by simp
  qed
qed

lemma keeps_fold: "keeps given owed mb \<Longrightarrow> keeps (given \<union> handed ops) (owed \<union> handed ops) (fold buffer_do ops mb)"
proof (induction ops arbitrary: mb given owed)
  case (Cons op ops)
  from Cons.IH [OF keeps_buffer_do [OF Cons.prems, of op]] show ?case by (simp add: Un_assoc)
qed simp

lemma keeps_ReplyAck: "keeps given owed mb \<Longrightarrow> keeps given owed (snd (handleMessageReplyAck pb msg mb))"
proof -
  assume k: "keeps given owed mb"
  then obtain given' owed' where o: "given' \<subseteq> given" "{r \<in> owed. sr_RequestId r \<noteq> []} \<subseteq> owed'" "reachable mb given' owed'" by (auto simp: keeps_def)
  then have "{r \<in> owed. sr_RequestId r \<noteq> []} \<subseteq> {r \<in> owed'. sr_RequestId r \<noteq> []}" by auto
  then show ?thesis using keepsI [OF reachable.ack [OF o(3)] o(1)] k by (simp add: handleMessageReplyAck_def split: option.splits)
qed

lemma keeps_read_loop:
  "keeps given owed mb \<Longrightarrow> keeps (given \<union> handed (loop_ops reads)) (owed \<union> handed (loop_ops reads)) (snd (snd (read_loop pb reads mb)))"
proof (induction pb reads mb arbitrary: given owed rule: read_loop.induct)
  case (2 pb ops e reads mb)
  then show ?case by (simp add: ends_reading_def keeps_fold)
next
  case (3 pb ops msg reads mb)
  note k = keeps_fold [OF "3.prems", of ops]
  show ?case
  proof (cases "cm_Kind msg = GATEWAY_CLOSING")
    case True
    with k show ?thesis by (simp add: ends_reading_def)
  next
    case False
    note IH = "3.IH" [OF refl False, where given = "given \<union> handed ops" and owed = "owed \<union> handed ops", unfolded Un_assoc]
    from False IH k keeps_ReplyAck [OF k, of pb msg] show ?thesis
      by (cases "read_loop pb reads (fold buffer_do ops mb)") (simp add: ends_reading_def Un_assoc Let_def)
  qed
qed simp

lemma keeps_flush:
  assumes "keeps given owed mb" "\<And>n b. mset (order n b) = mset b" "flush_if_any api order mb tried = (err, mb', tried')"
  shows "keeps given (owed - accepted api tried tried') mb' \<and> (\<exists>new. tried' = tried @ new)"
proof (cases "hasMessages mb")
  case True
  with assms(3) have f: "flush api order mb tried = (err, mb', tried')" by (simp add: flush_if_any_def)
  obtain given' owed' where o: "given' \<subseteq> given" "{r \<in> owed. sr_RequestId r \<noteq> []} \<subseteq> owed'" "reachable mb given' owed'" using assms(1) by (auto simp: keeps_def)
  from o(2) have "keeps given (owed - accepted api tried tried') mb'" by (intro keepsI [OF reachable.sent [OF o(3) assms(2) f] o(1)]) auto
  moreover have "\<exists>new. tried' = tried @ new" using flush_parts(8) [OF reachable_wf [OF o(3)] assms(2) f] .
  ultimately show ?thesis by blast
next
  case False
  then have "tried' = tried" "mb' = mb" using assms(3) by (auto simp: flush_if_any_def)
  with keeps_mono [OF assms(1)] show ?thesis by (metis Diff_subset append_Nil2 order_refl)
qed

lemma keeps_holds:
  assumes "keeps given owed mb" "x \<in> owed" "sr_RequestId x \<noteq> []" "sole given x"
  shows "map_of (mb_pendingAck mb) (sr_RequestId x) = Some x \<or> map_of (mb_buffered mb) (sr_RequestId x) = Some x"
proof -
  obtain given' owed' where o: "given' \<subseteq> given" "{r \<in> owed. sr_RequestId r \<noteq> []} \<subseteq> owed'" "reachable mb given' owed'" using assms(1) by (auto simp: keeps_def)
  with assms(2-4) have "x \<in> held mb" "wf_buffer mb" using reachable_keeps [OF o(3)] sole_mono [OF assms(4) o(1)] by (auto simp: keeps_owed_def)
  then show ?thesis by (auto simp: held_def wf_buffer_def wf_map_lookup)
qed

text \<open>The responses that other goroutines hand to the buffer while a connection is handled: none when its first flush fails.\<close>

definition made_on :: "(SDKResponse list \<Rightarrow> SDKResponse \<Rightarrow> bool) \<Rightarrow> (nat \<Rightarrow> msgmap \<Rightarrow> msgmap) \<Rightarrow> read list \<Rightarrow> buffer_op list \<Rightarrow> messageBuffer \<Rightarrow> SDKResponse list \<Rightarrow> SDKResponse set" where
  "made_on api order reads others mb tried = (if fst (flush_if_any api order mb tried) = None then handed (loop_ops reads @ others) else {})"

lemma connection_keeps:
  assumes "reachable mb given owed" "\<And>n b. mset (order n b) = mset b"
    "handleConnection pb api order reads ctxDone readerDone others mb tried = Some r" "made = made_on api order reads others mb tried"
  shows "keeps (given \<union> made) (owed \<union> made - accepted api tried (cr_tried r)) (cr_buffer r)"
proof -
  obtain err mb1 tried1 where f1: "flush_if_any api order mb tried = (err, mb1, tried1)" by (cases "flush_if_any api order mb tried")
  have k0: "keeps given owed mb" by (rule keepsI [OF assms(1) order_refl]) auto
  from keeps_flush [OF k0 assms(2) f1] obtain new1 where k1: "keeps given (owed - accepted api tried tried1) mb1" and t1: "tried1 = tried @ new1" by blast
  show ?thesis
  proof (cases err)
    case (Some e)
    with assms(3,4) f1 k1 show ?thesis by (auto simp: handleConnection_def made_on_def)
  next
    case None
    with assms(4) f1 have made: "made = handed (loop_ops reads) \<union> handed others" by (simp add: made_on_def)
    obtain e added mb2 where rl: "read_loop pb reads mb1 = (e, added, mb2)" by (cases "read_loop pb reads mb1")
    from keeps_fold [OF keeps_read_loop [OF k1, of reads pb], of others] rl
    have k2: "keeps (given \<union> made) (owed - accepted api tried tried1 \<union> made) (fold buffer_do others mb2)" by (simp add: made Un_assoc)
    obtain e3 mb3 tried3 where f3: "flush_if_any api order (fold buffer_do others mb2) tried1 = (e3, mb3, tried3)"
      by (cases "flush_if_any api order (fold buffer_do others mb2) tried1")
    from keeps_flush [OF k2 assms(2) f3] obtain new3 where
      k3: "keeps (given \<union> made) (owed - accepted api tried tried1 \<union> made - accepted api tried1 tried3) mb3" and t3: "tried3 = tried1 @ new3" by blast
    have "keeps (given \<union> made) (owed \<union> made - accepted api tried tried3) mb3" "keeps (given \<union> made) (owed \<union> made - accepted api tried tried1) (fold buffer_do others mb2)"
      using accepted_trans [OF t1 t3, of api] by (auto intro: keeps_mono [OF k3] keeps_mono [OF k2])
    then show ?thesis using None assms(3) f1 f3 rl by (auto simp: handleConnection_def shutdown_def split: option.splits if_splits)
  qed
qed

text \<open>C22: Responses outlive the connection they were made on. Take a response with a non-empty request ID that was owed when a connection began, or was handed to the buffer by another goroutine while the
  connection was handled, and the only response for its request ID among those handed to the buffer before and meanwhile. When the connection ends, by an error, a drain or a shutdown, however the operations
  of those goroutines fall between the reads, this response was accepted by the API in the meantime or is itself pending or buffered; and a shutdown pauses the gateway first.\<close>

theorem responses_survive_connection:
  assumes "reachable mb given owed" "\<And>n b. mset (order n b) = mset b"
    "handleConnection pb api order reads ctxDone readerDone others mb tried = Some r" "made = made_on api order reads others mb tried"
    "x \<in> owed \<union> made" "sr_RequestId x \<noteq> []" "\<forall>x' \<in> given \<union> made. sr_RequestId x' = sr_RequestId x \<longrightarrow> x' = x"
  shows "(x \<in> accepted api tried (cr_tried r) \<or>
      map_of (mb_pendingAck (cr_buffer r)) (sr_RequestId x) = Some x \<or> map_of (mb_buffered (cr_buffer r)) (sr_RequestId x) = Some x) \<and>
    (cr_err r = None \<longrightarrow> map cm_Kind (cr_written r) = [WORKER_PAUSE])"
proof (intro conjI impI)
  have "sole (given \<union> made) x" using assms(7) by (simp add: sole_def)
  with keeps_holds [OF connection_keeps [OF assms(1-4)], of x] assms(5,6)
  show "x \<in> accepted api tried (cr_tried r) \<or>
      map_of (mb_pendingAck (cr_buffer r)) (sr_RequestId x) = Some x \<or> map_of (mb_buffered (cr_buffer r)) (sr_RequestId x) = Some x" by blast
  show "map cm_Kind (cr_written r) = [WORKER_PAUSE]" if "cr_err r = None"
    using that assms(3) by (auto simp: handleConnection_def shutdown_def split: option.splits if_splits prod.splits)
qed

theorem responses_survive_connection_witness:
  "\<exists>r. handleConnection sample_proto (\<lambda>_ _. False) (\<lambda>_ b. b) [([Add (sample_resp ''b'')], Inl (Sentinel io_EOF))] True False [Turn (sample_resp ''b'')] (addPending (sample_resp ''a'') newMessageBuffer) [] = Some r \<and>
     (map_of (mb_pendingAck (cr_buffer r)) ''b'' = Some (sample_resp ''b'') \<or> map_of (mb_buffered (cr_buffer r)) ''b'' = Some (sample_resp ''b''))"
proof -
  let ?mb = "addPending (sample_resp ''a'') newMessageBuffer" and ?reads = "[([Add (sample_resp ''b'')], Inl (Sentinel io_EOF))] :: read list"
  have sid: "sr_RequestId (sample_resp k) = k" for k by (simp add: sample_resp_def)
  have idle: "flush_if_any (\<lambda>_ _. False) (\<lambda>_ b. b) ?mb [] = (None, ?mb, [])"
    by (simp add: flush_if_any_def hasMessages_def newMessageBuffer_def addPending_def)
  obtain r where r: "handleConnection sample_proto (\<lambda>_ _. False) (\<lambda>_ b. b) ?reads True False [Turn (sample_resp ''b'')] ?mb [] = Some r"
    using idle by (simp add: handleConnection_def)
  have owed: "reachable ?mb {sample_resp ''a''} {sample_resp ''a''}" by (intro reachable.add reachable.fresh)
  have made: "made_on (\<lambda>_ _. False) (\<lambda>_ b. b) ?reads [Turn (sample_resp ''b'')] ?mb [] = {sample_resp ''b''}"
    by (simp add: made_on_def idle ends_reading_def)
  from responses_survive_connection [OF owed _ r made [symmetric], of "sample_resp ''b''"] r show ?thesis by (auto simp: accepted_def sid)
qed

section \<open>Flushing through the API\<close>

lemma sendBufferedMessage_None:
  "fst (sendBufferedMessage pb w Do a key msg sent) = None \<longleftrightarrow>
     (\<exists>body req res. pb_response pb msg = Some body \<and> api_request a ''/v0/connect/flush'' key body = Some req \<and> Do sent req = Inr res \<and>
        hr_StatusCode res = 200 \<and> wr_flush_response w (hr_Body res))"
  by (auto simp: sendBufferedMessage_def Let_def split: option.splits sum.splits)

text \<open>A message leaves the buffer only after the API answered a request with exactly this message, under the key in use, with status 200.\<close>

lemma flushed_message_was_accepted:
  assumes "wf_buffer m" "\<And>n b. mset (order n b) = mset b" "flush (flush_api pb w Do a key sent) order m tried = (err, m', tried')"
    "(k, msg) \<in> set (mb_buffered m)" "(k, msg) \<notin> set (mb_buffered m')"
  shows "\<exists>before body req res. pb_response pb msg = Some body \<and> api_request a ''/v0/connect/flush'' key body = Some req \<and>
    Do before req = Inr res \<and> hr_StatusCode res = 200"
proof -
  obtain b where loop: "flush_loop (flush_api pb w Do a key sent) order 5 (mb_buffered m) tried = (err, b, tried')" and m': "m' = m\<lparr>mb_buffered := b\<rparr>"
    using assms(3) by (auto simp: flush_def split: prod.splits)
  have "wf_map (mb_buffered m)" using assms(1) by (simp add: wf_buffer_def)
  from flush_loop_spec [OF assms(2) this loop] have "accepted (flush_api pb w Do a key sent) tried tried' = snd ` (set (mb_buffered m) - set b)"
    by (simp add: parted_def)
  moreover have "msg \<in> snd ` (set (mb_buffered m) - set b)" using assms(4,5) by (force simp: m')
  ultimately obtain i where "flush_api pb w Do a key sent (take i tried') msg" by (auto simp: accepted_def)
  then show ?thesis unfolding flush_api_def sendBufferedMessage_None by blast
qed

section \<open>Heartbeats\<close>

text \<open>A gateway whose heartbeats are never more than two intervals apart is not taken for lost.\<close>

lemma heartbeats_keep_connection:
  assumes "hb \<in> set received" "\<not> time_Before (check_time t0 n) hb" "\<not> time_Before hb ((check_time t0 n)\<lparr>isec := isec (check_time t0 n) - 20\<rparr>)"
    "sorted_wrt (\<lambda>t u. \<not> time_Before u t) received"
  shows "\<not> reader_cancelled t0 received n"
proof -
  let ?now = "check_time t0 n" and ?old = "filter (\<lambda>t. \<not> time_Before (check_time t0 n) t) received"
  have hb: "hb \<in> set ?old" using assms(1,2) by simp
  then have ne: "?old \<noteq> []" by (metis empty_iff empty_set)
  have "sorted_wrt (\<lambda>t u. \<not> time_Before u t) ?old" using assms(4) by (rule sorted_wrt_filter)
  moreover obtain i where "i < length ?old" "?old ! i = hb" using hb unfolding in_set_conv_nth by blast
  ultimately have "hb = last ?old \<or> \<not> time_Before (last ?old) hb"
    using ne by (cases "i = length ?old - 1") (auto simp: last_conv_nth sorted_wrt_iff_nth_less)
  then have "\<not> time_Before (last ?old) (?now\<lparr>isec := isec ?now - 20\<rparr>)" using assms(3) by (auto simp: time_Before_def)
  moreover have "last_heartbeat received ?now = last ?old" using ne by (simp add: last_heartbeat_def Let_def)
  ultimately show ?thesis by (simp add: reader_cancelled_def heartbeat_missed_def WorkerHeartbeatInterval_def Second_def)
qed

text \<open>A gateway that falls silent is detected at the third check after its last heartbeat, or earlier: every check more than two intervals later cancels the reader.\<close>

lemma silence_is_detected:
  assumes "\<And>hb. hb \<in> set received \<Longrightarrow> time_Before hb ((check_time t0 n)\<lparr>isec := isec (check_time t0 n) - 20\<rparr>)" "20 < isec (check_time t0 n)"
  shows "reader_cancelled t0 received n"
proof -
  let ?now = "check_time t0 n"
  have "last_heartbeat received ?now = \<lparr>isec = 0, nsec = 0\<rparr> \<or> last_heartbeat received ?now \<in> set received"
    using last_in_set [of "filter (\<lambda>t. \<not> time_Before ?now t) received"] by (auto simp: last_heartbeat_def Let_def)
  with assms show ?thesis
    by (auto simp: reader_cancelled_def heartbeat_missed_def WorkerHeartbeatInterval_def Second_def time_Before_def)
qed

section \<open>Contexts\<close>

text \<open>Under a context that is over no connection is made, and the API is not even asked.\<close>

lemma start_over_context: "start w Do a (Some e) key ex sent = (r, sent') \<Longrightarrow> sent' = sent \<and> (\<exists>e'. r = Inl e')"
  by (auto simp: start_def split: option.splits)

lemma over_context_never_connects:
  "prepareConnection w Do a hst opts dial (Some e) cid t data ex sent = (r, sent') \<Longrightarrow> sent' = sent \<and> (\<exists>e'. r = Inl e')"
  using start_over_context by (fastforce simp: prepareConnection_def split: prod.splits sum.splits)

section \<open>Draining\<close>

text \<open>The API is asked once for a replacement, with the key of the old connection and a request that excludes the draining group; a replacement that fails is
  reported to the run loop like any other connection, which then reconnects.\<close>

lemma replacement_excludes_drained:
  assumes "replace_drained w Do a hst opts dial cid t data gw sent = (r, sent')" "sent' \<noteq> sent"
  shows "\<exists>body req. wr_start_request w [gw] = Some body \<and> api_request a ''/v0/connect/start'' (ce_hashedSigningKey data) body = Some req \<and> sent' = sent @ [req]"
  using assms by (auto simp: replace_drained_def prepareConnection_def start_def Let_def split: option.splits sum.splits prod.splits if_splits)

lemma drained_connection_closes:
  assumes "drain_wait c = (d, timedOut)"
  shows "d \<le> 10 * Second \<and> (timedOut \<longleftrightarrow> (\<forall>x. c = Some x \<longrightarrow> 10 * Second \<le> x)) \<and> (\<not> timedOut \<longrightarrow> c = Some d)"
  using assms by (auto simp: drain_wait_def Let_def split: option.splits if_splits)

end
