(* ===== verification/Pool.thy ===== *)
theory Pool
  imports Worker
begin

text \<open>
  The worker pool of a connect worker, \<open>connect/worker_pool.go\<close>, as a step relation. \<open>Add\<close> first counts the message and then sends it on a
  channel with room for \<open>concurrency\<close> messages; \<open>concurrency\<close> goroutines take messages from it until the pool's context is cancelled. A goroutine that sees both a message and the
  cancellation may choose either. \<open>Wait\<close> returns when the count is zero. The fields \<open>wp_added\<close> and \<open>wp_served\<close> record the history.

  Handling a message, \<open>processExecutorRequest\<close> of \<open>connect/handler.go\<close>, is one message of \<open>Worker\<close>; its deferred \<open>Done\<close> runs when it ends.
\<close>

section \<open>The pool\<close>

datatype 'm worker = Idle | Busy 'm | Stopped

record 'm workerPool =
  wp_concurrency :: nat
  wp_msgs :: "'m list"
  wp_inProgress :: int
  wp_workers :: "'m worker list"
  wp_sending :: "'m list"
  wp_cancelled :: bool
  wp_added :: "'m list"
  wp_served :: "'m list"

definition NewWorkerPool :: "nat \<Rightarrow> 'm workerPool" where
  "NewWorkerPool concurrency = \<lparr>wp_concurrency = concurrency, wp_msgs = [], wp_inProgress = 0, wp_workers = replicate concurrency Idle,
     wp_sending = [], wp_cancelled = False, wp_added = [], wp_served = []\<rparr>"

text \<open>\<open>Add\<close> is two steps: \<open>inProgress.Add(1)\<close>, and the send, which waits for room. \<open>finish\<close> is the end of the handler with its \<open>Done\<close>.\<close>

definition add_begin :: "'m \<Rightarrow> 'm workerPool \<Rightarrow> 'm workerPool" where
  "add_begin m p = p\<lparr>wp_inProgress := wp_inProgress p + 1, wp_sending := wp_sending p @ [m], wp_added := wp_added p @ [m]\<rparr>"

definition add_send :: "nat \<Rightarrow> 'm workerPool \<Rightarrow> 'm workerPool" where
  "add_send k p = p\<lparr>wp_msgs := wp_msgs p @ [wp_sending p ! k], wp_sending := take k (wp_sending p) @ drop (Suc k) (wp_sending p)\<rparr>"

definition receive :: "nat \<Rightarrow> 'm workerPool \<Rightarrow> 'm workerPool" where
  "receive i p = p\<lparr>wp_msgs := tl (wp_msgs p), wp_workers := (wp_workers p)[i := Busy (hd (wp_msgs p))]\<rparr>"

definition finish :: "nat \<Rightarrow> 'm \<Rightarrow> 'm workerPool \<Rightarrow> 'm workerPool" where
  "finish i m p = p\<lparr>wp_workers := (wp_workers p)[i := Idle], wp_inProgress := wp_inProgress p - 1, wp_served := wp_served p @ [m]\<rparr>"

definition stop :: "nat \<Rightarrow> 'm workerPool \<Rightarrow> 'm workerPool" where
  "stop i p = p\<lparr>wp_workers := (wp_workers p)[i := Stopped]\<rparr>"

text \<open>The steps the pool makes by itself.\<close>

inductive pool_work :: "'m workerPool \<Rightarrow> 'm workerPool \<Rightarrow> bool" where
  send: "k < length (wp_sending p) \<Longrightarrow> length (wp_msgs p) < wp_concurrency p \<Longrightarrow> pool_work p (add_send k p)"
| take: "i < length (wp_workers p) \<Longrightarrow> wp_workers p ! i = Idle \<Longrightarrow> wp_msgs p \<noteq> [] \<Longrightarrow> pool_work p (receive i p)"
| serve: "i < length (wp_workers p) \<Longrightarrow> wp_workers p ! i = Busy m \<Longrightarrow> pool_work p (finish i m p)"
| quit: "i < length (wp_workers p) \<Longrightarrow> wp_workers p ! i = Idle \<Longrightarrow> wp_cancelled p \<Longrightarrow> pool_work p (stop i p)"

text \<open>All steps: those, a new message, and the cancellation of the context.\<close>

inductive pool_step :: "'m workerPool \<Rightarrow> 'm workerPool \<Rightarrow> bool" where
  work: "pool_work p p' \<Longrightarrow> pool_step p p'"
| add: "pool_step p (add_begin m p)"
| cancel: "pool_step p (p\<lparr>wp_cancelled := True\<rparr>)"

definition Wait_returns :: "'m workerPool \<Rightarrow> bool" where
  "Wait_returns p \<longleftrightarrow> wp_inProgress p = 0"

section \<open>Invariants\<close>

primrec job :: "'m worker \<Rightarrow> 'm list" where
  "job Idle = []"
| "job (Busy m) = [m]"
| "job Stopped = []"

definition jobs :: "'m workerPool \<Rightarrow> 'm multiset" where
  "jobs p = mset (concat (map job (wp_workers p)))"

text \<open>Every message that was added is waiting to be sent, in the channel, being handled, or served; the count is that of the first three.\<close>

definition pool_inv :: "nat \<Rightarrow> 'm workerPool \<Rightarrow> bool" where
  "pool_inv c p \<longleftrightarrow> wp_concurrency p = c \<and> length (wp_workers p) = c \<and> length (wp_msgs p) \<le> c \<and>
     mset (wp_added p) = mset (wp_sending p) + mset (wp_msgs p) + jobs p + mset (wp_served p) \<and>
     wp_inProgress p = int (length (wp_sending p) + length (wp_msgs p) + size (jobs p)) \<and>
     (\<not> wp_cancelled p \<longrightarrow> Stopped \<notin> set (wp_workers p))"

lemma jobs_update:
  assumes "i < length (wp_workers p)"
  shows "mset (concat (map job ((wp_workers p)[i := w]))) + mset (job (wp_workers p ! i)) = jobs p + mset (job w)"
proof -
  let ?ws = "wp_workers p"
  have split: "?ws = take i ?ws @ ?ws ! i # drop (Suc i) ?ws" using assms by (simp add: id_take_nth_drop)
  have upd: "?ws[i := w] = take i ?ws @ w # drop (Suc i) ?ws" using assms by (simp add: upd_conv_take_nth_drop)
  have "jobs p = mset (concat (map job (take i ?ws @ ?ws ! i # drop (Suc i) ?ws)))" unfolding jobs_def using split by simp
  then show ?thesis unfolding upd by (simp add: ac_simps)
qed

lemma pool_inv_new: "pool_inv c (NewWorkerPool c)"
  by (simp add: pool_inv_def NewWorkerPool_def jobs_def concat_eq_Nil_conv)

lemma mset_remove_nth: "k < length xs \<Longrightarrow> mset xs = mset (take k xs) + mset (drop (Suc k) xs) + {#xs ! k#}"
proof -
  assume "k < length xs"
  then have "mset xs = mset (take k xs @ xs ! k # drop (Suc k) xs)" by (simp add: id_take_nth_drop [symmetric])
  then show ?thesis by simp
qed

lemma pool_inv_send: "pool_inv c p \<Longrightarrow> k < length (wp_sending p) \<Longrightarrow> length (wp_msgs p) < wp_concurrency p \<Longrightarrow> pool_inv c (add_send k p)"
  using mset_remove_nth [of k "wp_sending p"] by (auto simp: pool_inv_def add_send_def jobs_def)

lemma pool_inv_receive:
  assumes "pool_inv c p" "i < length (wp_workers p)" "wp_workers p ! i = Idle" "wp_msgs p \<noteq> []"
  shows "pool_inv c (receive i p)"
proof -
  from assms(4) obtain m ms where msgs: "wp_msgs p = m # ms" by (cases "wp_msgs p") auto
  have "jobs (receive i p) = jobs p + {#m#}"
    using jobs_update [OF assms(2), of "Busy m"] assms(3) msgs by (simp add: jobs_def receive_def)
  with assms msgs show ?thesis using set_update_subset_insert [of "wp_workers p" i "Busy m"]
    by (auto simp: pool_inv_def receive_def)
qed

lemma pool_inv_finish:
  assumes "pool_inv c p" "i < length (wp_workers p)" "wp_workers p ! i = Busy m"
  shows "pool_inv c (finish i m p)"
proof -
  have "jobs (finish i m p) + {#m#} = jobs p" using jobs_update [OF assms(2), of Idle] assms(3) by (simp add: jobs_def finish_def)
  then have "jobs p = add_mset m (jobs (finish i m p))" by simp
  with assms show ?thesis using set_update_subset_insert [of "wp_workers p" i Idle] by (auto simp: pool_inv_def finish_def)
qed

lemma pool_inv_stop:
  assumes "pool_inv c p" "i < length (wp_workers p)" "wp_workers p ! i = Idle" "wp_cancelled p"
  shows "pool_inv c (stop i p)"
proof -
  have "jobs (stop i p) = jobs p" using jobs_update [OF assms(2), of Stopped] assms(3) by (simp add: jobs_def stop_def)
  with assms show ?thesis by (simp add: pool_inv_def stop_def)
qed

lemma pool_work_inv: "pool_work p p' \<Longrightarrow> pool_inv c p \<Longrightarrow> pool_inv c p'"
  by (induction rule: pool_work.induct) (simp_all add: pool_inv_send pool_inv_receive pool_inv_finish pool_inv_stop)

lemma pool_step_inv: "pool_step p p' \<Longrightarrow> pool_inv c p \<Longrightarrow> pool_inv c p'"
proof (induction rule: pool_step.induct)
  case (work p p')
  then show ?case by (simp add: pool_work_inv)
qed (auto simp: pool_inv_def add_begin_def jobs_def)

lemma pool_inv_drained:
  assumes "pool_inv c p" "Wait_returns p"
  shows "jobs p = {#}" "mset (wp_added p) = mset (wp_served p)"
proof -
  have "length (wp_sending p) + length (wp_msgs p) + size (jobs p) = 0" using assms unfolding pool_inv_def Wait_returns_def by linarith
  with assms(1) show "jobs p = {#}" "mset (wp_added p) = mset (wp_served p)" by (simp_all add: pool_inv_def)
qed

interpretation pool: inductive_invariant "\<lambda>p. p = NewWorkerPool c" pool_step "pool_inv c" for c
  by unfold_locales (auto simp: pool_inv_new pool_step_inv)

section \<open>Waiting\<close>

definition pool_weight :: "'m workerPool \<Rightarrow> nat" where
  "pool_weight p = 3 * length (wp_sending p) + 2 * length (wp_msgs p) + size (jobs p)"

definition live_inv :: "nat \<Rightarrow> 'm workerPool \<Rightarrow> bool" where
  "live_inv c p \<longleftrightarrow> pool_inv c p \<and> c > 0 \<and> \<not> wp_cancelled p"

lemma pool_work_live: "pool_work p p' \<Longrightarrow> live_inv c p \<Longrightarrow> live_inv c p'"
  using pool_work_inv by (fastforce simp: live_inv_def add_send_def receive_def finish_def stop_def elim: pool_work.cases)

lemma pool_work_weight: "pool_work p p' \<Longrightarrow> live_inv c p \<Longrightarrow> pool_weight p' < pool_weight p"
proof (induction rule: pool_work.induct)
  case (send k p)
  then show ?case by (simp add: pool_weight_def add_send_def jobs_def)
next
  case (take i p)
  then obtain m ms where msgs: "wp_msgs p = m # ms" by (cases "wp_msgs p") auto
  have "jobs (receive i p) = jobs p + {#m#}"
    using jobs_update [OF take(1), of "Busy m"] take(2) msgs by (simp add: jobs_def receive_def)
  then show ?case using msgs by (simp add: pool_weight_def receive_def)
next
  case (serve i p m)
  have "jobs (finish i m p) + {#m#} = jobs p" using jobs_update [OF serve(1), of Idle] serve(2) by (simp add: jobs_def finish_def)
  then have "size (jobs p) = size (jobs (finish i m p)) + 1" by (metis size_single size_union)
  then show ?case by (simp add: pool_weight_def finish_def)
next
  case (quit i p)
  then show ?case by (simp add: live_inv_def)
qed

lemma pool_stuck:
  assumes "live_inv c p" "\<And>p'. \<not> pool_work p p'"
  shows "Wait_returns p"
proof -
  have inv: "pool_inv c p" "c > 0" "\<not> wp_cancelled p" using assms(1) by (auto simp: live_inv_def)
  have idle: "wp_workers p ! i = Idle" if "i < length (wp_workers p)" for i
    using that assms(2) pool_work.serve [of i p] inv nth_mem [OF that] by (cases "wp_workers p ! i") (auto simp: pool_inv_def)
  then have no_jobs: "jobs p = {#}" by (auto simp: jobs_def in_set_conv_nth)
  have "0 < length (wp_workers p)" using inv by (simp add: pool_inv_def)
  then have "wp_msgs p = []" using pool_work.take [of 0 p] assms(2) idle [of 0] by blast
  moreover from this have "wp_sending p = []" using pool_work.send [of 0 p] assms(2) inv by (auto simp: pool_inv_def)
  ultimately show ?thesis using inv(1) no_jobs by (simp add: Wait_returns_def pool_inv_def)
qed

interpretation live: terminating_system "live_inv c" pool_work "live_inv c" pool_weight Wait_returns for c
  by unfold_locales (auto intro: pool_work_live pool_work_weight pool_stuck)

text \<open>\<open>Wait\<close> returns. As long as the pool's context is not cancelled and no new requests arrive, a pool with at least one goroutine cannot run more than three
  steps for each request in progress, and it never stops before all requests are served.\<close>

theorem pool_wait_returns:
  assumes "pool_step\<^sup>*\<^sup>* (NewWorkerPool c) p" "c > 0" "\<not> wp_cancelled p"
  shows "(\<forall>n p'. (pool_work ^^ n) p p' \<longrightarrow> int n \<le> 3 * wp_inProgress p) \<and>
    (\<forall>p'. pool_work\<^sup>*\<^sup>* p p' \<and> (\<nexists>q. pool_work p' q) \<longrightarrow> Wait_returns p') \<and>
    (\<exists>p'. pool_work\<^sup>*\<^sup>* p p' \<and> Wait_returns p')"
proof -
  have inv: "pool_inv c p" by (rule pool.reached_inv [OF refl assms(1)])
  then have live: "live_inv c p" using assms(2,3) by (simp add: live_inv_def)
  have "int (pool_weight p) \<le> 3 * wp_inProgress p" using inv by (simp add: pool_inv_def pool_weight_def)
  moreover have "n \<le> pool_weight p" if "(pool_work ^^ n) p p'" for n p'
    using live.run_length [OF that live] by simp
  ultimately show ?thesis
    using live.reaches_final [OF live] live.run_inv [OF _ live] pool_stuck by (meson of_nat_le_iff order_trans)
qed

theorem pool_wait_returns_witness:
  "\<exists>p'. pool_work\<^sup>*\<^sup>* (add_begin (7 :: nat) (NewWorkerPool 2)) p' \<and> Wait_returns p'"
proof -
  have "pool_step\<^sup>*\<^sup>* (NewWorkerPool 2) (add_begin (7 :: nat) (NewWorkerPool 2))" by (rule r_into_rtranclp) (rule pool_step.add)
  from pool_wait_returns [OF this] show ?thesis by (simp add: add_begin_def NewWorkerPool_def)
qed

text \<open>The goroutines handle one message each, and a message that comes next is served with all others.\<close>

lemma jobs_bound: "pool_inv c p \<Longrightarrow> size (jobs p) \<le> c"
proof -
  have one: "length (job w) \<le> 1" for w :: "'a worker" by (cases w) auto
  have "length (concat (map job ws)) \<le> length ws" for ws :: "'a worker list"
    by (induction ws) (use one in \<open>auto intro: le_trans [OF add_mono]\<close>)
  then show "pool_inv c p \<Longrightarrow> size (jobs p) \<le> c" by (metis jobs_def pool_inv_def size_mset)
qed

lemma pool_work_added: "pool_work\<^sup>*\<^sup>* p p' \<Longrightarrow> wp_added p' = wp_added p"
  by (induction rule: rtranclp_induct) (auto simp: add_send_def receive_def finish_def stop_def elim!: pool_work.cases)

lemma next_is_served:
  assumes "pool_inv c p"
  shows "c > 0 \<and> \<not> wp_cancelled p \<longrightarrow> (\<forall>m. \<exists>p'. pool_work\<^sup>*\<^sup>* (add_begin m p) p' \<and> Wait_returns p' \<and> mset (wp_served p') = add_mset m (mset (wp_added p)))"
proof (intro impI allI)
  fix m assume c: "c > 0 \<and> \<not> wp_cancelled p"
  have "pool_inv c (add_begin m p)" by (rule pool_step_inv [OF pool_step.add assms])
  with c have l: "live_inv c (add_begin m p)" by (simp add: live_inv_def add_begin_def)
  obtain p' where p': "pool_work\<^sup>*\<^sup>* (add_begin m p) p'" "Wait_returns p'" using live.reaches_final [OF l] by blast
  have "pool_inv c p'" using live.run_inv [OF p'(1) l] by (simp add: live_inv_def)
  from pool_inv_drained(2) [OF this p'(2)] pool_work_added [OF p'(1)] have "mset (wp_served p') = add_mset m (mset (wp_added p))" by (simp add: add_begin_def)
  with p' show "\<exists>p'. pool_work\<^sup>*\<^sup>* (add_begin m p) p' \<and> Wait_returns p' \<and> mset (wp_served p') = add_mset m (mset (wp_added p))" by blast
qed

text \<open>C25: The worker pool serves every request exactly once and stays within its limits. In every state it can reach, the requests that were added are, with their multiplicity,
  those that wait to be sent, those in the channel, those being handled and those that were served; at most \<open>concurrency\<close> of them are being handled and at most as many wait in the channel,
  and \<open>Wait\<close> returns exactly when everything that was added has been served. As long as the pool has a goroutine and its context lives, a request that is handed to it next is served,
  by the pool's own steps, and so is everything before it, each once.\<close>

theorem pool_serves_exactly_once:
  assumes "pool_step\<^sup>*\<^sup>* (NewWorkerPool c) p"
  shows "mset (wp_added p) = mset (wp_sending p) + mset (wp_msgs p) + jobs p + mset (wp_served p) \<and> size (jobs p) \<le> c \<and> length (wp_msgs p) \<le> c \<and>
    wp_inProgress p = int (length (wp_added p)) - int (length (wp_served p)) \<and>
    (Wait_returns p \<longleftrightarrow> mset (wp_served p) = mset (wp_added p)) \<and>
    (c > 0 \<and> \<not> wp_cancelled p \<longrightarrow> (\<forall>m. \<exists>p'. pool_work\<^sup>*\<^sup>* (add_begin m p) p' \<and> Wait_returns p' \<and> mset (wp_served p') = add_mset m (mset (wp_added p))))"
proof -
  have inv: "pool_inv c p" by (rule pool.reached_inv [OF refl assms])
  have len: "length (wp_added p) = length (wp_sending p) + length (wp_msgs p) + size (jobs p) + length (wp_served p)"
    using inv unfolding pool_inv_def by (metis size_mset size_union)
  have added: "mset (wp_added p) = mset (wp_sending p) + mset (wp_msgs p) + jobs p + mset (wp_served p)"
    and count: "wp_inProgress p = int (length (wp_added p)) - int (length (wp_served p))" "length (wp_msgs p) \<le> c"
    using inv len by (auto simp: pool_inv_def)
  have "mset (wp_served p) = mset (wp_added p)" if "length (wp_served p) = length (wp_added p)"
    using that len added by simp
  then have "Wait_returns p \<longleftrightarrow> mset (wp_served p) = mset (wp_added p)"
    using count(1) by (auto simp: Wait_returns_def dest: mset_eq_length)
  with added count jobs_bound [OF inv] next_is_served [OF inv] show ?thesis by blast
qed

theorem pool_serves_exactly_once_witness:
  "mset (wp_added (add_begin (7 :: nat) (NewWorkerPool 2))) = {#7#} \<and> \<not> Wait_returns (add_begin (7 :: nat) (NewWorkerPool 2)) \<and>
   (\<exists>p'. pool_work\<^sup>*\<^sup>* (add_begin 8 (add_begin (7 :: nat) (NewWorkerPool 2))) p' \<and> Wait_returns p' \<and> mset (wp_served p') = {#8, 7#})"
proof -
  have "pool_step\<^sup>*\<^sup>* (NewWorkerPool 2) (add_begin (7 :: nat) (NewWorkerPool 2))" by (rule r_into_rtranclp) (rule pool_step.add)
  from pool_serves_exactly_once [OF this] show ?thesis by (simp add: add_begin_def NewWorkerPool_def jobs_def)
qed

section \<open>Cancellation\<close>

text \<open>All goroutines are gone and something is in progress; \<open>served\<close> are the messages served before.\<close>

definition hung :: "'m list \<Rightarrow> 'm workerPool \<Rightarrow> bool" where
  "hung served p \<longleftrightarrow> (\<forall>w \<in> set (wp_workers p). w = Stopped) \<and> wp_inProgress p > 0 \<and> wp_served p = served"

lemma hung_step: "hung served p \<Longrightarrow> pool_step p p' \<Longrightarrow> hung served p'"
proof -
  assume "pool_step p p'" and h: "hung served p"
  then show "hung served p'"
  proof (induction rule: pool_step.induct)
    case (work p p')
    have "wp_workers p ! i = Stopped" if "i < length (wp_workers p)" for i using nth_mem [OF that] work by (simp add: hung_def)
    with work have "\<exists>k. p' = add_send k p" by (auto elim!: pool_work.cases)
    with work show ?case by (auto simp: hung_def add_send_def)
  qed (auto simp: hung_def add_begin_def)
qed

interpretation hang: inductive_invariant "hung served" pool_step "hung served" for served
  by unfold_locales (auto intro: hung_step)

text \<open>A cancelled pool with nothing in progress: its goroutines can only stop, one after the other.\<close>

definition retiring :: "nat \<Rightarrow> 'm list \<Rightarrow> 'm workerPool \<Rightarrow> bool" where
  "retiring c served p \<longleftrightarrow> pool_inv c p \<and> wp_cancelled p \<and> Wait_returns p \<and> wp_served p = served"

definition idle_workers :: "'m workerPool \<Rightarrow> nat set" where
  "idle_workers p = {i. i < length (wp_workers p) \<and> wp_workers p ! i = Idle}"

lemma retiring_work:
  assumes "retiring c served p" "pool_work p p'"
  shows "\<exists>i \<in> idle_workers p. p' = stop i p"
proof -
  have "length (wp_sending p) + length (wp_msgs p) + size (jobs p) = 0" using assms(1) unfolding retiring_def pool_inv_def Wait_returns_def by linarith
  then have none: "wp_sending p = []" "wp_msgs p = []" "jobs p = {#}" by auto
  then have "wp_workers p ! i \<noteq> Busy m" if "i < length (wp_workers p)" for i m using nth_mem [OF that] by (force simp: jobs_def)
  with assms(2) none show ?thesis by (auto simp: idle_workers_def elim!: pool_work.cases)
qed

interpretation retire: terminating_system "retiring c served" pool_work "retiring c served" "\<lambda>p. card (idle_workers p)" "\<lambda>p. \<forall>w \<in> set (wp_workers p). w = Stopped" for c served
proof unfold_locales
  show "retiring c served p \<Longrightarrow> retiring c served p" for p :: "'a workerPool" .
  show "retiring c served p'" if r: "retiring c served p" and w: "pool_work p p'" for p p' :: "'a workerPool"
  proof -
    obtain i where "p' = stop i p" using retiring_work [OF r w] by blast
    with r pool_work_inv [OF w, of c] show ?thesis by (auto simp: retiring_def stop_def Wait_returns_def)
  qed
  show "card (idle_workers p') < card (idle_workers p)" if r: "retiring c served p" and w: "pool_work p p'" for p p' :: "'a workerPool"
  proof -
    obtain i where i: "i \<in> idle_workers p" "p' = stop i p" using retiring_work [OF r w] by blast
    then have "idle_workers p' = idle_workers p - {i}" by (auto simp: idle_workers_def stop_def nth_list_update split: if_splits)
    moreover have "finite (idle_workers p)" by (simp add: idle_workers_def)
    ultimately show ?thesis using i(1) by (metis card_Diff1_less)
  qed
  show "\<forall>w \<in> set (wp_workers p). w = Stopped" if r: "retiring c served p" and stuck: "\<And>p'. \<not> pool_work p p'" for p :: "'a workerPool"
  proof
    fix w assume "w \<in> set (wp_workers p)"
    then obtain i where i: "i < length (wp_workers p)" "wp_workers p ! i = w" by (auto simp: in_set_conv_nth)
    with stuck pool_work.quit [of i p] pool_work.serve [of i p] r show "w = Stopped" by (cases w) (auto simp: retiring_def)
  qed
qed

text \<open>C37: A cancelled context hangs the shutdown: the pool's goroutines stop with the context of \<open>Connect\<close>, not with the worker. When that context is cancelled while nothing is in progress, the pool comes to rest
  after at most \<open>concurrency\<close> steps of its own, and a request that is added after that is counted but never served: from then on, whatever is added and whatever steps are made, \<open>Wait\<close> does not return and no further request is served.
  Had the context not been cancelled, the same request would be served and \<open>Wait\<close> would return.\<close>

theorem cancelled_pool_hangs:
  assumes "pool_step\<^sup>*\<^sup>* (NewWorkerPool c) p" "c > 0" "Wait_returns p"
  shows "(\<forall>n p'. (pool_work ^^ n) (p\<lparr>wp_cancelled := True\<rparr>) p' \<longrightarrow> n \<le> c) \<and> (\<exists>p'. pool_work\<^sup>*\<^sup>* (p\<lparr>wp_cancelled := True\<rparr>) p' \<and> (\<nexists>u. pool_work p' u)) \<and>
    (\<forall>p' m q. pool_work\<^sup>*\<^sup>* (p\<lparr>wp_cancelled := True\<rparr>) p' \<and> (\<nexists>u. pool_work p' u) \<and> pool_step\<^sup>*\<^sup>* (add_begin m p') q \<longrightarrow> \<not> Wait_returns q \<and> wp_served q = wp_served p) \<and>
    (\<not> wp_cancelled p \<longrightarrow> (\<forall>m. \<exists>q. pool_work\<^sup>*\<^sup>* (add_begin m p) q \<and> Wait_returns q \<and> m \<in> set (wp_served q)))"
proof (intro conjI allI impI)
  let ?p = "p\<lparr>wp_cancelled := True\<rparr>"
  have inv: "pool_inv c p" by (rule pool.reached_inv [OF refl assms(1)])
  have r: "retiring c (wp_served p) ?p" using pool_step_inv [OF pool_step.cancel inv] assms(3) by (simp add: retiring_def Wait_returns_def)
  have "idle_workers ?p \<subseteq> {..<c}" using inv by (auto simp: idle_workers_def pool_inv_def)
  then have "card (idle_workers ?p) \<le> c" using card_mono [of "{..<c}"] by auto
  then show "n \<le> c" if "(pool_work ^^ n) ?p p'" for n p' using retire.run_length [OF that r] by simp
  obtain p' where p': "pool_work\<^sup>*\<^sup>* ?p p'" "\<forall>w \<in> set (wp_workers p'). w = Stopped" using retire.reaches_final [OF r] by blast
  have "\<not> pool_work p' u" for u
  proof
    assume "pool_work p' u"
    then obtain i where "i \<in> idle_workers p'" using retiring_work [OF retire.run_inv [OF p'(1) r]] by blast
    with p'(2) show False by (force simp: idle_workers_def in_set_conv_nth)
  qed
  with p'(1) show "\<exists>p'. pool_work\<^sup>*\<^sup>* ?p p' \<and> (\<nexists>u. pool_work p' u)" by blast
next
  fix p' m q assume a: "pool_work\<^sup>*\<^sup>* (p\<lparr>wp_cancelled := True\<rparr>) p' \<and> (\<nexists>u. pool_work p' u) \<and> pool_step\<^sup>*\<^sup>* (add_begin m p') q"
  have r: "retiring c (wp_served p) (p\<lparr>wp_cancelled := True\<rparr>)"
    using pool_step_inv [OF pool_step.cancel pool.reached_inv [OF refl assms(1)]] assms(3) by (simp add: retiring_def Wait_returns_def)
  have r': "retiring c (wp_served p) p'" using retire.run_inv [OF _ r] a by blast
  have "\<forall>w \<in> set (wp_workers p'). w = Stopped" using retire.stuck_final [OF r'] a by blast
  with r' have "hung (wp_served p) (add_begin m p')" by (simp add: hung_def add_begin_def retiring_def Wait_returns_def)
  then have "hung (wp_served p) q" using hang.reached_inv a by blast
  then show "\<not> Wait_returns q" "wp_served q = wp_served p" by (simp_all add: hung_def Wait_returns_def)
next
  fix m assume "\<not> wp_cancelled p"
  with next_is_served [OF pool.reached_inv [OF refl assms(1)]] assms(2)
  obtain q where "pool_work\<^sup>*\<^sup>* (add_begin m p) q" "Wait_returns q" "mset (wp_served q) = add_mset m (mset (wp_added p))" by blast
  moreover from this(3) have "m \<in> set (wp_served q)" by (metis set_mset_mset union_single_eq_member)
  ultimately show "\<exists>q. pool_work\<^sup>*\<^sup>* (add_begin m p) q \<and> Wait_returns q \<and> m \<in> set (wp_served q)" by blast
qed

theorem cancelled_pool_hangs_witness:
  "let p = stop 0 ((NewWorkerPool 1)\<lparr>wp_cancelled := True\<rparr>) :: nat workerPool
   in \<not> Wait_returns (add_send 0 (add_begin 7 p)) \<and> wp_served (add_send 0 (add_begin 7 p)) = []"
proof -
  let ?c = "(NewWorkerPool 1)\<lparr>wp_cancelled := True\<rparr> :: nat workerPool" and ?p = "stop 0 ((NewWorkerPool 1)\<lparr>wp_cancelled := True\<rparr>) :: nat workerPool"
  have "pool_work ?c ?p" by (rule pool_work.quit) (simp_all add: NewWorkerPool_def)
  moreover have "\<not> pool_work ?p u" for u by (auto simp: NewWorkerPool_def stop_def elim!: pool_work.cases)
  moreover have "pool_work (add_begin 7 ?p) (add_send 0 (add_begin 7 ?p))" by (rule pool_work.send) (simp_all add: add_begin_def NewWorkerPool_def stop_def)
  moreover have "Wait_returns (NewWorkerPool 1 :: nat workerPool)" by (simp add: Wait_returns_def NewWorkerPool_def)
  ultimately show ?thesis using cancelled_pool_hangs [OF rtranclp.rtrancl_refl, of 1] pool_step.work
    unfolding Let_def by (metis NewWorkerPool_def r_into_rtranclp workerPool.select_convs(8) zero_less_one)
qed

section \<open>processExecutorRequest\<close>

text \<open>An error is only logged; a panic in the handler is not recovered.\<close>

definition processExecutorRequest ::
  "'v sys \<Rightarrow> proto \<Rightarrow> Opts \<Rightarrow> ('w, 'v) handler \<Rightarrow> websocket \<Rightarrow> ConnectMessage \<Rightarrow> ConnectMessage list \<Rightarrow> messageBuffer \<Rightarrow> 'w \<Rightarrow>
     unit outcome \<times> ConnectMessage list \<times> messageBuffer \<times> 'w" where
  "processExecutorRequest sys pb opts h ws msg written mb world =
     (case handleInvokeMessage sys pb opts h ws msg written mb world of
        (Returned _, r) \<Rightarrow> (Returned (), r)
      | (Hijacked, r) \<Rightarrow> (Hijacked, r)
      | (Panicked p, r) \<Rightarrow> (Panicked p, r))"

end
