(* ===== verification/RunLoop.thy ===== *)
theory RunLoop
  imports Connection Pool
begin

text \<open>
  The life of a connect worker, \<open>connect/handler.go\<close>: the run loop that keeps a connection, \<open>Connect\<close>, which starts it and waits for
  the first connection, and \<open>Close\<close>. They are goroutines that meet on unbuffered channels, so the model is a step relation; a send and its receive are one step. What one
  iteration of the run loop decides is a function, \<open>on_done\<close>.

  The connections are those of \<open>Connection\<close>: a goroutine of \<open>connect\<close> prepares a connection and reports an error of \<open>prepareConnection\<close>, or
  that it is connected; a connected one reports what \<open>handleConnection\<close> returned, or is replaced when its gateway drains. The run loop starts
  connections under the context that \<open>Connect\<close> was called with, the start context, which is over as soon as the package's \<open>Connect\<close> has returned (\<open>s_startDone\<close>);
  replacements are started under a context that never ends.
\<close>

section \<open>What the run loop decides\<close>

datatype ConnectionState = ConnectionStateConnecting | ConnectionStateActive | ConnectionStatePaused | ConnectionStateReconnecting
  | ConnectionStateClosing | ConnectionStateClosed

record authContext =
  au_hashedSigningKey :: string
  au_fallback :: bool

record run_state =
  rl_attempts :: nat
  rl_initial :: bool
  rl_state :: ConnectionState
  rl_auth :: authContext

definition backoffTimes :: "duration list" where
  "backoffTimes = [Second, 2 * Second, 5 * Second, 10 * Second, 20 * Second, 30 * Second, Minute, 2 * Minute, 5 * Minute]"

definition expBackoff :: "nat \<Rightarrow> duration" where
  "expBackoff attempt = (if attempt \<ge> length backoffTimes then last backoffTimes else backoffTimes ! attempt)"

definition retriable_reasons :: "string list" where
  "retriable_reasons = [''connect_authentication_failed'', ''connect_gateway_closing'', ''connect_internal_error'', ''connect_worker_hello_timeout'']"

text \<open>Leave the loop with an error, after handing a result to \<open>Connect\<close> if it still waits for one; or go on to reconnect. The error \<open>err\<close> that
  some branches return is the outer variable, which is nil there.\<close>

datatype verdict = Exit "goerr option" "goerr option" run_state | Retry run_state

definition auth_failed :: "Opts \<Rightarrow> run_state \<Rightarrow> goerr + run_state" where
  "auth_failed opts l =
     (if au_fallback (rl_auth l) then Inl (Errorf ''failed to authenticate with fallback key, exiting'' [])
      else if co_HashedSigningKeyFallback opts = [] then Inl (Errorf ''fallback signing key is required'' [])
      else Inr (l\<lparr>rl_auth := \<lparr>au_hashedSigningKey = co_HashedSigningKeyFallback opts, au_fallback = True\<rparr>\<rparr>))"

definition on_done :: "Opts \<Rightarrow> connectReport \<Rightarrow> run_state \<Rightarrow> verdict" where
  "on_done opts msg l =
     (if \<not> rp_reconnect msg then Exit None None (l\<lparr>rl_state := ConnectionStateClosed\<rparr>)
      else let l1 = l\<lparr>rl_state := ConnectionStateReconnecting\<rparr> in
        case rp_err msg of
          None \<Rightarrow> Retry l1
        | Some e \<Rightarrow>
            if Is_sentinel ErrTooManyConnections (Some e) \<and> rl_initial l1 then
              Exit None (Some (Errorf ''too many connections, please disconnect other workers or upgrade your billing plan for more concurrent connections'' [])) l1
            else case (if Is_sentinel ErrUnauthenticated (Some e) then auth_failed opts l1 else Inr l1) of
              Inl err \<Rightarrow> Exit (Some err) (Some err) l1
            | Inr l2 \<Rightarrow>
                (case errors_As as_CloseError e of
                   None \<Rightarrow> Retry l2
                 | Some (reason, _) \<Rightarrow>
                     if reason \<in> set retriable_reasons then Retry l2
                     else let err = Errorf (''connect failed with error code '' @ Quote reason) [] in Exit (Some err) (Some err) l2))"

section \<open>The goroutines\<close>

text \<open>Where the run loop is: in its \<open>select\<close>, in the wait before it reconnects, sending on \<open>initialConnectionDone\<close> (and what follows), or over.\<close>

datatype after_send = Resume | Finish "goerr option"

datatype loop_pc = Select | Delay | Handoff "goerr option" after_send | Ended "goerr option"

text \<open>Where the caller is: sending on \<open>initiateConnectionChan\<close>, waiting for the first connection, in the \<open>Close\<close> that \<open>Connect\<close> calls, returned from \<open>Connect\<close>, or in its
  own \<open>Close\<close>.\<close>

datatype main_pc = Initiating | Waiting | InClose | Done_Connect "goerr option" | UserClose | Closed

text \<open>The goroutines of \<open>connect\<close>: \<open>s_connecting\<close> are the keys of those that prepare a connection under the start context, \<open>s_replacing\<close> counts those that prepare a replacement (with
  the key of the connection they replace, which the model does not follow: any key), \<open>s_prepared\<close> send on \<open>notifyConnectedChan\<close>, and \<open>s_connected\<close> handle their connection. \<open>s_eg\<close>: the goroutine that waits for the run loop is over.\<close>

record system =
  s_loop :: run_state
  s_pc :: loop_pc
  s_main :: main_pc
  s_startDone :: bool
  s_workerDone :: bool
  s_connecting :: "string list"
  s_replacing :: nat
  s_prepared :: nat
  s_connected :: nat
  s_eg :: bool
  s_buffer :: messageBuffer
  s_tried :: "SDKResponse list"

text \<open>\<open>Connect\<close> up to the first send; a worker needs a hashed signing key.\<close>

definition Connect_start :: "Opts \<Rightarrow> goerr + system" where
  "Connect_start opts =
     (if co_HashedSigningKey opts = [] then Inl (Errorf ''hashed signing key is required'' [])
      else Inr \<lparr>s_loop = \<lparr>rl_attempts = 0, rl_initial = True, rl_state = ConnectionStateConnecting,
                  rl_auth = \<lparr>au_hashedSigningKey = co_HashedSigningKey opts, au_fallback = False\<rparr>\<rparr>,
             s_pc = Select, s_main = Initiating, s_startDone = False, s_workerDone = False, s_connecting = [], s_replacing = 0,
             s_prepared = 0, s_connected = 0, s_eg = False, s_buffer = newMessageBuffer, s_tried = []\<rparr>)"

text \<open>The package's \<open>Connect\<close> makes the API client and the pool of a new worker and calls the method, up to its first send; the wait for the first connection, and with it what the package's
  \<open>Connect\<close> returns, is part of the steps below.\<close>

record 'm connectHandler =
  ch_apiClient :: workerApiClient
  ch_workerPool :: "'m workerPool"
  ch_system :: system

definition Connect_handler :: "Opts \<Rightarrow> goerr + 'm connectHandler" where
  "Connect_handler opts = (case Connect_start opts of
     Inl e \<Rightarrow> Inl (wrapf ''could not establish connection: '' e)
   | Inr s \<Rightarrow> Inr \<lparr>ch_apiClient = newWorkerApiClient (co_APIBaseUrl opts) (co_Env opts),
       ch_workerPool = NewWorkerPool (nat (co_MaxConcurrency opts)), ch_system = s\<rparr>)"

definition leave :: "goerr option \<Rightarrow> goerr option \<Rightarrow> system \<Rightarrow> system" where
  "leave ret v s = (if rl_initial (s_loop s)
     then s\<lparr>s_loop := (s_loop s)\<lparr>rl_initial := False\<rparr>, s_pc := Handoff v (Finish ret)\<rparr>
     else s\<lparr>s_pc := Ended ret\<rparr>)"

definition five_attempts :: goerr where
  "five_attempts = Errorf ''could not establish connection after 5 attempts'' []"

text \<open>The end of an iteration: count the attempt and start a connection with the key in use. \<open>establish_data\<close> is what the goroutine of a connection is given (the functions and capabilities
  encoded, the number of cores as an \<open>int32\<close>, the memory as an \<open>int64\<close>).\<close>

definition establish_data :: "int \<Rightarrow> int \<Rightarrow> bytes \<Rightarrow> bytes \<Rightarrow> string \<Rightarrow> connectionEstablishData" where
  "establish_data numCpuCores totalMem marshaledFns marshaledCapabilities key =
     \<lparr>ce_hashedSigningKey = key, ce_numCpuCores = signed_take_bit 31 numCpuCores, ce_totalMem = signed_take_bit 63 totalMem,
      ce_marshaledFns = marshaledFns, ce_marshaledCapabilities = marshaledCapabilities, ce_manualReadinessAck = False\<rparr>"

definition attempt :: "system \<Rightarrow> system" where
  "attempt s = (let l = s_loop s in
     if rl_attempts l = 5 then leave (Some five_attempts) (Some five_attempts) s
     else s\<lparr>s_loop := l\<lparr>rl_attempts := rl_attempts l + 1\<rparr>, s_connecting := s_connecting s @ [au_hashedSigningKey (rl_auth l)],
       s_pc := Select\<rparr>)"

definition now_active :: "system \<Rightarrow> system" where
  "now_active s = s\<lparr>s_loop := (s_loop s)\<lparr>rl_state := ConnectionStateActive, rl_attempts := 0\<rparr>, s_pc := Select\<rparr>"

definition connected :: "system \<Rightarrow> system" where
  "connected s = (let s1 = s\<lparr>s_prepared := s_prepared s - 1, s_connected := s_connected s + 1\<rparr> in
     if rl_initial (s_loop s1) then s1\<lparr>s_loop := (s_loop s1)\<lparr>rl_initial := False\<rparr>, s_pc := Handoff None Resume\<rparr>
     else now_active s1)"

definition flushed :: "(SDKResponse list \<Rightarrow> SDKResponse \<Rightarrow> bool) \<Rightarrow> (nat \<Rightarrow> msgmap \<Rightarrow> msgmap) \<Rightarrow> system \<Rightarrow> system" where
  "flushed api order s = (case flush_if_any api order (s_buffer s) (s_tried s) of (_, mb, tried) \<Rightarrow> s\<lparr>s_buffer := mb, s_tried := tried\<rparr>)"

definition report ::
  "Opts \<Rightarrow> (SDKResponse list \<Rightarrow> SDKResponse \<Rightarrow> bool) \<Rightarrow> (nat \<Rightarrow> msgmap \<Rightarrow> msgmap) \<Rightarrow> connectReport \<Rightarrow> system \<Rightarrow> system" where
  "report opts api order msg s = (case on_done opts msg (s_loop s) of
     Exit ret v l \<Rightarrow> leave ret v (s\<lparr>s_loop := l\<rparr>)
   | Retry l \<Rightarrow> flushed api order (s\<lparr>s_loop := l, s_pc := Delay\<rparr>))"

text \<open>The last part of the worker: after the run loop, flush once more.\<close>

definition wound_up :: "(SDKResponse list \<Rightarrow> SDKResponse \<Rightarrow> bool) \<Rightarrow> (nat \<Rightarrow> msgmap \<Rightarrow> msgmap) \<Rightarrow> system \<Rightarrow> system" where
  "wound_up api order s = (flushed api order s)\<lparr>s_eg := True\<rparr>"

definition resumed :: "after_send \<Rightarrow> system \<Rightarrow> system" where
  "resumed next s = (case next of Resume \<Rightarrow> now_active s | Finish ret \<Rightarrow> s\<lparr>s_pc := Ended ret\<rparr>)"

definition start_cancelled :: goerr where
  "start_cancelled = Errorf ''context canceled while establishing connection'' []"

text \<open>\<open>Close\<close>: cancel the worker, wait for the goroutines of the run loop, and record the state.\<close>

definition begin_close :: "main_pc \<Rightarrow> system \<Rightarrow> system" where
  [simp]: "begin_close waiting s = s\<lparr>s_main := waiting, s_workerDone := True\<rparr>"

definition end_close :: "main_pc \<Rightarrow> system \<Rightarrow> system" where
  [simp]: "end_close result s = s\<lparr>s_main := result, s_loop := (s_loop s)\<lparr>rl_state := ConnectionStateClosed\<rparr>\<rparr>"

text \<open>Whether a connection with a key can be prepared under a context, the errors such a preparing connection can report, and what a connected one can return.\<close>

definition prepares :: "Opts \<Rightarrow> string \<Rightarrow> bool \<Rightarrow> bool" where
  "prepares opts key ctxDone \<longleftrightarrow> (\<exists>w Do a hst dial ctxErr cid t cores mem fns caps ex sent r sent'.
     prepareConnection w Do a hst opts dial ctxErr cid t (establish_data cores mem fns caps key) ex sent = (Inr r, sent') \<and> (ctxErr \<noteq> None \<longleftrightarrow> ctxDone))"

definition prepare_error :: "Opts \<Rightarrow> string \<Rightarrow> goerr \<Rightarrow> bool" where
  "prepare_error opts key e \<longleftrightarrow> (\<exists>w Do a hst dial ctxErr cid t cores mem fns caps ex sent sent'.
     prepareConnection w Do a hst opts dial ctxErr cid t (establish_data cores mem fns caps key) ex sent = (Inl e, sent'))"

definition handled :: "goerr option \<Rightarrow> bool" where
  "handled r \<longleftrightarrow> (\<exists>pb api order reads ctxDone readerDone others mb tried res.
     handleConnection pb api order reads ctxDone readerDone others mb tried = Some res \<and> cr_err res = r)"

text \<open>The step \<open>wind_up\<close> is the end of the five seconds the last goroutine waits; with \<open>last_fail\<close>, \<open>last_refail\<close> and \<open>last_over\<close> it receives the report of a
  connection in that time.\<close>

inductive loop_step ::
  "Opts \<Rightarrow> (SDKResponse list \<Rightarrow> SDKResponse \<Rightarrow> bool) \<Rightarrow> (nat \<Rightarrow> msgmap \<Rightarrow> msgmap) \<Rightarrow> system \<Rightarrow> system \<Rightarrow> bool"
  for opts :: Opts and api :: "SDKResponse list \<Rightarrow> SDKResponse \<Rightarrow> bool" and order :: "nat \<Rightarrow> msgmap \<Rightarrow> msgmap"
where
  initiate: "s_main s = Initiating \<Longrightarrow> s_pc s = Select \<Longrightarrow> loop_step opts api order s (attempt (s\<lparr>s_main := Waiting\<rparr>))"
| stop: "s_pc s = Select \<Longrightarrow> s_workerDone s \<Longrightarrow> loop_step opts api order s (s\<lparr>s_pc := Ended None\<rparr>)"
| prepare: "key \<in> set (s_connecting s) \<Longrightarrow> prepares opts key (s_startDone s) \<Longrightarrow>
    loop_step opts api order s (s\<lparr>s_connecting := remove1 key (s_connecting s), s_prepared := s_prepared s + 1\<rparr>)"
| replace: "s_replacing s > 0 \<Longrightarrow> prepares opts key False \<Longrightarrow>
    loop_step opts api order s (s\<lparr>s_replacing := s_replacing s - 1, s_prepared := s_prepared s + 1\<rparr>)"
| connect: "s_pc s = Select \<Longrightarrow> s_prepared s > 0 \<Longrightarrow> loop_step opts api order s (connected s)"
| fail: "s_pc s = Select \<Longrightarrow> key \<in> set (s_connecting s) \<Longrightarrow> prepare_error opts key e \<Longrightarrow> connect_notifies (Some e) r = [Done msg] \<Longrightarrow>
    loop_step opts api order s (report opts api order msg (s\<lparr>s_connecting := remove1 key (s_connecting s)\<rparr>))"
| refail: "s_pc s = Select \<Longrightarrow> s_replacing s > 0 \<Longrightarrow> prepare_error opts key e \<Longrightarrow> connect_notifies (Some e) r = [Done msg] \<Longrightarrow>
    loop_step opts api order s (report opts api order msg (s\<lparr>s_replacing := s_replacing s - 1\<rparr>))"
| over: "s_pc s = Select \<Longrightarrow> s_connected s > 0 \<Longrightarrow> handled r \<Longrightarrow> connect_notifies None r = [Connected, Done msg] \<Longrightarrow>
    loop_step opts api order s (report opts api order msg (s\<lparr>s_connected := s_connected s - 1\<rparr>))"
| drain: "s_connected s > 0 \<Longrightarrow> handled r \<Longrightarrow> connect_notifies None r = [Connected] \<Longrightarrow>
    loop_step opts api order s (s\<lparr>s_connected := s_connected s - 1, s_replacing := s_replacing s + 1\<rparr>)"
| tick: "s_pc s = Delay \<Longrightarrow> loop_step opts api order s (attempt s)"
| wake: "s_pc s = Delay \<Longrightarrow> s_workerDone s \<Longrightarrow> loop_step opts api order s (leave None None s)"
| handoff: "s_pc s = Handoff v next \<Longrightarrow> s_main s = Waiting \<Longrightarrow> loop_step opts api order s
    (resumed next (s\<lparr>s_main := Done_Connect (map_option (wrapf ''could not establish connection: '') v)\<rparr>))"
| expire: "\<not> s_startDone s \<Longrightarrow> loop_step opts api order s (s\<lparr>s_startDone := True\<rparr>)"
| give_up: "s_main s = Waiting \<Longrightarrow> s_startDone s \<Longrightarrow> loop_step opts api order s (begin_close InClose s)"
| wind_up: "s_pc s = Ended ret \<Longrightarrow> \<not> s_eg s \<Longrightarrow> loop_step opts api order s (wound_up api order s)"
| last_fail: "s_pc s = Ended ret \<Longrightarrow> \<not> s_eg s \<Longrightarrow> key \<in> set (s_connecting s) \<Longrightarrow>
    loop_step opts api order s (wound_up api order (s\<lparr>s_connecting := remove1 key (s_connecting s)\<rparr>))"
| last_refail: "s_pc s = Ended ret \<Longrightarrow> \<not> s_eg s \<Longrightarrow> s_replacing s > 0 \<Longrightarrow> loop_step opts api order s (wound_up api order (s\<lparr>s_replacing := s_replacing s - 1\<rparr>))"
| last_over: "s_pc s = Ended ret \<Longrightarrow> \<not> s_eg s \<Longrightarrow> s_connected s > 0 \<Longrightarrow> loop_step opts api order s (wound_up api order (s\<lparr>s_connected := s_connected s - 1\<rparr>))"
| gave_up: "s_main s = InClose \<Longrightarrow> s_eg s \<Longrightarrow> loop_step opts api order s (end_close (Done_Connect (Some start_cancelled)) s)"
| close: "s_main s = Done_Connect None \<Longrightarrow> loop_step opts api order s (begin_close UserClose s)"
| closed: "s_main s = UserClose \<Longrightarrow> s_eg s \<Longrightarrow> loop_step opts api order s (end_close Closed s)"

section \<open>Invariants\<close>

lemma Is_sentinel_wrapf [simp]: "Is_sentinel x (Some (wrapf m e)) = Is_sentinel x (Some e)"
  by (simp add: wrapf_def)

lemma as_CloseError_simps [simp]:
  "errors_As as_CloseError (wrapf m e) = errors_As as_CloseError e"
  "errors_As as_CloseError (ReconnectErr e) = errors_As as_CloseError e"
  "errors_As as_CloseError (Errorf m []) = None"
  "errors_As as_CloseError (Sentinel x) = None"
  "errors_As as_CloseError (CloseErr r m) = Some (r, CloseErr r m)"
  by (subst errors_As.simps, simp add: as_CloseError_def wrapf_def split: option.splits)+

lemma shouldReconnect_ReconnectErr [simp]: "shouldReconnect (ReconnectErr e)"
  by (simp add: shouldReconnect_def errors_As.simps [of _ "ReconnectErr e"])

lemma prepareConnection_reconnects:
  assumes "prepareConnection w Do a hst opts dial ce cid t data ex sent = (Inl e, sent')"
  shows "shouldReconnect e"
proof -
  from assms have "\<exists>e'. e = ReconnectErr e'"
    unfolding prepareConnection_def newReconnectErr_def
    by (cases "start w Do a ce (ce_hashedSigningKey data) ex sent"; cases "fst (start w Do a ce (ce_hashedSigningKey data) ex sent)")
      (auto split: option.split_asm sum.split_asm prod.split_asm)
  then show ?thesis by auto
qed

lemma prepare_error_reconnects: "prepare_error opts key e \<Longrightarrow> shouldReconnect e"
  unfolding prepare_error_def using prepareConnection_reconnects by blast

text \<open>The key in use is the configured one, or the fallback key after one switch.\<close>

definition auth_ok :: "Opts \<Rightarrow> authContext \<Rightarrow> bool" where
  "auth_ok opts a \<longleftrightarrow> a = \<lparr>au_hashedSigningKey = co_HashedSigningKey opts, au_fallback = False\<rparr> \<or>
     a = \<lparr>au_hashedSigningKey = co_HashedSigningKeyFallback opts, au_fallback = True\<rparr> \<and> co_HashedSigningKeyFallback opts \<noteq> []"

definition loop_of :: "verdict \<Rightarrow> run_state" where
  "loop_of v = (case v of Exit _ _ l \<Rightarrow> l | Retry l \<Rightarrow> l)"

lemma on_done_frame:
  "rl_initial (loop_of (on_done opts msg l)) = rl_initial l" "rl_attempts (loop_of (on_done opts msg l)) = rl_attempts l"
  "auth_ok opts (rl_auth l) \<Longrightarrow> auth_ok opts (rl_auth (loop_of (on_done opts msg l)))"
  by (auto simp: on_done_def Let_def auth_failed_def loop_of_def auth_ok_def split: option.splits sum.splits)

text \<open>How the caller and the run loop agree.\<close>

definition conns :: "system \<Rightarrow> nat" where
  [simp]: "conns s = length (s_connecting s) + s_replacing s + s_prepared s + s_connected s"

definition agree :: "system \<Rightarrow> bool" where
  "agree s \<longleftrightarrow> (case s_pc s of
       Handoff v next \<Rightarrow> \<not> rl_initial (s_loop s) \<and> s_main s \<in> {Waiting, InClose} \<and> (next = Resume \<longrightarrow> conns s > 0) \<and> \<not> s_eg s
     | Ended ret \<Rightarrow> s_main s \<notin> {Initiating, Waiting}
     | _ \<Rightarrow> \<not> s_eg s \<and> (rl_initial (s_loop s) \<longleftrightarrow> s_main s \<in> {Initiating, Waiting, InClose})) \<and>
     (s_workerDone s \<longrightarrow> s_main s \<notin> {Initiating, Waiting, Done_Connect None}) \<and> (s_main s = InClose \<longrightarrow> s_workerDone s) \<and>
     (s_main s = Initiating \<longrightarrow> s_pc s = Select \<and> rl_attempts (s_loop s) = 0 \<and> conns s = 0) \<and>
     (s_pc s = Select \<and> s_main s \<noteq> Initiating \<longrightarrow> conns s > 0)"

definition loop_inv :: "Opts \<Rightarrow> system \<Rightarrow> bool" where
  "loop_inv opts s \<longleftrightarrow> rl_attempts (s_loop s) \<le> 5 \<and> auth_ok opts (rl_auth (s_loop s)) \<and> agree s"

lemma loop_inv_start: "Connect_start opts = Inr s \<Longrightarrow> loop_inv opts s"
  by (auto simp: Connect_start_def loop_inv_def auth_ok_def agree_def split: if_splits)

lemma flushed_frame [simp]:
  "s_loop (flushed api order s) = s_loop s" "s_pc (flushed api order s) = s_pc s" "s_main (flushed api order s) = s_main s"
  "s_startDone (flushed api order s) = s_startDone s" "s_workerDone (flushed api order s) = s_workerDone s"
  "s_connecting (flushed api order s) = s_connecting s" "s_replacing (flushed api order s) = s_replacing s"
  "s_prepared (flushed api order s) = s_prepared s" "s_connected (flushed api order s) = s_connected s" "s_eg (flushed api order s) = s_eg s"
  by (simp_all add: flushed_def split: prod.splits)

lemma loop_inv_report:
  assumes "loop_inv opts s" "s_pc s = Select" "s_main s \<noteq> Initiating"
    "s_loop s' = s_loop s" "s_pc s' = Select" "s_main s' = s_main s" "s_workerDone s' = s_workerDone s" "s_eg s' = s_eg s"
  shows "loop_inv opts (report opts api order msg s')"
proof -
  have f: "rl_initial (loop_of (on_done opts msg (s_loop s))) = rl_initial (s_loop s)"
    "rl_attempts (loop_of (on_done opts msg (s_loop s))) = rl_attempts (s_loop s)"
    "auth_ok opts (rl_auth (loop_of (on_done opts msg (s_loop s))))"
    using on_done_frame [where opts = opts and msg = msg and l = "s_loop s"] assms(1) by (auto simp: loop_inv_def)
  show ?thesis
  proof (cases "on_done opts msg (s_loop s)")
    case (Exit ret v l)
    with f assms show ?thesis by (auto simp: report_def leave_def loop_of_def loop_inv_def agree_def)
  next
    case (Retry l)
    with f assms show ?thesis by (auto simp: report_def loop_of_def loop_inv_def agree_def)
  qed
qed

lemma loop_inv_step:
  assumes "loop_step opts api order s t" "loop_inv opts s"
  shows "loop_inv opts t"
  using assms
proof (induction rule: loop_step.induct)
  case (fail s e r msg)
  then have "s_main s \<noteq> Initiating" by (auto simp: loop_inv_def agree_def)
  with fail show ?case by (intro loop_inv_report [where s = s]) auto
next
  case (refail s e r msg)
  then have "s_main s \<noteq> Initiating" by (auto simp: loop_inv_def agree_def)
  with refail show ?case by (intro loop_inv_report [where s = s]) auto
next
  case (over s r msg)
  then have "s_main s \<noteq> Initiating" by (auto simp: loop_inv_def agree_def)
  with over show ?case by (intro loop_inv_report [where s = s]) auto
next
  case (initiate s)
  then show ?case by (auto simp: loop_inv_def agree_def attempt_def leave_def Let_def)
next
  case (connect s)
  then show ?case by (auto simp: loop_inv_def agree_def connected_def now_active_def Let_def)
next
  case (tick s)
  then show ?case by (auto simp: loop_inv_def agree_def attempt_def leave_def Let_def)
next
  case (handoff s v nxt)
  then show ?case by (cases nxt) (auto simp: loop_inv_def agree_def resumed_def now_active_def)
qed (auto simp: loop_inv_def agree_def leave_def wound_up_def split: loop_pc.splits)

interpretation run: inductive_invariant "\<lambda>s. Connect_start opts = Inr s" "loop_step opts api order" "loop_inv opts" for opts api order
  by unfold_locales (auto intro: loop_inv_start loop_inv_step)

text \<open>C21: The run loop and \<open>Connect\<close> agree in every state they can reach. At most five attempts are counted; the key in use is the configured one or, after one switch, the
  fallback key; while \<open>Connect\<close> waits the loop is still running and will hand it a result; and the loop sends a result only as long as
  \<open>Connect\<close> has not returned, so at most once.\<close>

theorem run_loop_invariant:
  assumes "Connect_start opts = Inr s0" "(loop_step opts api order)\<^sup>*\<^sup>* s0 s"
  shows "rl_attempts (s_loop s) \<le> 5 \<and> auth_ok opts (rl_auth (s_loop s)) \<and>
    (s_main s = Waiting \<longrightarrow> rl_initial (s_loop s) \<and> s_pc s \<in> {Select, Delay} \<or> (\<exists>v next. s_pc s = Handoff v next)) \<and>
    ((\<exists>v next. s_pc s = Handoff v next) \<longrightarrow> s_main s \<in> {Waiting, InClose} \<and> \<not> rl_initial (s_loop s))"
  using run.reached_inv [OF assms] by (auto simp: loop_inv_def agree_def split: loop_pc.splits)

section \<open>Starting without a service\<close>

text \<open>Both sides wait: the run loop for a receiver, \<open>Close\<close> for the run loop.\<close>

definition deadlocked :: "system \<Rightarrow> bool" where
  "deadlocked s \<longleftrightarrow> (\<exists>v next. s_pc s = Handoff v next) \<and> s_main s = InClose \<and> \<not> s_eg s"

lemma deadlocked_step: "deadlocked s \<Longrightarrow> loop_step opts api order s t \<Longrightarrow> deadlocked t"
  by (erule loop_step.cases) (auto simp: deadlocked_def wound_up_def)

interpretation dead: inductive_invariant deadlocked "loop_step opts api order" deadlocked for opts api order
  by unfold_locales (auto intro: deadlocked_step)

text \<open>An attempt that fails for a reason the loop retries on: the start request cannot be encoded.\<close>

definition plain_error :: goerr where
  "plain_error = newReconnectErr (wrapf ''could not start connection: '' (wrapf ''could not marshal start request: '' proto_error))"

lemma plain_error: "prepare_error opts key plain_error"
proof -
  have p: "prepareConnection \<lparr>wr_start_request = \<lambda>_. None, wr_start_response = \<lambda>_. None, wr_flush_response = \<lambda>_. True,
      wr_connect = \<lambda>_. None, wr_kind = \<lambda>_. []\<rparr> Do a hst opts dial ce cid t data ex sent = (Inl plain_error, sent)" for Do a hst dial ce cid t data ex sent
    by (simp add: prepareConnection_def start_def plain_error_def)
  show ?thesis unfolding prepare_error_def by (intro exI) (rule p)
qed

definition plain_report :: connectReport where
  "plain_report = \<lparr>rp_reconnect = True, rp_err = Some (wrapf ''could not establish connection: '' plain_error)\<rparr>"

lemma plain_notifies: "connect_notifies (Some plain_error) r = [Done plain_report]"
  by (simp add: connect_notifies_def plain_report_def plain_error_def newReconnectErr_def)

lemma conns_frame [simp]:
  "s_connected (leave ret v s) = s_connected s" "s_connected (attempt s) = s_connected s" "s_connected (resumed nxt s) = s_connected s"
  "s_connected (report opts api order msg s) = s_connected s" "s_connected (wound_up api order s) = s_connected s"
  "s_prepared (leave ret v s) = s_prepared s" "s_prepared (attempt s) = s_prepared s" "s_prepared (resumed nxt s) = s_prepared s"
  "s_prepared (report opts api order msg s) = s_prepared s" "s_prepared (wound_up api order s) = s_prepared s"
  "s_replacing (leave ret v s) = s_replacing s" "s_replacing (attempt s) = s_replacing s" "s_replacing (resumed nxt s) = s_replacing s"
  "s_replacing (report opts api order msg s) = s_replacing s" "s_replacing (wound_up api order s) = s_replacing s"
  by (simp_all add: leave_def attempt_def resumed_def now_active_def report_def wound_up_def Let_def split: after_send.splits verdict.splits)

lemma plain_retry: "on_done opts plain_report l = Retry (l\<lparr>rl_state := ConnectionStateReconnecting\<rparr>)"
  by (simp add: on_done_def plain_report_def plain_error_def newReconnectErr_def proto_error_def Let_def)

text \<open>C35: \<open>Connect\<close> can hang for ever. When the start context expires while the run loop waits to retry the first connection, \<open>Connect\<close> calls \<open>Close\<close>, which cancels the worker and waits
  for the run loop; the run loop wakes up and sends a result that nobody receives any more. From that state on \<open>Connect\<close> never returns,
  whatever happens next.\<close>

theorem connect_deadlock:
  assumes "Connect_start opts = Inr s0"
  shows "\<exists>s. (loop_step opts api order)\<^sup>*\<^sup>* s0 s \<and> (\<forall>t. (loop_step opts api order)\<^sup>*\<^sup>* s t \<longrightarrow> s_main t = InClose)"
proof -
  let ?R = "loop_step opts api order"
  define s1 where "s1 = attempt (s0\<lparr>s_main := Waiting\<rparr>)"
  define s2 where "s2 = report opts api order plain_report (s1\<lparr>s_connecting := remove1 (au_hashedSigningKey (rl_auth (s_loop s1))) (s_connecting s1)\<rparr>)"
  define s3 where "s3 = s2\<lparr>s_startDone := True\<rparr>"
  define s4 where "s4 = begin_close InClose s3"
  have s0: "s_main s0 = Initiating" "s_pc s0 = Select" "rl_attempts (s_loop s0) = 0" "rl_initial (s_loop s0)" "\<not> s_startDone s0" "\<not> s_eg s0"
    using assms by (auto simp: Connect_start_def split: if_splits)
  have s1: "s_main s1 = Waiting" "s_pc s1 = Select" "au_hashedSigningKey (rl_auth (s_loop s1)) \<in> set (s_connecting s1)" "rl_initial (s_loop s1)" "\<not> s_startDone s1" "\<not> s_eg s1"
    using s0 by (simp_all add: s1_def attempt_def Let_def)
  have s2: "s_main s2 = Waiting" "s_pc s2 = Delay" "rl_initial (s_loop s2)" "\<not> s_startDone s2" "\<not> s_eg s2"
    using s1 by (simp_all add: s2_def report_def plain_retry)
  have s4: "s_pc s4 = Delay" "s_workerDone s4" "rl_initial (s_loop s4)" "s_main s4 = InClose" "\<not> s_eg s4"
    using s2 by (simp_all add: s3_def s4_def)
  have "?R s0 s1" unfolding s1_def by (rule loop_step.initiate [OF s0(1,2)])
  moreover have "?R s1 s2" unfolding s2_def by (rule loop_step.fail [OF s1(2,3) plain_error plain_notifies])
  moreover have "?R s2 s3" unfolding s3_def by (rule loop_step.expire [OF s2(4)])
  moreover have "?R s3 s4" unfolding s4_def by (rule loop_step.give_up) (use s2 in \<open>simp_all add: s3_def\<close>)
  moreover have "?R s4 (leave None None s4)" by (rule loop_step.wake [OF s4(1,2)])
  ultimately have "?R\<^sup>*\<^sup>* s0 (leave None None s4)" by (meson converse_rtranclp_into_rtranclp rtranclp.rtrancl_refl)
  moreover have "deadlocked (leave None None s4)" using s4 by (simp add: deadlocked_def leave_def)
  ultimately show ?thesis using dead.reached_inv by (metis deadlocked_def)
qed

lemma sample_start: "\<exists>s0. Connect_start sample_opts = Inr s0"
  by (simp add: Connect_start_def sample_opts_def)

theorem connect_deadlock_witness:
  "\<exists>s0 s. Connect_start sample_opts = Inr s0 \<and> (loop_step sample_opts (\<lambda>_ _. True) (\<lambda>_ b. b))\<^sup>*\<^sup>* s0 s \<and> s_main s = InClose"
  using sample_start connect_deadlock [of sample_opts _ "\<lambda>_ _. True" "\<lambda>_ b. b"] by (metis rtranclp.rtrancl_refl)

theorem run_loop_invariant_witness:
  "\<exists>s0. Connect_start sample_opts = Inr s0 \<and> auth_ok sample_opts (rl_auth (s_loop s0))"
  using sample_start run_loop_invariant [of sample_opts _ "\<lambda>_ _. True" "\<lambda>_ b. b", OF _ rtranclp.rtrancl_refl] by blast

section \<open>From an error to a decision\<close>

lemma as_CloseError_CloseErr: "errors_As as_CloseError e = Some (reason, c) \<Longrightarrow> \<exists>m. c = CloseErr reason m"
proof (drule errors_As_in_chain, elim exE conjE)
  show "as_CloseError d = Some (reason, c) \<Longrightarrow> \<exists>m. c = CloseErr reason m" for d by (cases d) (auto simp: as_CloseError_def)
qed

definition stopped_for :: "string \<Rightarrow> run_state \<Rightarrow> verdict" where
  "stopped_for reason l = (let err = Some (Errorf (''connect failed with error code '' @ Quote reason) []) in Exit err err (l\<lparr>rl_state := ConnectionStateReconnecting\<rparr>))"

text \<open>C36: A lost connection stops the worker. When the read loop of a live connection ends with an error, other than a drain, the report asks the run loop to reconnect. But when the websocket broke without a
  close frame (\<open>io.EOF\<close> or \<open>net.ErrClosed\<close>), the code has wrapped the zero close error: the run loop finds it in the report, does not know its empty reason and ends with an error, and Connect
  gets the error if it still waits. A connection that was closed with a reason is retried exactly when the loop knows the reason; and one whose read failed with any other error is retried, as after a missed
  heartbeat (\<open>readerDone\<close>).\<close>

theorem connection_loss_stops_worker:
  assumes "\<not> Is_sentinel errGatewayDraining (Some e)"
  shows "\<exists>msg. connect_notifies None (Some (connection_end readerDone e)) = [Connected, Done msg] \<and> rp_reconnect msg \<and>
    (errors_As as_CloseError e = None \<and> (Is_sentinel io_EOF (Some e) \<or> Is_sentinel net_ErrClosed (Some e)) \<longrightarrow> on_done opts msg l = stopped_for [] l) \<and>
    (\<forall>reason c. errors_As as_CloseError e = Some (reason, c) \<longrightarrow>
       on_done opts msg l = (if reason \<in> set retriable_reasons then Retry (l\<lparr>rl_state := ConnectionStateReconnecting\<rparr>) else stopped_for reason l)) \<and>
    (errors_As as_CloseError e = None \<and> \<not> Is_sentinel io_EOF (Some e) \<and> \<not> Is_sentinel net_ErrClosed (Some e) \<longrightarrow>
       on_done opts msg l = Retry (l\<lparr>rl_state := ConnectionStateReconnecting\<rparr>))"
proof (cases "errors_As as_CloseError e")
  case None
  with assms show ?thesis
    by (auto simp: connection_end_def connect_notifies_def newReconnectErr_def on_done_def stopped_for_def zero_CloseError_def retriable_reasons_def Let_def)
next
  case (Some rc)
  obtain reason m where "rc = (reason, CloseErr reason m)" using as_CloseError_CloseErr [of e] Some by (cases rc) auto
  with assms Some show ?thesis
    by (simp add: connection_end_def connect_notifies_def newReconnectErr_def on_done_def stopped_for_def Let_def)
qed

theorem connection_loss_stops_worker_witness:
  "let l = \<lparr>rl_attempts = 0, rl_initial = False, rl_state = ConnectionStateActive, rl_auth = \<lparr>au_hashedSigningKey = ''key'', au_fallback = False\<rparr>\<rparr> in
   (\<exists>msg. connect_notifies None (Some (connection_end False (wrapf ''failed to get websocket reader: '' (Sentinel io_EOF)))) = [Connected, Done msg] \<and>
      rp_reconnect msg \<and> on_done sample_opts msg l = stopped_for [] l) \<and>
   (\<exists>msg. connect_notifies None (Some (connection_end True (Errorf ''context canceled'' []))) = [Connected, Done msg] \<and>
      on_done sample_opts msg l = Retry (l\<lparr>rl_state := ConnectionStateReconnecting\<rparr>))"
  unfolding Let_def
proof
  let ?l = "\<lparr>rl_attempts = 0, rl_initial = False, rl_state = ConnectionStateActive, rl_auth = \<lparr>au_hashedSigningKey = ''key'', au_fallback = False\<rparr>\<rparr>"
  show "\<exists>msg. connect_notifies None (Some (connection_end False (wrapf ''failed to get websocket reader: '' (Sentinel io_EOF)))) = [Connected, Done msg] \<and>
      rp_reconnect msg \<and> on_done sample_opts msg ?l = stopped_for [] ?l"
    using connection_loss_stops_worker [of "wrapf ''failed to get websocket reader: '' (Sentinel io_EOF)" False sample_opts ?l] by auto
  show "\<exists>msg. connect_notifies None (Some (connection_end True (Errorf ''context canceled'' []))) = [Connected, Done msg] \<and>
      on_done sample_opts msg ?l = Retry (?l\<lparr>rl_state := ConnectionStateReconnecting\<rparr>)"
    using connection_loss_stops_worker [of "Errorf ''context canceled'' []" True sample_opts ?l] by auto
qed

text \<open>What is to happen when the key in use is refused.\<close>

definition key_refused :: "Opts \<Rightarrow> run_state \<Rightarrow> verdict" where
  "key_refused opts l =
     (let l1 = l\<lparr>rl_state := ConnectionStateReconnecting\<rparr>; stop = (\<lambda>m. Exit (Some (Errorf m [])) (Some (Errorf m [])) l1)
      in if au_fallback (rl_auth l) then stop ''failed to authenticate with fallback key, exiting''
         else if co_HashedSigningKeyFallback opts = [] then stop ''fallback signing key is required''
         else Retry (l1\<lparr>rl_auth := \<lparr>au_hashedSigningKey = co_HashedSigningKeyFallback opts, au_fallback = True\<rparr>\<rparr>))"

text \<open>Every start request carries the key of the connection it is made for.\<close>

definition bears :: "http_request \<Rightarrow> string \<Rightarrow> bool" where
  "bears req key \<longleftrightarrow> header_Get (hq_Header req) ''Authorization'' = ''Bearer '' @ key"

lemma api_request_bears: "api_request a path key body = Some req \<Longrightarrow> bears req key"
proof -
  have keys: "CanonicalHeaderKey ''X-Inngest-Env'' \<noteq> CanonicalHeaderKey ''Authorization''" "CanonicalHeaderKey ''Content-Type'' \<noteq> CanonicalHeaderKey ''Authorization''"
    by code_simp+
  then show "api_request a path key body = Some req \<Longrightarrow> bears req key"
    by (auto simp: bears_def api_request_def header_Get_def header_Set_def header_Add_def Let_def split: option.splits)
qed

lemma api_request_env: "api_request a path key body = Some req \<Longrightarrow> map_of (hq_Header req) (CanonicalHeaderKey ''X-Inngest-Env'') = ac_env a"
proof -
  have keys: "CanonicalHeaderKey ''X-Inngest-Env'' \<noteq> CanonicalHeaderKey ''Authorization''" "CanonicalHeaderKey ''X-Inngest-Env'' \<noteq> CanonicalHeaderKey ''Content-Type''"
    by code_simp+
  then show "api_request a path key body = Some req \<Longrightarrow> map_of (hq_Header req) (CanonicalHeaderKey ''X-Inngest-Env'') = ac_env a"
    by (auto simp: api_request_def header_Set_def header_Add_def map_add_def Let_def split: option.splits)
qed

lemma start_request_bears:
  assumes "prepareConnection w Do a hst opts dial ctxErr cid t data ex sent = (r, sent')" "sent' \<noteq> sent"
  shows "\<exists>req. sent' = sent @ [req] \<and> bears req (ce_hashedSigningKey data)"
  using assms by (auto simp: prepareConnection_def start_def Let_def split: option.splits sum.splits prod.splits if_splits dest: api_request_bears)

lemma establish_data_key [simp]: "ce_hashedSigningKey (establish_data cores mem fns caps key) = key"
  by (simp add: establish_data_def)

text \<open>C30: A refused key is replaced once, and the replacement is used. When the API answers the start request of a connection with 401, a request that carries the key of this connection, then the error that reaches the run
  loop makes it switch to the fallback key and try again; it gives up when the fallback key was in use already, or when there is none. After the switch the loop waits, and unless five attempts were made
  its next attempt starts a connection with the fallback key: whatever start request that connection sends carries the fallback key.\<close>

theorem unauthorized_switches_key:
  assumes "s_pc s = Select" "key \<in> set (s_connecting s)"
    "wr_start_request w ex = Some body" "api_request a ''/v0/connect/start'' key body = Some req" "Do sent req = Inr res" "hr_StatusCode res = 401"
  shows "bears req key \<and>
    (\<exists>e msg s'. prepareConnection w Do a hst opts dial None cid t (establish_data cores mem fns caps key) ex sent = (Inl e, sent @ [req]) \<and> connect_notifies (Some e) r = [Done msg] \<and>
      on_done opts msg (s_loop s) = key_refused opts (s_loop s) \<and> loop_step opts api order s s' \<and> s' = report opts api order msg (s\<lparr>s_connecting := remove1 key (s_connecting s)\<rparr>) \<and>
      (\<not> au_fallback (rl_auth (s_loop s)) \<and> co_HashedSigningKeyFallback opts \<noteq> [] \<longrightarrow>
         rl_auth (s_loop s') = \<lparr>au_hashedSigningKey = co_HashedSigningKeyFallback opts, au_fallback = True\<rparr> \<and> s_pc s' = Delay \<and>
         (rl_attempts (s_loop s) \<noteq> 5 \<longrightarrow> loop_step opts api order s' (attempt s') \<and>
            s_connecting (attempt s') = remove1 key (s_connecting s) @ [co_HashedSigningKeyFallback opts] \<and>
            (\<forall>w Do a hst dial ctxErr cid t cores mem fns caps ex sent r sent'.
               prepareConnection w Do a hst opts dial ctxErr cid t (establish_data cores mem fns caps (last (s_connecting (attempt s')))) ex sent = (r, sent') \<and> sent' \<noteq> sent \<longrightarrow>
               (\<exists>req. sent' = sent @ [req] \<and> bears req (co_HashedSigningKeyFallback opts))))))"
proof
  show "bears req key" by (rule api_request_bears [OF assms(4)])
  let ?e = "newReconnectErr (wrapf ''could not start connection: '' (ReconnectErr (Sentinel ErrUnauthenticated)))"
  define msg where "msg = \<lparr>rp_reconnect = shouldReconnect ?e, rp_err = Some (wrapf ''could not establish connection: '' ?e)\<rparr>"
  define s' where "s' = report opts api order msg (s\<lparr>s_connecting := remove1 key (s_connecting s)\<rparr>)"
  have p: "prepareConnection w Do a hst opts dial None cid t (establish_data cores mem fns caps key) ex sent = (Inl ?e, sent @ [req])" for cores mem fns caps
    using assms(3-6) by (simp add: prepareConnection_def start_def)
  then have "prepare_error opts key ?e" unfolding prepare_error_def by blast
  moreover have notify: "connect_notifies (Some ?e) r = [Done msg]" by (simp add: connect_notifies_def msg_def)
  ultimately have step: "loop_step opts api order s s'" unfolding s'_def by (intro loop_step.fail [OF assms(1,2)])
  have refused: "on_done opts msg (s_loop s) = key_refused opts (s_loop s)"
    by (simp add: msg_def newReconnectErr_def on_done_def auth_failed_def key_refused_def Let_def)
  have "rl_auth (s_loop s') = \<lparr>au_hashedSigningKey = co_HashedSigningKeyFallback opts, au_fallback = True\<rparr> \<and> s_pc s' = Delay \<and>
      rl_attempts (s_loop s') = rl_attempts (s_loop s) \<and> s_connecting s' = remove1 key (s_connecting s)"
    if "\<not> au_fallback (rl_auth (s_loop s)) \<and> co_HashedSigningKeyFallback opts \<noteq> []"
    using that refused by (simp add: s'_def report_def key_refused_def Let_def)
  moreover from this have "s_connecting (attempt s') = remove1 key (s_connecting s) @ [co_HashedSigningKeyFallback opts]"
    if "\<not> au_fallback (rl_auth (s_loop s)) \<and> co_HashedSigningKeyFallback opts \<noteq> []" "rl_attempts (s_loop s) \<noteq> 5"
    using that by (simp add: attempt_def Let_def)
  ultimately show "\<exists>e msg s'. prepareConnection w Do a hst opts dial None cid t (establish_data cores mem fns caps key) ex sent = (Inl e, sent @ [req]) \<and> connect_notifies (Some e) r = [Done msg] \<and>
      on_done opts msg (s_loop s) = key_refused opts (s_loop s) \<and> loop_step opts api order s s' \<and> s' = report opts api order msg (s\<lparr>s_connecting := remove1 key (s_connecting s)\<rparr>) \<and>
      (\<not> au_fallback (rl_auth (s_loop s)) \<and> co_HashedSigningKeyFallback opts \<noteq> [] \<longrightarrow>
         rl_auth (s_loop s') = \<lparr>au_hashedSigningKey = co_HashedSigningKeyFallback opts, au_fallback = True\<rparr> \<and> s_pc s' = Delay \<and>
         (rl_attempts (s_loop s) \<noteq> 5 \<longrightarrow> loop_step opts api order s' (attempt s') \<and>
            s_connecting (attempt s') = remove1 key (s_connecting s) @ [co_HashedSigningKeyFallback opts] \<and>
            (\<forall>w Do a hst dial ctxErr cid t cores mem fns caps ex sent r sent'.
               prepareConnection w Do a hst opts dial ctxErr cid t (establish_data cores mem fns caps (last (s_connecting (attempt s')))) ex sent = (r, sent') \<and> sent' \<noteq> sent \<longrightarrow>
               (\<exists>req. sent' = sent @ [req] \<and> bears req (co_HashedSigningKeyFallback opts)))))"
    using p notify step refused s'_def start_request_bears loop_step.tick
    by (intro exI [of _ ?e] exI [of _ msg] exI [of _ s'] conjI impI allI) (simp_all, metis establish_data_key last_snoc)
qed

definition sample_wire :: wire where
  "sample_wire = \<lparr>wr_start_request = \<lambda>_. Some [], wr_start_response = \<lambda>_. None, wr_flush_response = \<lambda>_. True, wr_connect = \<lambda>_. None, wr_kind = \<lambda>_. []\<rparr>"

definition refused_state :: system where
  "refused_state = \<lparr>s_loop = \<lparr>rl_attempts = 1, rl_initial = True, rl_state = ConnectionStateConnecting, rl_auth = \<lparr>au_hashedSigningKey = ''key'', au_fallback = False\<rparr>\<rparr>,
     s_pc = Select, s_main = Waiting, s_startDone = False, s_workerDone = False, s_connecting = [''key''], s_replacing = 0, s_prepared = 0, s_connected = 0, s_eg = False,
     s_buffer = newMessageBuffer, s_tried = []\<rparr>"

theorem unauthorized_switches_key_witness:
  "\<exists>s'. loop_step (sample_opts\<lparr>co_HashedSigningKeyFallback := ''second''\<rparr>) (\<lambda>_ _. True) (\<lambda>_ b. b) refused_state s' \<and>
     s_connecting (attempt s') = [''second''] \<and> au_fallback (rl_auth (s_loop s'))"
proof -
  let ?a = "\<lparr>ac_env = None, ac_apiBaseUrl = ''https://api.inngest.com''\<rparr>" and ?opts = "sample_opts\<lparr>co_HashedSigningKeyFallback := ''second''\<rparr>"
    and ?Do = "\<lambda>_ _. Inr \<lparr>hr_StatusCode = 401, hr_Body = []\<rparr>"
  have "url_Parse ''https://api.inngest.com/v0/connect/start'' \<noteq> None" by code_simp
  then obtain req where req: "api_request ?a ''/v0/connect/start'' ''key'' [] = Some req" by (auto simp: api_request_def Let_def)
  have w: "wr_start_request sample_wire [] = Some []" by (simp add: sample_wire_def)
  have s: "s_pc refused_state = Select" "''key'' \<in> set (s_connecting refused_state)" by (simp_all add: refused_state_def)
  have "\<not> au_fallback (rl_auth (s_loop refused_state)) \<and> co_HashedSigningKeyFallback ?opts \<noteq> []" "rl_attempts (s_loop refused_state) \<noteq> 5"
    "remove1 ''key'' (s_connecting refused_state) = []" by (simp_all add: refused_state_def)
  note facts = this and u = unauthorized_switches_key [OF s w req, of ?Do "[]" "\<lparr>hr_StatusCode = 401, hr_Body = []\<rparr>" "\<lparr>hs_hostname = [], hs_GOOS = []\<rparr>" ?opts "\<lambda>_. Inl proto_error"
      "[]" "time_Unix 0 0" 1 1 "[]" "[]" None "\<lambda>_ _. True" "\<lambda>_ b. b", OF refl, unfolded facts(3) http_response.select_convs, OF refl, THEN conjunct2]
  from u facts(1,2) show ?thesis by (elim exE conjE) (intro exI conjI, assumption, simp_all)
qed

text \<open>The waits between five attempts are longer than the 30 seconds that \<open>Connect\<close> allows for the start, so without a service the start context expires during one of them; and
  every wait is between one second and five minutes.\<close>

lemma backoff_outlasts_start: "30 * Second < sum_list (map expBackoff [1, 2, 3, 4])"
  by (simp add: expBackoff_def backoffTimes_def Second_def)

lemma expBackoff_bounds: "Second \<le> expBackoff n \<and> expBackoff n \<le> 5 * Minute"
proof -
  have ne: "backoffTimes \<noteq> []" by (simp add: backoffTimes_def)
  have "expBackoff n \<in> set backoffTimes" using last_in_set [OF ne] nth_mem [of n backoffTimes] by (auto simp: expBackoff_def)
  then show ?thesis by (auto simp: backoffTimes_def Second_def Minute_def)
qed

section \<open>Starting a worker\<close>

lemma Connect_succeeds:
  "co_HashedSigningKey opts \<noteq> [] \<Longrightarrow> \<exists>ch. Connect_handler opts = Inr ch \<and> Connect_start opts = Inr (ch_system ch) \<and>
     ch_workerPool ch = NewWorkerPool (nat (co_MaxConcurrency opts)) \<and> ch_apiClient ch = newWorkerApiClient (co_APIBaseUrl opts) (co_Env opts)"
  by (simp add: Connect_handler_def Connect_start_def)

lemma pool_drains:
  assumes "pool_step\<^sup>*\<^sup>* (NewWorkerPool c) p" "c > 0" "\<not> wp_cancelled p"
  shows "\<exists>p'. pool_work\<^sup>*\<^sup>* p p' \<and> Wait_returns p'"
  using live.reaches_final [of c p] pool.reached_inv [OF refl assms(1)] assms(2,3) by (simp add: live_inv_def)

end
