(* ===== verification/Reconnect.thy ===== *)
theory Reconnect
  imports RunLoop
begin

text \<open>
  What becomes of a connect worker that has no connection: a start that finds no service comes to an end, and a worker whose connection is
  lost after the start never gets another one. Both are runs of the step relation of \<open>RunLoop\<close> in which no connection is prepared; a measure bounds their length.
\<close>

section \<open>Every start comes to an end\<close>

text \<open>Runs in which no connection is ever established.\<close>

definition offline_step :: "Opts \<Rightarrow> (SDKResponse list \<Rightarrow> SDKResponse \<Rightarrow> bool) \<Rightarrow> (nat \<Rightarrow> msgmap \<Rightarrow> msgmap) \<Rightarrow> system \<Rightarrow> system \<Rightarrow> bool" where
  "offline_step opts api order s t \<longleftrightarrow> loop_step opts api order s t \<and> s_prepared t = 0 \<and> s_connected t = 0"

definition down_inv :: "Opts \<Rightarrow> system \<Rightarrow> bool" where
  "down_inv opts s \<longleftrightarrow> loop_inv opts s \<and> s_replacing s = 0 \<and> s_prepared s = 0 \<and> s_connected s = 0"

text \<open>Before the first connection.\<close>

definition offline_inv :: "Opts \<Rightarrow> system \<Rightarrow> bool" where
  "offline_inv opts s \<longleftrightarrow> down_inv opts s \<and> s_main s \<notin> {Done_Connect None, UserClose, Closed} \<and>
     (\<forall>v next. s_pc s = Handoff v next \<longrightarrow> next \<noteq> Resume \<and> (s_main s = Waiting \<longrightarrow> v \<noteq> None))"

definition main_weight :: "main_pc \<Rightarrow> nat" where
  "main_weight m = (case m of Initiating \<Rightarrow> 3 | Waiting \<Rightarrow> 2 | InClose \<Rightarrow> 1 | Done_Connect v \<Rightarrow> if v = None then 2 else 0 | UserClose \<Rightarrow> 1 | Closed \<Rightarrow> 0)"

definition pc_weight :: "loop_pc \<Rightarrow> nat" where
  "pc_weight c = (case c of Select \<Rightarrow> 3 | Delay \<Rightarrow> 2 | Handoff _ next \<Rightarrow> if next = Resume then 14 else 1 | Ended _ \<Rightarrow> 0)"

definition loop_weight :: "system \<Rightarrow> nat" where
  "loop_weight s = 2 * (5 - rl_attempts (s_loop s)) + pc_weight (s_pc s) + main_weight (s_main s) +
     (if s_startDone s then 0 else 1) + (if s_eg s then 0 else 1)"

definition all_over :: "system \<Rightarrow> bool" where
  "all_over s \<longleftrightarrow> (\<exists>e. s_main s = Done_Connect (Some e)) \<or> s_main s = Closed \<or> deadlocked s"

lemma on_done_reconnect: "rp_reconnect msg \<Longrightarrow> on_done opts msg l = Exit ret v l' \<Longrightarrow> v \<noteq> None"
  by (auto simp: on_done_def Let_def split: option.split_asm sum.split_asm if_split_asm prod.split_asm)

lemma fail_reconnects: "prepare_error opts key e \<Longrightarrow> connect_notifies (Some e) r = [Done msg] \<Longrightarrow> rp_reconnect msg"
  by (auto simp: connect_notifies_def prepare_error_reconnects)

lemma report_cases:
  obtains (exit) ret v l where "on_done opts msg (s_loop s) = Exit ret v l" "report opts api order msg s = leave ret v (s\<lparr>s_loop := l\<rparr>)"
      "rl_attempts l = rl_attempts (s_loop s)" "rl_initial l = rl_initial (s_loop s)"
  | (retry) l where "report opts api order msg s = flushed api order (s\<lparr>s_loop := l, s_pc := Delay\<rparr>)"
      "rl_attempts l = rl_attempts (s_loop s)"
  using on_done_frame(1,2) [where opts = opts and msg = msg and l = "s_loop s"]
  by (cases "on_done opts msg (s_loop s)") (auto simp: report_def loop_of_def)

lemma down_inv_step: "down_inv opts s \<Longrightarrow> offline_step opts api order s t \<Longrightarrow> down_inv opts t"
proof -
  assume inv: "down_inv opts s" and off: "offline_step opts api order s t"
  then have st: "loop_step opts api order s t" "s_connected t = 0" "s_prepared t = 0" "loop_inv opts t"
    using loop_inv_step by (auto simp: offline_step_def down_inv_def)
  from st(1) inv have "s_replacing t = 0"
    by (cases rule: loop_step.cases) (auto simp: down_inv_def connected_def now_active_def Let_def)
  with st show "down_inv opts t" by (simp add: down_inv_def)
qed

lemma down_weight:
  assumes "down_inv opts s" "offline_step opts api order s t"
  shows "loop_weight t < loop_weight s"
proof -
  have st: "loop_step opts api order s t" "s_connected t = 0" "s_prepared t = 0" using assms(2) by (auto simp: offline_step_def)
  then show ?thesis using assms(1)
  proof (induction rule: loop_step.induct)
    case (fail s key e r msg)
    then show ?case
      by (cases rule: report_cases [of opts msg "s\<lparr>s_connecting := remove1 key (s_connecting s)\<rparr>" api order])
        (auto simp: loop_weight_def pc_weight_def leave_def)
  next
    case (tick s)
    then show ?case by (auto simp: loop_weight_def pc_weight_def attempt_def leave_def Let_def down_inv_def loop_inv_def)
  next
    case (initiate s)
    then show ?case by (auto simp: loop_weight_def pc_weight_def main_weight_def attempt_def leave_def Let_def down_inv_def loop_inv_def)
  next
    case (handoff s v nxt)
    then show ?case by (auto simp: loop_weight_def pc_weight_def main_weight_def resumed_def now_active_def split: after_send.splits)
  qed (auto simp: loop_weight_def pc_weight_def main_weight_def leave_def wound_up_def down_inv_def)
qed

lemma down_stuck:
  assumes "down_inv opts s" "\<And>t. \<not> offline_step opts api order s t"
  shows "all_over s"
proof -
  have inv: "agree s" "s_connected s = 0" "s_prepared s = 0" "s_replacing s = 0" using assms(1) by (auto simp: down_inv_def loop_inv_def)
  have no: False if "loop_step opts api order s t" "s_connected t = s_connected s" "s_prepared t = s_prepared s" for t
    using that assms(2) [of t] inv by (simp add: offline_step_def)
  have user: "s_main s \<noteq> Done_Connect None" using no [OF loop_step.close] by auto
  show ?thesis
  proof (cases "s_pc s")
    case Select
    have "s_main s = Initiating \<or> hd (s_connecting s) \<in> set (s_connecting s)" using inv Select by (auto simp: agree_def)
    then show ?thesis
    proof
      assume "s_main s = Initiating"
      from no [OF loop_step.initiate [OF this Select]] show ?thesis by simp
    next
      assume "hd (s_connecting s) \<in> set (s_connecting s)"
      from no [OF loop_step.fail [OF Select this plain_error plain_notifies]] show ?thesis by simp
    qed
  next
    case Delay
    from no [OF loop_step.tick [OF this]] show ?thesis by simp
  next
    case (Handoff v nxt)
    then have "s_main s = Waiting \<or> deadlocked s" using inv(1) by (auto simp: agree_def deadlocked_def)
    with no [OF loop_step.handoff [OF Handoff]] show ?thesis by (auto simp: all_over_def)
  next
    case (Ended ret)
    then have eg: "s_eg s" using no [OF loop_step.wind_up [OF Ended]] by auto
    have "s_main s \<noteq> InClose" "s_main s \<noteq> UserClose" using no [OF loop_step.gave_up [OF _ eg]] no [OF loop_step.closed [OF _ eg]] by auto
    with Ended inv user show ?thesis by (cases "s_main s") (auto simp: agree_def all_over_def)
  qed
qed

interpretation down: terminating_system "down_inv opts" "offline_step opts api order" "down_inv opts" loop_weight all_over for opts api order
  by unfold_locales (use down_inv_step down_weight down_stuck in blast)+

lemma offline_inv_step:
  assumes "offline_inv opts s" "offline_step opts api order s t"
  shows "offline_inv opts t"
proof -
  have st: "loop_step opts api order s t" "s_connected t = 0" "s_prepared t = 0" "down_inv opts t"
    using assms down_inv_step by (auto simp: offline_step_def offline_inv_def)
  have "s_main t \<notin> {Done_Connect None, UserClose, Closed} \<and>
     (\<forall>v next. s_pc t = Handoff v next \<longrightarrow> next \<noteq> Resume \<and> (s_main t = Waiting \<longrightarrow> v \<noteq> None))"
    using st(1-3) assms(1)
  proof (induction rule: loop_step.induct)
    case (fail s key e r msg)
    show ?case
    proof (cases rule: report_cases [of opts msg "s\<lparr>s_connecting := remove1 key (s_connecting s)\<rparr>" api order])
      case (exit ret v l)
      with on_done_reconnect [OF fail_reconnects [OF fail(3,4)]] fail show ?thesis by (auto simp: leave_def offline_inv_def)
    next
      case (retry l)
      with fail show ?thesis by (auto simp: offline_inv_def)
    qed
  next
    case (wake s)
    then show ?case by (auto simp: leave_def offline_inv_def down_inv_def loop_inv_def agree_def)
  qed (auto simp: offline_inv_def down_inv_def attempt_def leave_def resumed_def five_attempts_def wound_up_def Let_def split: after_send.splits)
  with st show ?thesis by (simp add: offline_inv_def)
qed

lemma offline_start: "Connect_start opts = Inr s \<Longrightarrow> offline_inv opts s \<and> loop_weight s = 18"
  by (auto simp: offline_inv_def down_inv_def loop_inv_start loop_weight_def pc_weight_def main_weight_def)
    (auto simp: Connect_start_def split: if_splits)

interpretation offline: inductive_invariant "\<lambda>s. Connect_start opts = Inr s" "offline_step opts api order" "offline_inv opts" for opts api order
  by unfold_locales (use offline_start offline_inv_step in blast)+

text \<open>C28: Starting a worker comes to an end even if no connection can be made: from the start, no run without a connection has more than 18 steps of the caller and the run loop, and a run
  that cannot go on has made \<open>Connect\<close> return an error, or is in the deadlock above, the only other possibility.\<close>

theorem offline_start_ends:
  assumes "Connect_start opts = Inr s0"
  shows "(\<forall>n t. (offline_step opts api order ^^ n) s0 t \<longrightarrow> n \<le> 18) \<and>
    (\<forall>t. (offline_step opts api order)\<^sup>*\<^sup>* s0 t \<and> (\<nexists>u. offline_step opts api order t u) \<longrightarrow>
       (\<exists>e. s_main t = Done_Connect (Some e)) \<or> deadlocked t)"
proof (intro conjI allI impI)
  have inv: "offline_inv opts s0" "down_inv opts s0" "loop_weight s0 = 18" using offline_start [OF assms] by (auto simp: offline_inv_def)
  show "n \<le> 18" if "(offline_step opts api order ^^ n) s0 t" for n t
    using down.run_length [OF that inv(2)] inv(3) by simp
  show "(\<exists>e. s_main t = Done_Connect (Some e)) \<or> deadlocked t"
    if "(offline_step opts api order)\<^sup>*\<^sup>* s0 t \<and> (\<nexists>u. offline_step opts api order t u)" for t
    using that offline.run_inv [OF _ inv(1), where t = t and api = api and order = order] down_stuck [where s = t and opts = opts and api = api and order = order] by (auto simp: offline_inv_def all_over_def)
qed

theorem offline_start_ends_witness:
  "\<exists>s0. Connect_start sample_opts = Inr s0 \<and> (\<forall>n t. (offline_step sample_opts (\<lambda>_ _. True) (\<lambda>_ b. b) ^^ n) s0 t \<longrightarrow> n \<le> 18)"
  using sample_start offline_start_ends [of sample_opts _ "\<lambda>_ _. True" "\<lambda>_ b. b"] by blast

section \<open>Reconnecting\<close>

text \<open>The start context is over, and every connection is lost that was not begun under it.\<close>

definition stranded :: "Opts \<Rightarrow> system \<Rightarrow> bool" where
  "stranded opts s \<longleftrightarrow> down_inv opts s \<and> s_startDone s"

lemma over_context_prepares: "\<not> prepares opts key True"
  using over_context_never_connects by (fastforce simp: prepares_def)

lemma stranded_offline: "stranded opts s \<Longrightarrow> loop_step opts api order s t \<Longrightarrow> offline_step opts api order s t \<and> s_startDone t"
proof -
  assume inv: "stranded opts s" and st: "loop_step opts api order s t"
  from st inv have "s_connected t = 0 \<and> s_prepared t = 0 \<and> s_startDone t"
    by (cases rule: loop_step.cases)
      (auto simp: stranded_def down_inv_def over_context_prepares attempt_def leave_def resumed_def now_active_def report_def wound_up_def Let_def
        split: after_send.splits verdict.splits)
  with st show ?thesis by (simp add: offline_step_def)
qed

lemma stranded_step: "stranded opts s \<Longrightarrow> loop_step opts api order s t \<Longrightarrow> stranded opts t"
  using stranded_offline down_inv_step by (meson stranded_def)

interpretation stranded: terminating_system "stranded opts" "loop_step opts api order" "stranded opts" loop_weight all_over for opts api order
proof unfold_locales
  show "stranded opts s \<Longrightarrow> stranded opts s" for s .
  show "stranded opts s \<Longrightarrow> loop_step opts api order s t \<Longrightarrow> stranded opts t" for s t by (rule stranded_step)
  show "stranded opts s \<Longrightarrow> loop_step opts api order s t \<Longrightarrow> loop_weight t < loop_weight s" for s t
    using stranded_offline down_weight by (meson stranded_def)
  show "stranded opts s \<Longrightarrow> (\<And>t. \<not> loop_step opts api order s t) \<Longrightarrow> all_over s" for s
    using down_stuck by (meson offline_step_def stranded_def)
qed

text \<open>A loop that is not over, or was stopped by \<open>Close\<close>, or ended with an error.\<close>

definition no_clean_end :: "system \<Rightarrow> bool" where
  "no_clean_end s \<longleftrightarrow> (s_main s = Done_Connect None \<and> \<not> s_workerDone s \<and> s_pc s \<noteq> Ended None) \<or> s_main s \<in> {UserClose, Closed}"

lemma no_clean_end_step:
  assumes "stranded opts s" "no_clean_end s" "loop_step opts api order s t"
  shows "no_clean_end t"
proof (cases "s_main s = Done_Connect None")
  case True
  then have first: "s_pc s \<in> {Select, Delay} \<longrightarrow> \<not> rl_initial (s_loop s)" using assms(1) by (auto simp: stranded_def down_inv_def loop_inv_def agree_def)
  have live: "\<not> s_workerDone s" "s_pc s \<noteq> Ended None" using True assms(2) by (auto simp: no_clean_end_def)
  from assms(3,1) True first live show ?thesis
  proof (induction rule: loop_step.induct)
    case (fail s key e r msg)
    then have "ret \<noteq> None" if "on_done opts msg (s_loop s) = Exit ret v l" for ret v l
      using that fail_reconnects [OF fail(3,4)] by (auto simp: on_done_def Let_def split: option.split_asm sum.split_asm if_split_asm prod.split_asm)
    with fail show ?case
      by (cases rule: report_cases [of opts msg "s\<lparr>s_connecting := remove1 key (s_connecting s)\<rparr>" api order])
        (auto simp: no_clean_end_def leave_def)
  qed (auto simp: no_clean_end_def stranded_def down_inv_def attempt_def leave_def wound_up_def Let_def)
next
  case False
  with assms(2) have "s_main s \<in> {UserClose, Closed}" by (auto simp: no_clean_end_def)
  with assms(3,1) show ?thesis
    by (induction rule: loop_step.induct)
      (auto simp: no_clean_end_def stranded_def down_inv_def attempt_def leave_def wound_up_def report_def Let_def split: verdict.splits)
qed

interpretation lost: inductive_invariant "\<lambda>s. stranded opts s \<and> no_clean_end s" "loop_step opts api order" "\<lambda>s. stranded opts s \<and> no_clean_end s" for opts api order
  by unfold_locales (auto intro: stranded_step no_clean_end_step)

text \<open>C34: A worker does not reconnect. The run loop starts every connection under the context of the start, which is over once \<open>Connect\<close> has returned, so no attempt
  reaches the API. When the connection of a started worker is lost, for a reason the loop retries on and without a replacement, then no connection is ever made again, whatever the service
  does: at most 15 more steps are possible, the run loop ends with an error unless \<open>Close\<close> comes first, and all that is left is \<open>Close\<close>.\<close>

theorem lost_connection_is_final:
  assumes "Connect_start opts = Inr s0" "(loop_step opts api order)\<^sup>*\<^sup>* s0 s" "s_main s = Done_Connect None" "s_startDone s" "s_pc s = Delay"
    "s_replacing s = 0" "s_prepared s = 0" "s_connected s = 0"
  shows "(\<forall>t. (loop_step opts api order)\<^sup>*\<^sup>* s t \<longrightarrow> s_prepared t = 0 \<and> s_connected t = 0 \<and>
       (s_main t = Done_Connect None \<and> s_eg t \<longrightarrow> (\<exists>e. s_pc t = Ended (Some e)))) \<and>
    (\<forall>n t. (loop_step opts api order ^^ n) s t \<longrightarrow> n \<le> 15) \<and>
    (\<forall>t. (loop_step opts api order)\<^sup>*\<^sup>* s t \<and> (\<nexists>u. loop_step opts api order t u) \<longrightarrow> s_main t = Closed)"
proof -
  have inv: "loop_inv opts s" by (rule run.reached_inv [OF assms(1,2)])
  then have str: "stranded opts s" using assms by (simp add: stranded_def down_inv_def)
  moreover have "no_clean_end s" using inv assms(3,5) by (simp add: no_clean_end_def loop_inv_def agree_def)
  ultimately have all: "stranded opts t \<and> no_clean_end t" if "(loop_step opts api order)\<^sup>*\<^sup>* s t" for t using lost.run_inv [OF that] by simp
  have "loop_weight s \<le> 15" using assms(3-5) by (auto simp: loop_weight_def pc_weight_def main_weight_def)
  then have bound: "n \<le> 15" if "(loop_step opts api order ^^ n) s t" for n t using stranded.run_length [OF that str] by simp
  have ended: "\<exists>e. s_pc t = Ended (Some e)" if "stranded opts t" "no_clean_end t" "s_main t = Done_Connect None" "s_eg t" for t
    using that by (auto simp: stranded_def down_inv_def loop_inv_def agree_def no_clean_end_def split: loop_pc.splits)
  have closed: "s_main t = Closed" if "stranded opts t" "no_clean_end t" "\<nexists>u. loop_step opts api order t u" for t
    using that stranded.stuck_final [of opts t api order] by (auto simp: all_over_def no_clean_end_def deadlocked_def)
  show ?thesis using all bound ended closed by (auto simp: stranded_def down_inv_def)
qed

text \<open>Such a state is reached whenever a connection can be made at all.\<close>

lemma connection_can_be_lost:
  assumes "Connect_start opts = Inr s0" "prepares opts (co_HashedSigningKey opts) False"
  shows "\<exists>s. (loop_step opts api order)\<^sup>*\<^sup>* s0 s \<and> s_main s = Done_Connect None \<and> s_startDone s \<and> s_pc s = Delay \<and>
    s_replacing s = 0 \<and> s_prepared s = 0 \<and> s_connected s = 0"
proof -
  let ?R = "loop_step opts api order" and ?err = "wrapf [] (CloseErr ''connect_gateway_closing'' [])"
  obtain msg where notify: "connect_notifies None (Some (connection_end False ?err)) = [Connected, Done msg]"
    and retry: "\<And>l. on_done opts msg l = Retry (l\<lparr>rl_state := ConnectionStateReconnecting\<rparr>)"
    by (simp add: connection_end_def connect_notifies_def newReconnectErr_def on_done_def retriable_reasons_def Let_def)
  have "handleConnection pb api order [([], Inl ?err)] False False [] newMessageBuffer [] =
      Some \<lparr>cr_err = Some (connection_end False ?err), cr_added = [], cr_buffer = newMessageBuffer, cr_tried = [], cr_written = []\<rparr>" for pb
    by (simp add: handleConnection_def flush_if_any_def hasMessages_def newMessageBuffer_def)
  then have handled: "handled (Some (connection_end False ?err))" unfolding handled_def by (meson connection_result.select_convs(1))
  define s1 where "s1 = attempt (s0\<lparr>s_main := Waiting\<rparr>)"
  define s2 where "s2 = s1\<lparr>s_connecting := remove1 (co_HashedSigningKey opts) (s_connecting s1), s_prepared := s_prepared s1 + 1\<rparr>"
  define s3 where "s3 = connected s2"
  define s4 where "s4 = resumed Resume (s3\<lparr>s_main := Done_Connect None\<rparr>)"
  define s5 where "s5 = s4\<lparr>s_startDone := True\<rparr>"
  define s6 where "s6 = report opts api order msg (s5\<lparr>s_connected := s_connected s5 - 1\<rparr>)"
  have s0: "s0 = \<lparr>s_loop = \<lparr>rl_attempts = 0, rl_initial = True, rl_state = ConnectionStateConnecting,
      rl_auth = \<lparr>au_hashedSigningKey = co_HashedSigningKey opts, au_fallback = False\<rparr>\<rparr>, s_pc = Select, s_main = Initiating, s_startDone = False,
      s_workerDone = False, s_connecting = [], s_replacing = 0, s_prepared = 0, s_connected = 0, s_eg = False, s_buffer = newMessageBuffer, s_tried = []\<rparr>"
    using assms(1) by (simp add: Connect_start_def split: if_splits)
  note defs = s1_def s2_def s3_def s4_def s5_def s6_def attempt_def connected_def resumed_def now_active_def report_def retry Let_def
  have "?R s0 s1" unfolding s1_def by (rule loop_step.initiate) (simp_all add: s0)
  moreover have "?R s1 s2" unfolding s2_def by (rule loop_step.prepare) (use assms(2) in \<open>simp_all add: s1_def s0 attempt_def Let_def\<close>)
  moreover have "?R s2 s3" unfolding s3_def by (rule loop_step.connect) (simp_all add: s2_def s1_def s0 attempt_def Let_def)
  moreover have "?R s3 s4" using loop_step.handoff [of s3 None Resume opts api order] by (simp add: defs s0)
  moreover have "?R s4 s5" unfolding s5_def by (rule loop_step.expire) (simp add: defs s0)
  moreover have "?R s5 s6" unfolding s6_def by (rule loop_step.over [OF _ _ handled notify]) (simp_all add: defs s0)
  ultimately have "?R\<^sup>*\<^sup>* s0 s6" by (meson converse_rtranclp_into_rtranclp rtranclp.rtrancl_refl)
  moreover have "s_main s6 = Done_Connect None \<and> s_startDone s6 \<and> s_pc s6 = Delay \<and> s_replacing s6 = 0 \<and> s_prepared s6 = 0 \<and> s_connected s6 = 0"
    by (simp add: defs s0)
  ultimately show ?thesis by blast
qed

definition gateway_wire :: wire where
  "gateway_wire = \<lparr>wr_start_request = \<lambda>_. Some [], wr_start_response = \<lambda>_. Some \<lparr>st_GatewayEndpoint = ''ws://gateway'', st_GatewayGroup = ''group'',
     st_SessionToken = [], st_SyncToken = []\<rparr>, wr_flush_response = \<lambda>_. True, wr_connect = \<lambda>_. Some [], wr_kind = \<lambda>_. []\<rparr>"

lemma sample_prepares: "prepares sample_opts (co_HashedSigningKey sample_opts) False"
proof -
  let ?io = "\<lparr>hk_hello = Inr \<lparr>cm_Kind = GATEWAY_HELLO, cm_Payload = []\<rparr>, hk_write = \<lambda>_. None, hk_ready = Inr \<lparr>cm_Kind = GATEWAY_CONNECTION_READY, cm_Payload = []\<rparr>\<rparr>"
    and ?a = "\<lparr>ac_env = None, ac_apiBaseUrl = ''https://api.inngest.com''\<rparr>"
  have "url_Parse ''https://api.inngest.com/v0/connect/start'' \<noteq> None" "url_Parse ''ws://gateway'' \<noteq> None" by code_simp+
  then obtain r sent' where p: "prepareConnection gateway_wire (\<lambda>_ _. Inr \<lparr>hr_StatusCode = 200, hr_Body = []\<rparr>) ?a undefined sample_opts (\<lambda>_. Inr ?io) None [] undefined (establish_data 1 1 [] [] (co_HashedSigningKey sample_opts)) [] [] = (Inr r, sent')"
    by (auto simp: prepareConnection_def start_def api_request_def performConnectHandshake_def gateway_wire_def sample_opts_def Let_def)
  show ?thesis unfolding prepares_def by (intro exI conjI, rule p) simp
qed

theorem lost_connection_is_final_witness:
  "\<exists>s0 s. Connect_start sample_opts = Inr s0 \<and> (loop_step sample_opts (\<lambda>_ _. True) (\<lambda>_ b. b))\<^sup>*\<^sup>* s0 s \<and> s_main s = Done_Connect None \<and> s_pc s = Delay \<and>
     (\<forall>t. (loop_step sample_opts (\<lambda>_ _. True) (\<lambda>_ b. b))\<^sup>*\<^sup>* s t \<longrightarrow> s_connected t = 0)"
proof -
  obtain s0 where s0: "Connect_start sample_opts = Inr s0" using sample_start ..
  from connection_can_be_lost [OF s0 sample_prepares, of "\<lambda>_ _. True" "\<lambda>_ b. b"] obtain s where
    s: "(loop_step sample_opts (\<lambda>_ _. True) (\<lambda>_ b. b))\<^sup>*\<^sup>* s0 s" "s_main s = Done_Connect None" "s_startDone s" "s_pc s = Delay"
      "s_replacing s = 0" "s_prepared s = 0" "s_connected s = 0" by blast
  from lost_connection_is_final [OF s0 s] s0 s show ?thesis by blast
qed

end
