(* ===== verification/Delivery.thy ===== *)
theory Delivery
  imports Connection Pool
begin

text \<open>
  Requests from the pool to the service: the goroutines of the worker pool (\<open>Pool\<close>) that run \<open>handleInvokeMessage\<close> (\<open>Worker\<close>), the message buffer they share (\<open>Buffer\<close>)
  with its timeout goroutines, the acknowledgements of the read loop and the flushes (\<open>Connection\<close>), as one system whose steps
  interleave. A goroutine handles its request in four steps: it computes an answer and, if it is a response, adds it as pending; it
  writes the reply to the websocket; if that failed it appends the response to the buffer; and it is done.

  What the function of a request does to the world, and what the websocket, the API and the gateway do, is arbitrary in every step. A panic takes the process down.
\<close>

section \<open>The system\<close>

datatype phase = Fresh | Replying SDKResponse | Retaining SDKResponse | Over

record delivery =
  dl_pool :: "ConnectMessage workerPool"
  dl_phase :: "nat \<Rightarrow> phase"
  dl_buffer :: messageBuffer
  dl_answers :: "(ConnectMessage \<times> (goerr + SDKResponse)) list"
  dl_written :: "SDKResponse list"
  dl_accepted :: "SDKResponse set"
  dl_crashed :: bool

definition new_delivery :: "nat \<Rightarrow> delivery" where
  "new_delivery c = \<lparr>dl_pool = NewWorkerPool c, dl_phase = (\<lambda>_. Fresh), dl_buffer = newMessageBuffer, dl_answers = [], dl_written = [],
     dl_accepted = {}, dl_crashed = False\<rparr>"

text \<open>The first part of \<open>handleInvokeMessage\<close>: an error, or the response to reply with; \<open>None\<close> is a panic.\<close>

definition invoke_answer ::
  "'v sys \<Rightarrow> proto \<Rightarrow> Opts \<Rightarrow> ('w, 'v) handler \<Rightarrow> websocket \<Rightarrow> ConnectMessage \<Rightarrow> ConnectMessage list \<Rightarrow> 'w \<Rightarrow> (goerr + SDKResponse) option" where
  "invoke_answer sys pb opts h ws msg written world =
     (case fst (connectInvoke sys pb opts h ws msg written world) of
        Panicked p \<Rightarrow> None
      | Hijacked \<Rightarrow> None
      | Returned (Inl e) \<Rightarrow> Some (Inl (wrapf ''could not handle sdk request: '' e))
      | Returned (Inr resp) \<Rightarrow>
          (case pb_response pb resp of
             None \<Rightarrow> Some (Inl (wrapf ''could not serialize sdk response: '' proto_error))
           | Some data \<Rightarrow> Some (Inr resp)))"

definition answered :: "nat \<Rightarrow> ConnectMessage \<Rightarrow> goerr + SDKResponse \<Rightarrow> delivery \<Rightarrow> delivery" where
  "answered i msg a s = (let s1 = s\<lparr>dl_answers := dl_answers s @ [(msg, a)]\<rparr> in
     case a of
       Inl e \<Rightarrow> s1\<lparr>dl_phase := (dl_phase s)(i := Over)\<rparr>
     | Inr resp \<Rightarrow> s1\<lparr>dl_phase := (dl_phase s)(i := Replying resp), dl_buffer := addPending resp (dl_buffer s)\<rparr>)"

text \<open>The reply was written, or its write failed; then the response goes to the buffer.\<close>

definition reply_written :: "nat \<Rightarrow> SDKResponse \<Rightarrow> delivery \<Rightarrow> delivery" where
  "reply_written i resp s = s\<lparr>dl_phase := (dl_phase s)(i := Over), dl_written := dl_written s @ [resp]\<rparr>"

definition reply_failed :: "nat \<Rightarrow> SDKResponse \<Rightarrow> delivery \<Rightarrow> delivery" where
  "reply_failed i resp s = s\<lparr>dl_phase := (dl_phase s)(i := Retaining resp)\<rparr>"

definition retained :: "nat \<Rightarrow> SDKResponse \<Rightarrow> delivery \<Rightarrow> delivery" where
  "retained i resp s = s\<lparr>dl_phase := (dl_phase s)(i := Over), dl_buffer := append_msg resp (dl_buffer s)\<rparr>"

definition busy :: "nat \<Rightarrow> ConnectMessage \<Rightarrow> phase \<Rightarrow> delivery \<Rightarrow> bool" where
  "busy i msg ph s \<longleftrightarrow> \<not> dl_crashed s \<and> i < length (wp_workers (dl_pool s)) \<and> wp_workers (dl_pool s) ! i = Busy msg \<and> dl_phase s i = ph"

text \<open>The steps of the pool and its goroutines.\<close>

inductive deliver_work :: "'v sys \<Rightarrow> proto \<Rightarrow> Opts \<Rightarrow> ('w, 'v) handler \<Rightarrow> delivery \<Rightarrow> delivery \<Rightarrow> bool"
  for sys :: "'v sys" and pb :: proto and opts :: Opts and h :: "('w, 'v) handler"
where
  send: "\<not> dl_crashed s \<Longrightarrow> k < length (wp_sending (dl_pool s)) \<Longrightarrow> length (wp_msgs (dl_pool s)) < wp_concurrency (dl_pool s) \<Longrightarrow>
    deliver_work sys pb opts h s (s\<lparr>dl_pool := add_send k (dl_pool s)\<rparr>)"
| take: "\<not> dl_crashed s \<Longrightarrow> i < length (wp_workers (dl_pool s)) \<Longrightarrow> wp_workers (dl_pool s) ! i = Idle \<Longrightarrow> wp_msgs (dl_pool s) \<noteq> [] \<Longrightarrow>
    deliver_work sys pb opts h s (s\<lparr>dl_pool := receive i (dl_pool s)\<rparr>)"
| compute: "busy i msg Fresh s \<Longrightarrow> invoke_answer sys pb opts h ws msg written world = Some a \<Longrightarrow>
    deliver_work sys pb opts h s (answered i msg a s)"
| crash: "busy i msg Fresh s \<Longrightarrow> invoke_answer sys pb opts h ws msg written world = None \<Longrightarrow>
    deliver_work sys pb opts h s (s\<lparr>dl_crashed := True\<rparr>)"
| reply: "busy i msg (Replying resp) s \<Longrightarrow> deliver_work sys pb opts h s (reply_written i resp s)"
| reply_error: "busy i msg (Replying resp) s \<Longrightarrow> deliver_work sys pb opts h s (reply_failed i resp s)"
| retain: "busy i msg (Retaining resp) s \<Longrightarrow> deliver_work sys pb opts h s (retained i resp s)"
| finish: "busy i msg Over s \<Longrightarrow> deliver_work sys pb opts h s (s\<lparr>dl_pool := finish i msg (dl_pool s), dl_phase := (dl_phase s)(i := Fresh)\<rparr>)"

text \<open>All steps: those, new requests, the cancellation of the pool, the timeouts, acknowledgements and flushes.\<close>

inductive deliver_step :: "'v sys \<Rightarrow> proto \<Rightarrow> Opts \<Rightarrow> ('w, 'v) handler \<Rightarrow> delivery \<Rightarrow> delivery \<Rightarrow> bool"
  for sys :: "'v sys" and pb :: proto and opts :: Opts and h :: "('w, 'v) handler"
where
  work: "deliver_work sys pb opts h s t \<Longrightarrow> deliver_step sys pb opts h s t"
| request: "\<not> dl_crashed s \<Longrightarrow> deliver_step sys pb opts h s (s\<lparr>dl_pool := add_begin msg (dl_pool s)\<rparr>)"
| cancel: "deliver_step sys pb opts h s (s\<lparr>dl_pool := (dl_pool s)\<lparr>wp_cancelled := True\<rparr>\<rparr>)"
| quit: "\<not> dl_crashed s \<Longrightarrow> i < length (wp_workers (dl_pool s)) \<Longrightarrow> wp_workers (dl_pool s) ! i = Idle \<Longrightarrow> wp_cancelled (dl_pool s) \<Longrightarrow>
    deliver_step sys pb opts h s (s\<lparr>dl_pool := stop i (dl_pool s)\<rparr>)"
| turn: "\<not> dl_crashed s \<Longrightarrow> r \<in> set (mb_watchers (dl_buffer s)) \<Longrightarrow> deliver_step sys pb opts h s (s\<lparr>dl_buffer := watcher_turn r (dl_buffer s)\<rparr>)"
| ack: "\<not> dl_crashed s \<Longrightarrow> deliver_step sys pb opts h s (s\<lparr>dl_buffer := snd (handleMessageReplyAck pb msg (dl_buffer s))\<rparr>)"
| flush: "\<not> dl_crashed s \<Longrightarrow> (\<And>n b. mset (order n b) = mset b) \<Longrightarrow> flush_if_any api order (dl_buffer s) tried = (err, mb, tried') \<Longrightarrow>
    deliver_step sys pb opts h s (s\<lparr>dl_buffer := mb, dl_accepted := dl_accepted s \<union> accepted api tried tried'\<rparr>)"

section \<open>The system refines the pool\<close>

lemma deliver_work_pool: "deliver_work sys pb opts h s t \<Longrightarrow> dl_pool t = dl_pool s \<or> pool_work (dl_pool s) (dl_pool t)"
  by (induction rule: deliver_work.induct)
    (auto simp: answered_def reply_written_def reply_failed_def retained_def busy_def Let_def split: sum.splits intro: pool_work.intros)

lemma deliver_work_runs: "(deliver_work sys pb opts h)\<^sup>*\<^sup>* s t \<Longrightarrow> (deliver_step sys pb opts h)\<^sup>*\<^sup>* s t"
  by (induction rule: rtranclp_induct) (auto intro: deliver_step.work rtranclp.rtrancl_into_rtrancl)

interpretation served: simulation "deliver_step sys pb opts h" pool_step dl_pool for sys pb opts h
proof
  show "deliver_step sys pb opts h s t \<Longrightarrow> dl_pool t = dl_pool s \<or> pool_step (dl_pool s) (dl_pool t)" for s t
    by (induction rule: deliver_step.induct) (auto dest: deliver_work_pool intro: pool_step.intros pool_work.intros)
qed

section \<open>Every request is answered once\<close>

text \<open>The requests that are being handled and have their answer.\<close>

definition decided_by :: "delivery \<Rightarrow> nat \<Rightarrow> ConnectMessage multiset" where
  "decided_by s i = (if dl_phase s i = Fresh then {#} else mset (job (wp_workers (dl_pool s) ! i)))"

definition decided :: "delivery \<Rightarrow> ConnectMessage multiset" where
  "decided s = (\<Sum>i<length (wp_workers (dl_pool s)). decided_by s i)"

definition history_inv :: "delivery \<Rightarrow> bool" where
  "history_inv s \<longleftrightarrow> mset (map fst (dl_answers s)) = mset (wp_served (dl_pool s)) + decided s \<and>
     (\<forall>i < length (wp_workers (dl_pool s)). job (wp_workers (dl_pool s) ! i) = [] \<longrightarrow> dl_phase s i = Fresh)"

lemma decided_change:
  assumes "i < length (wp_workers (dl_pool s))" "length (wp_workers (dl_pool t)) = length (wp_workers (dl_pool s))"
    "\<And>j. j \<noteq> i \<Longrightarrow> dl_phase t j = dl_phase s j \<and> wp_workers (dl_pool t) ! j = wp_workers (dl_pool s) ! j"
  shows "decided t + decided_by s i = decided s + decided_by t i"
  unfolding decided_def assms(2) by (rule sum_change [OF assms(1)]) (simp add: decided_by_def assms(3))

lemma decided_same:
  assumes "dl_phase t = dl_phase s" "wp_workers (dl_pool t) = wp_workers (dl_pool s)"
  shows "decided t = decided s"
  unfolding decided_def decided_by_def assms ..

text \<open>A step of goroutine \<open>i\<close>.\<close>

lemma history_inv_change:
  assumes "history_inv s" "i < length (wp_workers (dl_pool s))" "length (wp_workers (dl_pool t)) = length (wp_workers (dl_pool s))"
    "\<And>j. j \<noteq> i \<Longrightarrow> dl_phase t j = dl_phase s j \<and> wp_workers (dl_pool t) ! j = wp_workers (dl_pool s) ! j"
    "mset (map fst (dl_answers t)) + mset (wp_served (dl_pool s)) + decided_by s i = mset (map fst (dl_answers s)) + mset (wp_served (dl_pool t)) + decided_by t i"
    "job (wp_workers (dl_pool t) ! i) = [] \<Longrightarrow> dl_phase t i = Fresh"
  shows "history_inv t"
proof -
  have "mset (map fst (dl_answers t)) + (mset (wp_served (dl_pool s)) + decided s) + decided_by t i =
      mset (map fst (dl_answers t)) + mset (wp_served (dl_pool s)) + decided_by s i + decided t"
    using decided_change [OF assms(2-4)] by (simp add: ac_simps)
  also have "\<dots> = mset (map fst (dl_answers s)) + mset (wp_served (dl_pool t)) + decided_by t i + decided t" using assms(5) by simp
  finally have "mset (map fst (dl_answers t)) = mset (wp_served (dl_pool t)) + decided t"
    using assms(1) by (simp add: history_inv_def ac_simps)
  moreover have "dl_phase t j = Fresh" if "j < length (wp_workers (dl_pool t))" "job (wp_workers (dl_pool t) ! j) = []" for j
    using that assms by (cases "j = i") (auto simp: history_inv_def)
  ultimately show ?thesis by (simp add: history_inv_def)
qed

lemma history_inv_frame:
  assumes "history_inv s" "dl_phase t = dl_phase s" "wp_workers (dl_pool t) = wp_workers (dl_pool s)" "wp_served (dl_pool t) = wp_served (dl_pool s)"
    "dl_answers t = dl_answers s"
  shows "history_inv t"
  using assms decided_same [OF assms(2,3)] by (simp add: history_inv_def)

lemma history_inv_work: "deliver_work sys pb opts h s t \<Longrightarrow> history_inv s \<Longrightarrow> history_inv t"
proof (induction rule: deliver_work.induct)
  case (send s k)
  then show ?case by - (rule history_inv_frame [of s], simp_all add: add_send_def)
next
  case (take s i)
  then have "dl_phase s i = Fresh" by (simp add: history_inv_def)
  with take show ?case by - (rule history_inv_change [of s i], simp_all add: receive_def decided_by_def)
next
  case (compute i msg s ws written world a)
  then show ?case by - (rule history_inv_change [of s i], simp_all add: answered_def busy_def decided_by_def Let_def split: sum.splits)
next
  case (crash i msg s ws written world)
  then show ?case by - (rule history_inv_frame [of s], simp_all)
next
  case (reply i msg resp s)
  then show ?case by - (rule history_inv_change [of s i], simp_all add: reply_written_def busy_def decided_by_def)
next
  case (reply_error i msg resp s)
  then show ?case by - (rule history_inv_change [of s i], simp_all add: reply_failed_def busy_def decided_by_def)
next
  case (retain i msg resp s)
  then show ?case by - (rule history_inv_change [of s i], simp_all add: retained_def busy_def decided_by_def)
next
  case (finish i msg s)
  then show ?case by - (rule history_inv_change [of s i], simp_all add: finish_def busy_def decided_by_def)
qed

lemma history_inv_step: "deliver_step sys pb opts h s t \<Longrightarrow> history_inv s \<Longrightarrow> history_inv t"
proof (induction rule: deliver_step.induct)
  case (quit s i)
  then have "dl_phase s i = Fresh" by (simp add: history_inv_def)
  with quit show ?case by - (rule history_inv_change [of s i], simp_all add: stop_def decided_by_def)
next
  case (work s t)
  then show ?case by (simp add: history_inv_work)
next
  case (request s msg)
  then show ?case by - (rule history_inv_frame [of s], simp_all add: add_begin_def)
next
  case (cancel s)
  then show ?case by - (rule history_inv_frame [of s], simp_all)
next
  case (turn s r)
  then show ?case by - (rule history_inv_frame [of s], simp_all)
next
  case (ack s msg)
  then show ?case by - (rule history_inv_frame [of s], simp_all)
next
  case (flush s order api tried err mb tried')
  then show ?case by - (rule history_inv_frame [of s], simp_all)
qed

section \<open>No response is lost\<close>

text \<open>The buffer was given the computed responses only, and owes those that the API did not accept; and a response that waits for its acknowledgement was written, or is about to be.\<close>

definition flight_of :: "phase \<Rightarrow> SDKResponse set" where
  "flight_of ph = (case ph of Replying r \<Rightarrow> {r} | Retaining r \<Rightarrow> {r} | _ \<Rightarrow> {})"

definition in_flight :: "delivery \<Rightarrow> SDKResponse set" where
  "in_flight s = (\<Union>i < length (wp_workers (dl_pool s)). flight_of (dl_phase s i))"

definition responded :: "delivery \<Rightarrow> SDKResponse set" where
  "responded s = {resp. \<exists>msg. (msg, Inr resp) \<in> set (dl_answers s)}"

definition pending :: "messageBuffer \<Rightarrow> SDKResponse set" where
  "pending mb = snd ` set (mb_pendingAck mb)"

definition keeps_inv :: "delivery \<Rightarrow> bool" where
  "keeps_inv s \<longleftrightarrow> keeps (responded s) (responded s - dl_accepted s) (dl_buffer s) \<and>
     pending (dl_buffer s) \<subseteq> set (dl_written s) \<union> in_flight s \<and> in_flight s \<subseteq> responded s"

lemma keeps_wf: "keeps given owed mb \<Longrightarrow> wf_buffer mb"
  using reachable_wf by (auto simp: keeps_def)

lemma pending_ops:
  assumes "wf_buffer mb"
  shows "pending (addPending r mb) \<subseteq> insert r (pending mb)" "pending (append_msg r mb) \<subseteq> pending mb - {r}"
    "pending (watcher_turn r mb) \<subseteq> pending mb" "pending (acknowledge k mb) \<subseteq> pending mb"
  using assms by (auto simp: pending_def addPending_def append_msg_def watcher_turn_def acknowledge_def wf_buffer_def snd_update snd_delete)

lemma responded_simps [simp]:
  "responded (answered i msg a s) = responded s \<union> (case a of Inl _ \<Rightarrow> {} | Inr resp \<Rightarrow> {resp})"
  "responded (reply_written i resp s) = responded s" "responded (reply_failed i resp s) = responded s" "responded (retained i resp s) = responded s"
  by (auto simp: responded_def answered_def reply_written_def reply_failed_def retained_def Let_def split: sum.splits)

lemma buffer_simps [simp]:
  "dl_buffer (answered i msg a s) = (case a of Inl _ \<Rightarrow> dl_buffer s | Inr resp \<Rightarrow> addPending resp (dl_buffer s))"
  "dl_written (answered i msg a s) = dl_written s" "dl_accepted (answered i msg a s) = dl_accepted s"
  "dl_buffer (reply_written i resp s) = dl_buffer s" "dl_written (reply_written i resp s) = dl_written s @ [resp]"
  "dl_accepted (reply_written i resp s) = dl_accepted s"
  "dl_buffer (reply_failed i resp s) = dl_buffer s" "dl_written (reply_failed i resp s) = dl_written s" "dl_accepted (reply_failed i resp s) = dl_accepted s"
  "dl_buffer (retained i resp s) = append_msg resp (dl_buffer s)" "dl_written (retained i resp s) = dl_written s"
  "dl_accepted (retained i resp s) = dl_accepted s"
  by (auto simp: answered_def reply_written_def reply_failed_def retained_def Let_def split: sum.splits)

text \<open>What is in flight after a step of goroutine \<open>i\<close>.\<close>

lemma in_flight_change:
  assumes "i < length (wp_workers (dl_pool s))" "length (wp_workers (dl_pool t)) = length (wp_workers (dl_pool s))" "dl_phase t = (dl_phase s)(i := ph)"
  shows "in_flight s \<subseteq> in_flight t \<union> flight_of (dl_phase s i)" "flight_of ph \<subseteq> in_flight t" "in_flight t \<subseteq> in_flight s \<union> flight_of ph"
proof -
  show "in_flight s \<subseteq> in_flight t \<union> flight_of (dl_phase s i)" "flight_of ph \<subseteq> in_flight t" using assms by (force simp: in_flight_def)+
  show "in_flight t \<subseteq> in_flight s \<union> flight_of ph" using assms by (auto simp: in_flight_def split: if_splits)
qed

lemma in_flight_of: "busy i msg ph s \<Longrightarrow> flight_of ph \<subseteq> in_flight s"
  by (force simp: busy_def in_flight_def)

lemma keeps_inv_answered:
  assumes "keeps_inv s" "busy i msg Fresh s"
  shows "keeps_inv (answered i msg a s)"
proof (cases a)
  case (Inl e)
  let ?t = "answered i msg a s"
  have "in_flight s \<subseteq> in_flight ?t \<and> in_flight ?t \<subseteq> in_flight s"
    using in_flight_change [of i s ?t Over] assms(2) Inl by (auto simp: answered_def busy_def flight_of_def)
  with assms(1) Inl show ?thesis by (auto simp: keeps_inv_def)
next
  case (Inr resp)
  let ?t = "answered i msg a s"
  have k: "keeps (responded s) (responded s - dl_accepted s) (dl_buffer s)" using assms(1) by (simp add: keeps_inv_def)
  have flight: "in_flight s \<union> {resp} \<subseteq> in_flight ?t \<and> in_flight ?t \<subseteq> in_flight s \<union> {resp}"
    using in_flight_change [of i s ?t "Replying resp"] assms(2) Inr by (auto simp: answered_def busy_def flight_of_def)
  have "keeps (responded ?t) (responded ?t - dl_accepted ?t) (addPending resp (dl_buffer s))"
    using keeps_buffer_do [OF k, of "Add resp"] Inr by (auto intro: keeps_mono)
  with flight assms(1) Inr pending_ops(1) [OF keeps_wf [OF k], of resp] show ?thesis by (auto simp: keeps_inv_def)
qed

lemma keeps_inv_reply_written:
  assumes "keeps_inv s" "busy i msg (Replying resp) s"
  shows "keeps_inv (reply_written i resp s)"
proof -
  have "in_flight s \<subseteq> in_flight (reply_written i resp s) \<union> {resp} \<and> in_flight (reply_written i resp s) \<subseteq> in_flight s"
    using in_flight_change [of i s "reply_written i resp s" Over] assms(2) by (auto simp: reply_written_def busy_def flight_of_def)
  with assms(1) show ?thesis by (auto simp: keeps_inv_def)
qed

lemma keeps_inv_reply_failed:
  assumes "keeps_inv s" "busy i msg (Replying resp) s"
  shows "keeps_inv (reply_failed i resp s)"
proof -
  have "in_flight s \<subseteq> in_flight (reply_failed i resp s) \<and> in_flight (reply_failed i resp s) \<subseteq> in_flight s"
    using in_flight_change [of i s "reply_failed i resp s" "Retaining resp"] in_flight_of [OF assms(2)] assms(2)
    by (auto simp: reply_failed_def busy_def flight_of_def)
  with assms(1) show ?thesis by (auto simp: keeps_inv_def)
qed

lemma keeps_inv_retained:
  assumes "keeps_inv s" "busy i msg (Retaining resp) s"
  shows "keeps_inv (retained i resp s)"
proof -
  have k: "keeps (responded s) (responded s - dl_accepted s) (dl_buffer s)" and resp: "resp \<in> responded s"
    using assms(1) in_flight_of [OF assms(2)] by (auto simp: keeps_inv_def flight_of_def)
  have "in_flight s \<subseteq> in_flight (retained i resp s) \<union> {resp} \<and> in_flight (retained i resp s) \<subseteq> in_flight s"
    using in_flight_change [of i s "retained i resp s" Over] assms(2) by (auto simp: retained_def busy_def flight_of_def)
  moreover have "keeps (responded s) (responded s - dl_accepted s) (append_msg resp (dl_buffer s))"
    using keeps_buffer_do [OF k, of "Append resp"] resp by (auto intro: keeps_mono simp: insert_absorb)
  ultimately show ?thesis using assms(1) pending_ops(2) [OF keeps_wf [OF k], of resp] by (auto simp: keeps_inv_def)
qed

lemma keeps_inv_pool:
  "keeps_inv s \<Longrightarrow> length (wp_workers p) = length (wp_workers (dl_pool s)) \<Longrightarrow> keeps_inv (s\<lparr>dl_pool := p\<rparr>)"
  by (simp add: keeps_inv_def in_flight_def responded_def)

lemma keeps_inv_work: "deliver_work sys pb opts h s t \<Longrightarrow> keeps_inv s \<Longrightarrow> keeps_inv t"
proof (induction rule: deliver_work.induct)
  case (finish i msg s)
  let ?t = "s\<lparr>dl_pool := finish i msg (dl_pool s), dl_phase := (dl_phase s)(i := Fresh)\<rparr>"
  have "in_flight s \<subseteq> in_flight ?t \<and> in_flight ?t \<subseteq> in_flight s"
    using in_flight_change [of i s ?t Fresh] finish(1) by (auto simp: busy_def flight_of_def finish_def)
  moreover have "responded ?t = responded s" by (simp add: responded_def)
  ultimately show ?case using finish(2) by (auto simp: keeps_inv_def)
next
  case (crash i msg s ws written world)
  then show ?case by (simp add: keeps_inv_def in_flight_def responded_def)
qed (auto simp: add_send_def receive_def intro: keeps_inv_answered keeps_inv_reply_written keeps_inv_reply_failed keeps_inv_retained keeps_inv_pool)

lemma keeps_inv_buffer:
  assumes "keeps_inv s" "keeps (responded s) (responded s - dl_accepted s - new) mb" "pending mb \<subseteq> pending (dl_buffer s)"
  shows "keeps_inv (s\<lparr>dl_buffer := mb, dl_accepted := dl_accepted s \<union> new\<rparr>)"
  using assms by (auto simp: keeps_inv_def in_flight_def responded_def Diff_eq Int_assoc)

lemma flush_if_any_keeps:
  assumes "wf_buffer mb" "\<And>n b. mset (order n b) = mset b" "flush_if_any api order mb tried = (err, mb', tried')"
  shows "mb_pendingAck mb' = mb_pendingAck mb" "err = None \<Longrightarrow> mb_buffered mb' = []"
  using assms flush_parts(4,7) [where m = mb and order = order and send = api and tried = tried and err = err and m' = mb' and tried' = tried'] by (auto simp: flush_if_any_def hasMessages_def split: if_splits)

lemma keeps_inv_step: "deliver_step sys pb opts h s t \<Longrightarrow> keeps_inv s \<Longrightarrow> keeps_inv t"
proof (induction rule: deliver_step.induct)
  case (work s t)
  then show ?case by (simp add: keeps_inv_work)
next
  case (turn s r)
  then have k: "keeps (responded s) (responded s - dl_accepted s) (dl_buffer s)" by (simp add: keeps_inv_def)
  have "keeps_inv (s\<lparr>dl_buffer := watcher_turn r (dl_buffer s), dl_accepted := dl_accepted s \<union> {}\<rparr>)"
    using keeps_buffer_do [OF k, of "Turn r"] turn(2) pending_ops(3) [OF keeps_wf [OF k]] by (intro keeps_inv_buffer [OF turn(3)]) auto
  then show ?case by simp
next
  case (ack s msg)
  then have k: "keeps (responded s) (responded s - dl_accepted s) (dl_buffer s)" by (simp add: keeps_inv_def)
  have "pending (snd (handleMessageReplyAck pb msg (dl_buffer s))) \<subseteq> pending (dl_buffer s)"
    using pending_ops(4) [OF keeps_wf [OF k]] by (simp add: handleMessageReplyAck_def split: option.splits)
  with keeps_ReplyAck [OF k, of pb msg] have "keeps_inv (s\<lparr>dl_buffer := snd (handleMessageReplyAck pb msg (dl_buffer s)), dl_accepted := dl_accepted s \<union> {}\<rparr>)"
    by (intro keeps_inv_buffer [OF ack(2)]) auto
  then show ?case by simp
next
  case (flush s order api tried err mb tried')
  then have k: "keeps (responded s) (responded s - dl_accepted s) (dl_buffer s)" by (simp add: keeps_inv_def)
  from keeps_flush [OF k flush(2,3)] flush_if_any_keeps(1) [OF keeps_wf [OF k] flush(2,3)] show ?case
    by (intro keeps_inv_buffer [OF flush(4)]) (auto simp: pending_def)
qed (auto simp: add_begin_def stop_def intro: keeps_inv_pool)

definition deliver_inv :: "delivery \<Rightarrow> bool" where
  "deliver_inv s \<longleftrightarrow> history_inv s \<and> keeps_inv s"

lemma deliver_inv_new: "deliver_inv (new_delivery c)"
proof -
  have "keeps {} {} newMessageBuffer" by (rule keepsI [OF reachable.fresh]) auto
  then have "keeps_inv (new_delivery c)"
    by (simp add: keeps_inv_def new_delivery_def responded_def pending_def in_flight_def flight_of_def) (simp add: newMessageBuffer_def)
  then show ?thesis by (simp add: deliver_inv_def history_inv_def new_delivery_def decided_def decided_by_def) (simp add: NewWorkerPool_def)
qed

interpretation delivery: inductive_invariant "\<lambda>s. s = new_delivery c" "deliver_step sys pb opts h" deliver_inv for c sys pb opts h
  by unfold_locales (auto simp: deliver_inv_new, auto simp: deliver_inv_def history_inv_step keeps_inv_step)

section \<open>Delivery\<close>

lemma no_jobs_no_phases:
  assumes "history_inv s" "jobs (dl_pool s) = {#}"
  shows "decided s = {#}" "in_flight s = {}"
proof -
  have "job (wp_workers (dl_pool s) ! i) = []" if "i < length (wp_workers (dl_pool s))" for i
    using assms(2) nth_mem [OF that] by (auto simp: jobs_def)
  with assms(1) have "dl_phase s i = Fresh" if "i < length (wp_workers (dl_pool s))" for i using that by (simp add: history_inv_def)
  then show "decided s = {#}" "in_flight s = {}" by (auto simp: decided_def decided_by_def in_flight_def flight_of_def)
qed

text \<open>C20: A shutdown delivers. Whatever the goroutines, the timeouts, the gateway and the API did and in whatever order: when the pool has no request in progress any more, every request
  that was read has exactly one answer; and if the flush that follows succeeds, then every response that was computed, with a request ID that is not empty and no different response for the
  same request ID, was itself accepted by the API (now or in an earlier flush), or it was itself written to the gateway without an error and is still pending: then the worker does not know that
  it was received, and the buffer forgets it with the process.\<close>

theorem shutdown_delivers:
  assumes "(deliver_step sys pb opts h)\<^sup>*\<^sup>* (new_delivery c) s" "Wait_returns (dl_pool s)" "\<And>n b. mset (order n b) = mset b"
    "flush_if_any api order (dl_buffer s) tried = (None, mb, tried')"
  shows "mset (map fst (dl_answers s)) = mset (wp_added (dl_pool s)) \<and>
    (\<forall>msg resp. (msg, Inr resp) \<in> set (dl_answers s) \<and> sr_RequestId resp \<noteq> [] \<and>
         (\<forall>msg' resp'. (msg', Inr resp') \<in> set (dl_answers s) \<and> sr_RequestId resp' = sr_RequestId resp \<longrightarrow> resp' = resp) \<longrightarrow>
       resp \<in> dl_accepted s \<union> accepted api tried tried' \<or>
       resp \<in> set (dl_written s) \<and> map_of (mb_pendingAck mb) (sr_RequestId resp) = Some resp)"
proof (intro conjI allI impI)
  have inv: "history_inv s" "keeps_inv s" using delivery.reached_inv [OF refl assms(1)] by (simp_all add: deliver_inv_def)
  have "pool_step\<^sup>*\<^sup>* (NewWorkerPool c) (dl_pool s)" using served.run_simulates [OF assms(1)] by (simp add: new_delivery_def)
  then have "pool_inv c (dl_pool s)" by (rule pool.reached_inv [OF refl])
  note idle = pool_inv_drained(1) [OF this assms(2)] and added = pool_inv_drained(2) [OF this assms(2)]
  show "mset (map fst (dl_answers s)) = mset (wp_added (dl_pool s))"
    using inv(1) no_jobs_no_phases(1) [OF inv(1) idle] added by (simp add: history_inv_def)
  fix msg resp
  assume a: "(msg, Inr resp) \<in> set (dl_answers s) \<and> sr_RequestId resp \<noteq> [] \<and>
    (\<forall>msg' resp'. (msg', Inr resp') \<in> set (dl_answers s) \<and> sr_RequestId resp' = sr_RequestId resp \<longrightarrow> resp' = resp)"
  then have resp: "resp \<in> responded s" "sole (responded s) resp" by (auto simp: responded_def sole_def)
  have k: "keeps (responded s) (responded s - dl_accepted s) (dl_buffer s)" using inv(2) by (simp add: keeps_inv_def)
  note mb = flush_if_any_keeps [OF keeps_wf [OF k] assms(3,4)] and k' = keeps_flush [OF k assms(3,4), THEN conjunct1]
  have written: "resp \<in> set (dl_written s)" if "map_of (mb_pendingAck mb) (sr_RequestId resp) = Some resp"
    using that mb(1) inv(2) no_jobs_no_phases(2) [OF inv(1) idle] by (force simp: keeps_inv_def pending_def dest: map_of_SomeD)
  show "resp \<in> dl_accepted s \<union> accepted api tried tried' \<or> resp \<in> set (dl_written s) \<and> map_of (mb_pendingAck mb) (sr_RequestId resp) = Some resp"
    using keeps_holds [OF k', of resp] resp a mb(2) written by auto
qed

section \<open>The handler is a run of the system\<close>

text \<open>Handling a request without interruption is one of the runs of its goroutine, with the same effect on the buffer; a panic is a crash.\<close>

lemma goroutine_refuses:
  assumes "busy i msg Fresh s" "invoke_answer sys pb opts h ws msg written world = Some (Inl e)"
  shows "\<exists>t. (deliver_work sys pb opts h)\<^sup>*\<^sup>* s t \<and> busy i msg Over t \<and> dl_pool t = dl_pool s \<and> dl_buffer t = dl_buffer s \<and> dl_answers t = dl_answers s @ [(msg, Inl e)]"
  using deliver_work.compute [OF assms] assms(1) by (intro exI [of _ "answered i msg (Inl e) s"]) (auto simp: answered_def busy_def)

lemma goroutine_replies:
  assumes "busy i msg Fresh s" "invoke_answer sys pb opts h ws msg written world = Some (Inr resp)"
  shows "\<exists>t. (deliver_work sys pb opts h)\<^sup>*\<^sup>* s t \<and> busy i msg Over t \<and> dl_pool t = dl_pool s \<and> dl_answers t = dl_answers s @ [(msg, Inr resp)] \<and>
    dl_buffer t = (if ok then addPending resp (dl_buffer s) else append_msg resp (addPending resp (dl_buffer s))) \<and>
    dl_written t = (if ok then dl_written s @ [resp] else dl_written s)"
proof -
  let ?W = "deliver_work sys pb opts h" and ?t1 = "answered i msg (Inr resp) s" and ?t2 = "reply_failed i resp (answered i msg (Inr resp) s)"
  let ?t = "if ok then reply_written i resp ?t1 else retained i resp ?t2"
  have b: "busy i msg (Replying resp) ?t1" "busy i msg (Retaining resp) ?t2" using assms(1) by (auto simp: busy_def answered_def reply_failed_def)
  have start: "?W s ?t1" by (rule deliver_work.compute [OF assms])
  have good: "?W ?t1 (reply_written i resp ?t1)" by (rule deliver_work.reply [OF b(1)])
  have bad: "?W ?t1 ?t2" "?W ?t2 (retained i resp ?t2)" by (rule deliver_work.reply_error [OF b(1)], rule deliver_work.retain [OF b(2)])
  have "?W\<^sup>*\<^sup>* s (reply_written i resp ?t1)" "?W\<^sup>*\<^sup>* s (retained i resp ?t2)"
    using start good bad by (meson r_into_rtranclp rtranclp.rtrancl_into_rtrancl)+
  then have "?W\<^sup>*\<^sup>* s ?t" by simp
  moreover have "busy i msg Over ?t \<and> dl_pool ?t = dl_pool s \<and> dl_answers ?t = dl_answers s @ [(msg, Inr resp)]"
    using assms(1) by (simp add: busy_def answered_def reply_written_def reply_failed_def retained_def)
  ultimately show ?thesis by (intro exI [of _ ?t]) simp
qed

text \<open>What \<open>handleInvokeMessage\<close> does, by its answer.\<close>

lemma handleInvokeMessage_answer:
  assumes "handleInvokeMessage sys pb opts h ws msg written mb world = (oc, written', mb', world')"
  obtains (crash) "invoke_answer sys pb opts h ws msg written world = None" "\<And>err. oc \<noteq> Returned err"
  | (refuse) e where "invoke_answer sys pb opts h ws msg written world = Some (Inl e)" "oc = Returned (Some e)" "mb' = mb"
  | (reply) resp where "invoke_answer sys pb opts h ws msg written world = Some (Inr resp)" "oc = Returned None" "mb' = addPending resp mb"
  | (retain) resp e where "invoke_answer sys pb opts h ws msg written world = Some (Inr resp)" "oc = Returned (Some e)"
      "mb' = append_msg resp (addPending resp mb)"
proof -
  obtain r w1 wd where "connectInvoke sys pb opts h ws msg written world = (r, w1, wd)" by (cases "connectInvoke sys pb opts h ws msg written world")
  with assms that show thesis
    by (auto simp: handleInvokeMessage_def invoke_answer_def Let_def split: outcome.splits sum.splits option.splits)
qed

lemma handleInvokeMessage_is_run:
  assumes "busy i msg Fresh s" "handleInvokeMessage sys pb opts h ws msg written (dl_buffer s) world = (oc, written', mb', world')"
  shows "(case oc of
      Returned err \<Rightarrow> \<exists>t a. (deliver_work sys pb opts h)\<^sup>*\<^sup>* s t \<and> busy i msg Over t \<and> dl_pool t = dl_pool s \<and> dl_buffer t = mb' \<and> dl_answers t = dl_answers s @ [(msg, a)] \<and>
        (err = None \<longrightarrow> (\<exists>resp. a = Inr resp \<and> dl_written t = dl_written s @ [resp]))
    | _ \<Rightarrow> deliver_work sys pb opts h s (s\<lparr>dl_crashed := True\<rparr>))"
  using assms(2)
proof (cases rule: handleInvokeMessage_answer)
  case crash
  with deliver_work.crash [OF assms(1) crash(1)] show ?thesis by (cases oc) auto
next
  case (refuse e)
  with goroutine_refuses [OF assms(1) refuse(1)] show ?thesis by auto
next
  case (reply resp)
  with goroutine_replies [OF assms(1) reply(1), of True] show ?thesis by auto
next
  case (retain resp e)
  with goroutine_replies [OF assms(1) retain(1), of False] show ?thesis by auto
qed

theorem shutdown_delivers_witness:
  "\<exists>s resp. (deliver_step sample_sys sample_proto sample_opts (sample_handler None))\<^sup>*\<^sup>* (new_delivery 1) s \<and> dl_answers s = [(sample_message, Inr resp)] \<and>
     sr_RequestId resp = ''req'' \<and> mset (map fst (dl_answers s)) = mset (wp_added (dl_pool s)) \<and>
     (resp \<in> dl_accepted s \<or> resp \<in> set (dl_written s) \<and> map_of (mb_pendingAck (dl_buffer s)) ''req'' = Some resp)"
proof -
  let ?W = "deliver_work sample_sys sample_proto sample_opts (sample_handler None)" and ?R = "deliver_step sample_sys sample_proto sample_opts (sample_handler None)"
  define s1 where "s1 = (new_delivery 1)\<lparr>dl_pool := add_begin sample_message (NewWorkerPool 1)\<rparr>"
  define s2 where "s2 = s1\<lparr>dl_pool := add_send 0 (dl_pool s1)\<rparr>"
  define s3 where "s3 = s2\<lparr>dl_pool := receive 0 (dl_pool s2)\<rparr>"
  note defs = s1_def s2_def s3_def new_delivery_def NewWorkerPool_def add_begin_def add_send_def receive_def
  have fresh: "busy 0 sample_message Fresh s3" by (simp add: busy_def defs)
  have pool: "wp_sending (dl_pool s3) = []" "wp_msgs (dl_pool s3) = []" "wp_inProgress (dl_pool s3) = 1" by (simp_all add: defs)
  obtain resp where "connectInvoke sample_sys sample_proto sample_opts (sample_handler None) (\<lambda>_ _. None) sample_message [] 0 = (Returned (Inr resp), [sample_ack], 1)"
    and sid: "sr_RequestId resp = ''req''" using sample_connectInvoke by blast
  then have a: "invoke_answer sample_sys sample_proto sample_opts (sample_handler None) (\<lambda>_ _. None) sample_message [] 0 = Some (Inr resp)"
    by (simp add: invoke_answer_def)
  from goroutine_replies [OF fresh a, of True] obtain t where t: "?W\<^sup>*\<^sup>* s3 t" "busy 0 sample_message Over t" "dl_pool t = dl_pool s3"
    "dl_answers t = dl_answers s3 @ [(sample_message, Inr resp)]" "dl_buffer t = addPending resp (dl_buffer s3)" "dl_written t = dl_written s3 @ [resp]" by auto
  define s where "s = t\<lparr>dl_pool := finish 0 sample_message (dl_pool t), dl_phase := (dl_phase t)(0 := Fresh)\<rparr>"
  have "?R (new_delivery 1) s1" unfolding s1_def using deliver_step.request [of "new_delivery 1"] by (simp add: new_delivery_def)
  moreover have "?W s1 s2" unfolding s2_def by (rule deliver_work.send) (simp_all add: defs)
  moreover have "?W s2 s3" unfolding s3_def by (rule deliver_work.take) (simp_all add: defs)
  moreover have "?W t s" unfolding s_def by (rule deliver_work.finish [OF t(2)])
  ultimately have first: "?R (new_delivery 1) s1" and rest: "?W\<^sup>*\<^sup>* s1 s"
    using t(1) by (blast, meson converse_rtranclp_into_rtranclp rtranclp.rtrancl_into_rtrancl)
  have run: "?R\<^sup>*\<^sup>* (new_delivery 1) s" by (rule converse_rtranclp_into_rtranclp [OF first deliver_work_runs [OF rest]])
  have waits: "Wait_returns (dl_pool s)" by (simp add: s_def t(3) finish_def Wait_returns_def pool)
  have "mb_buffered (dl_buffer s) = []" by (simp add: s_def t(5) addPending_def, simp add: defs newMessageBuffer_def)
  then have flush: "flush_if_any (\<lambda>_ _. True) (\<lambda>_ b. b) (dl_buffer s) [] = (None, dl_buffer s, [])" by (simp add: flush_if_any_def hasMessages_def)
  have answers: "dl_answers s = [(sample_message, Inr resp)]" by (simp add: s_def t(4), simp add: defs)
  have d: "mset (map fst (dl_answers s)) = mset (wp_added (dl_pool s)) \<and>
      (\<forall>msg resp'. (msg, Inr resp') \<in> set (dl_answers s) \<and> sr_RequestId resp' \<noteq> [] \<and>
         (\<forall>msg' resp''. (msg', Inr resp'') \<in> set (dl_answers s) \<and> sr_RequestId resp'' = sr_RequestId resp' \<longrightarrow> resp'' = resp') \<longrightarrow>
       resp' \<in> dl_accepted s \<union> accepted (\<lambda>_ _. True) [] [] \<or>
       resp' \<in> set (dl_written s) \<and> map_of (mb_pendingAck (dl_buffer s)) (sr_RequestId resp') = Some resp')"
    by (rule shutdown_delivers [OF run waits _ flush]) simp
  have "resp \<in> dl_accepted s \<union> accepted (\<lambda>_ _. True) [] [] \<or>
      resp \<in> set (dl_written s) \<and> map_of (mb_pendingAck (dl_buffer s)) (sr_RequestId resp) = Some resp"
    by (rule d [THEN conjunct2, rule_format, of sample_message]) (auto simp: answers sid)
  then have "mset (map fst (dl_answers s)) = mset (wp_added (dl_pool s))" "resp \<in> dl_accepted s \<or> resp \<in> set (dl_written s) \<and> map_of (mb_pendingAck (dl_buffer s)) ''req'' = Some resp"
    using d [THEN conjunct1] sid by (simp_all add: accepted_def)
  with answers show ?thesis using run sid by (intro exI [of _ s] exI [of _ resp]) simp
qed

section \<open>Every request gets its answer\<close>

definition phase_weight :: "phase \<Rightarrow> nat" where
  "phase_weight ph = (case ph of Fresh \<Rightarrow> 4 | Replying _ \<Rightarrow> 3 | Retaining _ \<Rightarrow> 2 | Over \<Rightarrow> 1)"

definition worker_weight :: "delivery \<Rightarrow> nat \<Rightarrow> nat" where
  "worker_weight s i = phase_weight (dl_phase s i) * length (job (wp_workers (dl_pool s) ! i))"

definition deliver_weight :: "delivery \<Rightarrow> nat" where
  "deliver_weight s = (if dl_crashed s then 0 else
     6 * length (wp_sending (dl_pool s)) + 5 * length (wp_msgs (dl_pool s)) + (\<Sum>i<length (wp_workers (dl_pool s)). worker_weight s i))"

definition deliver_live :: "nat \<Rightarrow> delivery \<Rightarrow> bool" where
  "deliver_live c s \<longleftrightarrow> history_inv s \<and> live_inv c (dl_pool s)"

lemma worker_weight_change:
  assumes "i < length (wp_workers (dl_pool s))" "length (wp_workers (dl_pool t)) = length (wp_workers (dl_pool s))"
    "\<And>j. j \<noteq> i \<Longrightarrow> dl_phase t j = dl_phase s j \<and> wp_workers (dl_pool t) ! j = wp_workers (dl_pool s) ! j"
  shows "(\<Sum>j<length (wp_workers (dl_pool t)). worker_weight t j) + worker_weight s i = (\<Sum>j<length (wp_workers (dl_pool s)). worker_weight s j) + worker_weight t i"
  unfolding assms(2) by (rule sum_change [OF assms(1)]) (simp add: worker_weight_def assms(3))

lemma deliver_weight_worker:
  assumes "i < length (wp_workers (dl_pool s))" "length (wp_workers (dl_pool t)) = length (wp_workers (dl_pool s))"
    "\<And>j. j \<noteq> i \<Longrightarrow> dl_phase t j = dl_phase s j \<and> wp_workers (dl_pool t) ! j = wp_workers (dl_pool s) ! j" "\<not> dl_crashed s" "wp_sending (dl_pool t) = wp_sending (dl_pool s)"
    "5 * length (wp_msgs (dl_pool t)) + worker_weight t i < 5 * length (wp_msgs (dl_pool s)) + worker_weight s i"
  shows "deliver_weight t < deliver_weight s"
  using worker_weight_change [OF assms(1-3)] assms(4-6) by (auto simp: deliver_weight_def)

lemma deliver_weight_step: "deliver_work sys pb opts h s t \<Longrightarrow> history_inv s \<Longrightarrow> deliver_weight t < deliver_weight s"
proof (induction rule: deliver_work.induct)
  case (send s k)
  then show ?case by (simp add: deliver_weight_def add_send_def worker_weight_def)
next
  case (take s i)
  then obtain m ms where "wp_msgs (dl_pool s) = m # ms" by (cases "wp_msgs (dl_pool s)") auto
  moreover have "dl_phase s i = Fresh" using take by (simp add: history_inv_def)
  ultimately show ?case using take by - (rule deliver_weight_worker [of i s], simp_all add: receive_def worker_weight_def phase_weight_def)
next
  case (compute i msg s ws written world a)
  then show ?case
    by - (rule deliver_weight_worker [of i s], simp_all add: answered_def busy_def worker_weight_def phase_weight_def Let_def split: sum.splits)
next
  case (crash i msg s ws written world)
  then have "worker_weight s i = 4" by (simp add: busy_def worker_weight_def phase_weight_def)
  with crash have "0 < (\<Sum>i<length (wp_workers (dl_pool s)). worker_weight s i)" by (auto simp: busy_def intro!: sum_pos2 [where i = i])
  with crash show ?case by (auto simp: deliver_weight_def busy_def)
next
  case (reply i msg resp s)
  then show ?case by - (rule deliver_weight_worker [of i s], simp_all add: reply_written_def busy_def worker_weight_def phase_weight_def)
next
  case (reply_error i msg resp s)
  then show ?case by - (rule deliver_weight_worker [of i s], simp_all add: reply_failed_def busy_def worker_weight_def phase_weight_def)
next
  case (retain i msg resp s)
  then show ?case by - (rule deliver_weight_worker [of i s], simp_all add: retained_def busy_def worker_weight_def phase_weight_def)
next
  case (finish i msg s)
  then show ?case by - (rule deliver_weight_worker [of i s], simp_all add: finish_def busy_def worker_weight_def phase_weight_def)
qed

lemma deliver_live_step: "deliver_live c s \<Longrightarrow> deliver_work sys pb opts h s t \<Longrightarrow> deliver_live c t"
  using deliver_work_pool [of sys pb opts h s t] pool_work_live history_inv_work unfolding deliver_live_def by metis

lemma deliver_stuck:
  assumes "deliver_live c s" "\<And>t. \<not> deliver_work sys pb opts h s t"
  shows "dl_crashed s \<or> Wait_returns (dl_pool s)"
proof (cases "dl_crashed s")
  case up: False
  have "\<not> busy i msg ph s" for i msg ph
  proof
    assume b: "busy i msg ph s"
    show False
    proof (cases ph)
      case Fresh
      with b assms(2) show False using deliver_work.compute deliver_work.crash by (metis not_None_eq)
    next
      case (Replying resp)
      with b assms(2) show False using deliver_work.reply by blast
    next
      case (Retaining resp)
      with b assms(2) show False using deliver_work.retain by blast
    next
      case Over
      with b assms(2) show False using deliver_work.finish by blast
    qed
  qed
  then have idle: "wp_workers (dl_pool s) ! i \<noteq> Busy msg" if "i < length (wp_workers (dl_pool s))" for i msg using that up by (auto simp: busy_def)
  have "\<not> pool_work (dl_pool s) p" for p
  proof
    assume "pool_work (dl_pool s) p"
    then show False
    proof (cases rule: pool_work.cases)
      case (send k)
      with assms(2) deliver_work.send [OF up] show False by blast
    next
      case (take i)
      with assms(2) deliver_work.take [OF up] show False by blast
    next
      case (serve i m)
      with idle show False by blast
    next
      case (quit i)
      with assms(1) show False by (simp add: deliver_live_def live_inv_def)
    qed
  qed
  with assms(1) show ?thesis by (auto simp: deliver_live_def intro: pool_stuck)
qed simp

interpretation answering: terminating_system "deliver_live c" "deliver_work sys pb opts h" "deliver_live c" deliver_weight "\<lambda>s. dl_crashed s \<or> Wait_returns (dl_pool s)"
  for c sys pb opts h
proof unfold_locales
  show "deliver_live c s \<Longrightarrow> deliver_live c s" for s .
  show "deliver_live c s \<Longrightarrow> deliver_work sys pb opts h s t \<Longrightarrow> deliver_live c t" for s t by (rule deliver_live_step)
  show "deliver_live c s \<Longrightarrow> deliver_work sys pb opts h s t \<Longrightarrow> deliver_weight t < deliver_weight s" for s t
    using deliver_weight_step by (auto simp: deliver_live_def)
  show "deliver_live c s \<Longrightarrow> (\<And>t. \<not> deliver_work sys pb opts h s t) \<Longrightarrow> dl_crashed s \<or> Wait_returns (dl_pool s)" for s by (rule deliver_stuck)
qed

lemma deliver_weight_bound:
  assumes "pool_inv c (dl_pool s)"
  shows "int (deliver_weight s) \<le> 6 * wp_inProgress (dl_pool s)"
proof -
  let ?ws = "wp_workers (dl_pool s)"
  have "worker_weight s i \<le> 4 * length (job (?ws ! i))" for i by (simp add: worker_weight_def phase_weight_def split: phase.splits)
  then have "(\<Sum>i<length ?ws. worker_weight s i) \<le> 4 * (\<Sum>i<length ?ws. length (job (?ws ! i)))" unfolding sum_distrib_left by (intro sum_mono) simp
  also have "(\<Sum>i<length ?ws. length (job (?ws ! i))) = size (jobs (dl_pool s))"
    by (simp add: jobs_def length_concat sum_list_sum_nth atLeast0LessThan)
  finally have "int (deliver_weight s) \<le> int (6 * (length (wp_sending (dl_pool s)) + length (wp_msgs (dl_pool s)) + size (jobs (dl_pool s))))"
    unfolding of_nat_le_iff by (simp add: deliver_weight_def)
  also have "\<dots> = 6 * wp_inProgress (dl_pool s)" using assms by (simp add: pool_inv_def)
  finally show ?thesis .
qed

text \<open>C26: A request that was read gets its answer. As long as the context of the pool lives and no panic takes the process down, the goroutines of a pool with at least one of them make at most six
  steps per request in progress, however their steps interleave and whether the writes to the gateway succeed or fail, and they stop only when every request has been answered.\<close>

theorem requests_get_answers:
  assumes "(deliver_step sys pb opts h)\<^sup>*\<^sup>* (new_delivery c) s" "c > 0" "\<not> wp_cancelled (dl_pool s)"
  shows "(\<forall>n t. (deliver_work sys pb opts h ^^ n) s t \<longrightarrow> int n \<le> 6 * wp_inProgress (dl_pool s)) \<and>
    (\<forall>t. (deliver_work sys pb opts h)\<^sup>*\<^sup>* s t \<and> (\<nexists>u. deliver_work sys pb opts h t u) \<and> \<not> dl_crashed t \<longrightarrow>
       Wait_returns (dl_pool t) \<and> mset (map fst (dl_answers t)) = mset (wp_added (dl_pool t)))"
proof (intro conjI allI impI)
  have inv: "history_inv s" using delivery.reached_inv [OF refl assms(1)] by (simp add: deliver_inv_def)
  have "pool_step\<^sup>*\<^sup>* (NewWorkerPool c) (dl_pool s)" using served.run_simulates [OF assms(1)] by (simp add: new_delivery_def)
  then have pool: "pool_inv c (dl_pool s)" by (rule pool.reached_inv [OF refl])
  with inv assms(2,3) have live: "deliver_live c s" by (simp add: deliver_live_def live_inv_def)
  show "int n \<le> 6 * wp_inProgress (dl_pool s)" if "(deliver_work sys pb opts h ^^ n) s t" for n t
    using answering.run_length [OF that live] deliver_weight_bound [OF pool] by simp
  fix t assume t: "(deliver_work sys pb opts h)\<^sup>*\<^sup>* s t \<and> (\<nexists>u. deliver_work sys pb opts h t u) \<and> \<not> dl_crashed t"
  then have live': "deliver_live c t" using answering.run_inv [OF _ live] by blast
  then show waits: "Wait_returns (dl_pool t)" using t deliver_stuck by blast
  from live' have "history_inv t" "pool_inv c (dl_pool t)" by (simp_all add: deliver_live_def live_inv_def)
  with waits show "mset (map fst (dl_answers t)) = mset (wp_added (dl_pool t))"
    using no_jobs_no_phases(1) pool_inv_drained by (metis add.right_neutral history_inv_def)
qed

theorem requests_get_answers_witness:
  "\<nexists>t. (deliver_work sample_sys sample_proto sample_opts (sample_handler None) ^^ 7) ((new_delivery 2)\<lparr>dl_pool := add_begin sample_message (NewWorkerPool 2)\<rparr>) t"
proof -
  let ?s = "(new_delivery 2)\<lparr>dl_pool := add_begin sample_message (NewWorkerPool 2)\<rparr>"
  have "deliver_step sample_sys sample_proto sample_opts (sample_handler None) (new_delivery 2) ?s"
    using deliver_step.request [of "new_delivery 2"] by (simp add: new_delivery_def)
  from requests_get_answers [OF r_into_rtranclp [of "deliver_step sample_sys sample_proto sample_opts (sample_handler None)", OF this]]
  have "\<forall>n t. (deliver_work sample_sys sample_proto sample_opts (sample_handler None) ^^ n) ?s t \<longrightarrow> n \<le> 6" by (simp add: add_begin_def NewWorkerPool_def)
  from this [rule_format, of 7] show ?thesis by fastforce
qed

end
