(* ===== verification/ExampleApps.thy ===== *)
theory ExampleApps
  imports StepGroups RunLoop
begin

text \<open>
  The two example programs of the repository as clients of the model: the durable function \<open>AccountCreated\<close> of \<open>examples/http/main.go\<close>
  and the worker of \<open>examples/connect/main.go\<close>.

  The world of the first is the number of HTTP requests it has made: \<open>get n\<close> is how the n-th one ends and \<open>clock n\<close> the time \<open>time.Now\<close> returns
  after it. \<open>parse\<close> stands for \<open>time.Parse\<close>. What the programs print is left out.
\<close>

section \<open>Values\<close>

record TodoItem =
  td_ID :: int
  td_UserID :: int
  td_Title :: string
  td_Completed :: bool

text \<open>An event; the data of its type is kept as the JSON it encodes to.\<close>

record typed_event =
  te_ID :: "string option"
  te_Name :: string
  te_Data :: json
  te_User :: json
  te_Timestamp :: int
  te_Version :: string

text \<open>The values the functions handle: nil, a todo item behind a pointer, an event, and any other value as the JSON it encodes to.\<close>

datatype goval = VNil | VTodo TodoItem | VEvent typed_event | VAny json

definition todo_of :: "(string \<times> json) list \<Rightarrow> TodoItem" where
  "todo_of kvs =
     (let int_of = (\<lambda>f. fold (\<lambda>v i. case v of JNum t \<Rightarrow> (case Atoi t of Some n \<Rightarrow> n | None \<Rightarrow> i) | _ \<Rightarrow> i) (members f kvs) 0)
      in \<lparr>td_ID = int_of ''id'', td_UserID = int_of ''userId'',
          td_Title = fold (\<lambda>v s. case v of JStr t \<Rightarrow> t | _ \<Rightarrow> s) (members ''title'' kvs) [],
          td_Completed = fold (\<lambda>v b. case v of JBool c \<Rightarrow> c | _ \<Rightarrow> b) (members ''bool'' kvs) False\<rparr>)"

definition decode_todo :: "json \<Rightarrow> TodoItem \<times> bool" where
  "decode_todo j = (case j of
     JObj kvs \<Rightarrow> (todo_of kvs, int_field ''id'' kvs \<noteq> None \<and> int_field ''userId'' kvs \<noteq> None \<and> string_field ''title'' kvs \<noteq> None \<and>
       bool_field ''bool'' kvs \<noteq> None)
   | JNull \<Rightarrow> (todo_of [], True)
   | _ \<Rightarrow> (todo_of [], False))"

definition todo_json :: "TodoItem \<Rightarrow> json" where
  "todo_json t = JObj [(''id'', JNum (Itoa (td_ID t))), (''userId'', JNum (Itoa (td_UserID t))), (''title'', JStr (td_Title t)),
     (''bool'', JBool (td_Completed t))]"

definition todo_ptr :: "goval gotype" where
  "todo_ptr = \<lparr>zero = VNil,
     decode = (\<lambda>j. if j = JNull then (VNil, True) else case decode_todo j of (t, ok) \<Rightarrow> (VTodo t, ok)),
     marshal = (\<lambda>v. case v of VTodo t \<Rightarrow> Some (todo_json t) | _ \<Rightarrow> Some JNull), kind = KPtr,
     decode_elem = (\<lambda>j. case decode_todo j of (t, ok) \<Rightarrow> (VTodo t, ok))\<rparr>"

definition any_type :: "goval gotype" where
  "any_type = \<lparr>zero = VNil, decode = (\<lambda>j. (if j = JNull then VNil else VAny j, True)),
     marshal = (\<lambda>v. case v of VAny j \<Rightarrow> Some j | VTodo t \<Rightarrow> Some (todo_json t) | _ \<Rightarrow> Some JNull), kind = KInterface,
     decode_elem = (\<lambda>j. (VNil, False))\<rparr>"

text \<open>The event types: \<open>data\<close> decodes the member \<open>data\<close> of an event. A failed decoding leaves a value that the tools do not look at.\<close>

definition id_data :: "string \<Rightarrow> (string \<times> json) list \<Rightarrow> json option" where
  "id_data f kvs = do { ms \<leftarrow> struct_field ''data'' kvs; s \<leftarrow> string_field f ms; Some (JObj [(f, JStr s)]) }"

definition any_data :: "(string \<times> json) list \<Rightarrow> json option" where
  "any_data kvs = Some (case raw_field ''data'' kvs of Some j \<Rightarrow> j | None \<Rightarrow> JNull)"

definition zero_typed_event :: typed_event where
  "zero_typed_event = \<lparr>te_ID = None, te_Name = [], te_Data = JNull, te_User = JNull, te_Timestamp = 0, te_Version = []\<rparr>"

definition decode_event :: "((string \<times> json) list \<Rightarrow> json option) \<Rightarrow> (string \<times> json) list \<Rightarrow> typed_event option" where
  "decode_event data kvs =
     do { i \<leftarrow> string_field ''id'' kvs;
          n \<leftarrow> string_field ''name'' kvs;
          dt \<leftarrow> data kvs;
          ts \<leftarrow> int_field ''ts'' kvs;
          v \<leftarrow> string_field ''v'' kvs;
          Some \<lparr>te_ID = (case raw_field ''id'' kvs of None \<Rightarrow> None | Some JNull \<Rightarrow> None | _ \<Rightarrow> Some i), te_Name = n, te_Data = dt,
            te_User = (case raw_field ''user'' kvs of Some u \<Rightarrow> u | None \<Rightarrow> JNull), te_Timestamp = ts, te_Version = v\<rparr> }"

definition event_type_of :: "((string \<times> json) list \<Rightarrow> json option) \<Rightarrow> goval gotype" where
  "event_type_of data = \<lparr>zero = VEvent zero_typed_event,
     decode = (\<lambda>j. case j of
         JObj kvs \<Rightarrow> (case decode_event data kvs of Some e \<Rightarrow> (VEvent e, True) | None \<Rightarrow> (VEvent zero_typed_event, False))
       | JNull \<Rightarrow> (VEvent zero_typed_event, True)
       | _ \<Rightarrow> (VEvent zero_typed_event, False)),
     marshal = (\<lambda>v. case v of
         VEvent e \<Rightarrow> Some (JObj ((case te_ID e of Some i \<Rightarrow> [(''id'', JStr i)] | None \<Rightarrow> []) @ [(''name'', JStr (te_Name e)), (''data'', te_Data e)] @
           (if te_User e = JNull then [] else [(''user'', te_User e)]) @ (if te_Timestamp e = 0 then [] else [(''ts'', JNum (Itoa (te_Timestamp e)))]) @
           (if te_Version e = [] then [] else [(''v'', JStr (te_Version e))])))
       | _ \<Rightarrow> Some JNull),
     kind = KOther, decode_elem = (\<lambda>j. (VNil, False))\<rparr>"

section \<open>examples/http\<close>

definition retry_layouts :: "string list" where
  "retry_layouts = [''Mon, 02 Jan 2006 15:04:05 MST'', ''Monday, 02-Jan-06 15:04:05 MST'', ''Mon Jan _2 15:04:05 2006'', ''2006-01-02T15:04:05Z07:00'']"

text \<open>The delay in seconds is used when the conversion failed.\<close>

definition parseRetryAfter :: "(string \<Rightarrow> string \<Rightarrow> gotime option) \<Rightarrow> gotime \<Rightarrow> string \<Rightarrow> gotime" where
  "parseRetryAfter parse now input =
     (case find_first (\<lambda>format. parse format input) retry_layouts of
        Some t \<Rightarrow> t
      | None \<Rightarrow> (case Atoi input of
           None \<Rightarrow> time_Add now (wrap64 (Atoi_value input * Second))
         | Some delay \<Rightarrow> \<lparr>isec = 0, nsec = 0\<rparr>))"

record http_answer =
  ha_RetryAfter :: string
  ha_Body :: string

text \<open>The decoder reads the first value of the body.\<close>

definition first_value :: "string \<Rightarrow> json option" where
  "first_value s = map_option fst (parse_value (3 * length s + 3) s)"

definition fetch_result :: "(string \<Rightarrow> string \<Rightarrow> gotime option) \<Rightarrow> gotime \<Rightarrow> goerr + http_answer \<Rightarrow> goval \<times> goerr option" where
  "fetch_result parse now reply = (case reply of
     Inl err \<Rightarrow> (VNil, Some err)
   | Inr resp \<Rightarrow>
       (let retryAfter = parseRetryAfter parse now (ha_RetryAfter resp)
        in if \<not> IsZero retryAfter then (VNil, Some (RetryAtError (Some (Errorf ''rate-limited'' [])) retryAfter))
           else case first_value (ha_Body resp) of
             None \<Rightarrow> (VTodo (todo_of []), Some json_error)
           | Some j \<Rightarrow> (case decode_todo j of (item, ok) \<Rightarrow> (VTodo item, if ok then None else Some json_error))))"

definition fetch_todo :: "(string \<Rightarrow> string \<Rightarrow> gotime option) \<Rightarrow> (nat \<Rightarrow> gotime) \<Rightarrow> (nat \<Rightarrow> goerr + http_answer) \<Rightarrow> (nat, goval) prog" where
  "fetch_todo parse clock get = PAct Suc (\<lambda>n. case fetch_result parse (clock n) (get n) of (v, err) \<Rightarrow> PReturn v err)"

definition loadUser :: "int \<Rightarrow> goval \<times> goerr option" where
  "loadUser i = (VNil, None)"

definition activity_opts :: WaitForEventOpts where
  "activity_opts = \<lparr>we_Name = ''Wait for a function to be created'', we_Event = ''api/function.created'', we_Timeout = 72 * 60 * Minute,
     we_If = Some ''event.data.user_id == async.data.user_id''\<rparr>"

definition AccountCreated ::
  "(string \<Rightarrow> string \<Rightarrow> gotime option) \<Rightarrow> (nat \<Rightarrow> gotime) \<Rightarrow> (nat \<Rightarrow> goerr + http_answer) \<Rightarrow> goval Input \<Rightarrow> (nat, goval) prog" where
  "AccountCreated parse clock get input =
     PSleep ''initial-delay'' Second
       (PRun ''fetch todo'' todo_ptr (fetch_todo parse clock get) (\<lambda>(result, err).
          case (result, err) of
            (VTodo item, None) \<Rightarrow>
              PRun ''load todo author'' any_type (case loadUser (td_UserID item) of (v, e) \<Rightarrow> PReturn v e) (\<lambda>_.
                PWait (event_type_of (id_data ''FunctionID'')) ''wait-for-activity'' activity_opts (\<lambda>(fn, err).
                  if err = Some (Sentinel ErrEventNotReceived)
                  then PRun ''follow-up-email'' any_type (PReturn (VAny (JBool True)) None) (\<lambda>_. PReturn VNil None)
                  else PReturn VNil None))
          | _ \<Rightarrow> PReturn VNil err))"

definition account_fn ::
  "(string \<Rightarrow> string \<Rightarrow> gotime option) \<Rightarrow> (nat \<Rightarrow> gotime) \<Rightarrow> (nat \<Rightarrow> goerr + http_answer) \<Rightarrow> (nat, goval) servableFunc option" where
  "account_fn parse clock get = CreateFunction
     (no_opts\<lparr>fo_ID := ''account-created'', fo_Name := ''Account creation flow'', fo_Retries := Some 5\<rparr>)
     (EventTrigger ''api/account.created'' None) (ConcreteType (event_type_of (id_data ''AccountID''))) (AccountCreated parse clock get)"

text \<open>The handler that \<open>main\<close> serves.\<close>

definition http_main :: "(string \<Rightarrow> string) \<Rightarrow> (nat, goval) servableFunc option \<Rightarrow> (nat, goval) handler" where
  "http_main slugMake f = Register slugMake (\<lambda>fs. fs) (case f of Some f \<Rightarrow> [f] | None \<Rightarrow> []) (NewHandler ''billing'' no_handler_opts)"

section \<open>examples/connect\<close>

definition testRun :: "goval Input \<Rightarrow> (nat, goval) prog" where
  "testRun input = PReturn (VAny (JStr ''Connected!!'')) None"

definition connect_fn :: "(nat, goval) servableFunc option" where
  "connect_fn = CreateFunction (no_opts\<lparr>fo_ID := ''conntest'', fo_Name := ''connect test''\<rparr>) (EventTrigger ''test/connect.run'' None)
     (ConcreteType (event_type_of any_data)) testRun"

definition connect_handler :: "(string \<Rightarrow> string) \<Rightarrow> (nat, goval) handler" where
  "connect_handler slugMake = Register slugMake (\<lambda>fs. fs) (case connect_fn of Some f \<Rightarrow> [f] | None \<Rightarrow> [])
     (NewHandler ''connect-test'' (no_handler_opts\<lparr>ho_Logger := True, ho_SigningKey := Some ''signkey-test-12345678'', ho_Dev := Some True\<rparr>))"

definition connect_main :: "goval sys \<Rightarrow> (goerr + Opts) outcome" where
  "connect_main sys = handler_Connect sys (connect_handler (sy_slugMake sys))
     \<lparr>cp_InstanceID = Some ''example-worker'', cp_RewriteGatewayEndpoint = None, cp_MaxConcurrency = 0\<rparr>"

section \<open>The keys of the first two steps\<close>

lemma sha1_initial_delay: "sha1 ''initial-delay'' = concat (map be_bytes32 [0x7cb17eab, 0x922c8a2f, 0x8a6fcfaa, 0xb769aa60, 0x7bd0ceb3])"
proof -
  have "blocks16 (words32 (sha_pad ''initial-delay'')) = [[0x696e6974, 0x69616c2d, 0x64656c61, 0x79800000, 0, 0, 0, 0, 0, 0, 0, 0, 0, 0, 0, 0x68]]"
    by code_simp
  moreover have "sha1_block [0x67452301, 0xefcdab89, 0x98badcfe, 0x10325476, 0xc3d2e1f0] [0x696e6974, 0x69616c2d, 0x64656c61, 0x79800000, 0, 0, 0, 0, 0, 0, 0, 0, 0, 0, 0, 0x68] = [0x7cb17eab, 0x922c8a2f, 0x8a6fcfaa, 0xb769aa60, 0x7bd0ceb3]"
    by (simp add: sha1_eval del: sha1_round.simps)
  ultimately show ?thesis by (simp add: sha1_def)
qed

lemma sha1_fetch_todo: "sha1 ''fetch todo'' = concat (map be_bytes32 [0x613e7e58, 0x54f6332b, 0x50f56375, 0x3c364016, 0x2e3dd5ca])"
proof -
  have "blocks16 (words32 (sha_pad ''fetch todo'')) = [[0x66657463, 0x6820746f, 0x646f8000, 0, 0, 0, 0, 0, 0, 0, 0, 0, 0, 0, 0, 0x50]]"
    by code_simp
  moreover have "sha1_block [0x67452301, 0xefcdab89, 0x98badcfe, 0x10325476, 0xc3d2e1f0] [0x66657463, 0x6820746f, 0x646f8000, 0, 0, 0, 0, 0, 0, 0, 0, 0, 0, 0, 0, 0x50] = [0x613e7e58, 0x54f6332b, 0x50f56375, 0x3c364016, 0x2e3dd5ca]"
    by (simp add: sha1_eval del: sha1_round.simps)
  ultimately show ?thesis by (simp add: sha1_def)
qed

lemma example_keys: "distinct (map key_hash [(''initial-delay'', 0), (''fetch todo'', 0)])"
proof -
  have "concat (map be_bytes32 [0x7cb17eab, 0x922c8a2f, 0x8a6fcfaa, 0xb769aa60, 0x7bd0ceb3]) \<noteq>
      concat (map be_bytes32 [0x613e7e58, 0x54f6332b, 0x50f56375, 0x3c364016, 0x2e3dd5ca])" by code_simp
  then show ?thesis by (simp add: key_hash_def MustHash_def Hash_def hash_input_def hex_encode_inject sha1_initial_delay sha1_fetch_todo)
qed

section \<open>Properties\<close>

text \<open>A response without the header counts as rate limited: the conversion of the empty text fails, and that is when the delay is used.\<close>

lemma parseRetryAfter_absent:
  "(\<And>layout. parse layout [] = None) \<Longrightarrow> valid_time now \<Longrightarrow> parseRetryAfter parse now [] = now"
  by (simp add: parseRetryAfter_def retry_layouts_def Atoi_def Atoi_value_def Atoi_sign_def is_int64_def)

lemma parseRetryAfter_seconds:
  "(\<And>layout. parse layout (Itoa s) = None) \<Longrightarrow> is_int64 s \<Longrightarrow> IsZero (parseRetryAfter parse now (Itoa s))"
  by (simp add: parseRetryAfter_def retry_layouts_def Atoi_Itoa IsZero_def)

definition plain_web :: "(string \<Rightarrow> string \<Rightarrow> gotime option) \<Rightarrow> (nat \<Rightarrow> gotime) \<Rightarrow> (nat \<Rightarrow> goerr + http_answer) \<Rightarrow> bool" where
  "plain_web parse clock get \<longleftrightarrow> (\<forall>layout. parse layout [] = None) \<and>
     (\<forall>n. valid_time (clock n) \<and> \<not> IsZero (clock n) \<and> (\<exists>body. get n = Inr \<lparr>ha_RetryAfter = [], ha_Body = body\<rparr>))"

lemma fetch_todo_limited:
  assumes "plain_web parse clock get"
  shows "body_run (fetch_todo parse clock get) n = (Some (VNil, Some (RetryAtError (Some (Errorf ''rate-limited'' [])) (clock n))), Suc n)"
proof -
  from assms obtain body where "get n = Inr \<lparr>ha_RetryAfter = [], ha_Body = body\<rparr>" "valid_time (clock n)" "\<not> IsZero (clock n)"
    unfolding plain_web_def by blast
  with assms parseRetryAfter_absent [of parse "clock n"] show ?thesis by (simp add: fetch_todo_def fetch_result_def plain_web_def)
qed

lemma attempts_limited:
  assumes "plain_web parse clock get"
  shows "attempts (Suc A) (fetch_todo parse clock get) n = Some ((VNil, Some ''rate-limited''), n + Suc A)"
proof (induction A arbitrary: n)
  case 0
  show ?case by (simp add: fetch_todo_limited [OF assms] reportable_def RetryAtError_def err_simps)
next
  case (Suc A)
  then show ?case by (subst attempts.simps) (simp add: fetch_todo_limited [OF assms] reportable_def RetryAtError_def err_simps)
qed

text \<open>What the step does with an answer that is not taken for a rate limit.\<close>

definition decoded :: "string \<Rightarrow> goval \<times> goerr option" where
  "decoded body = (case first_value body of
     None \<Rightarrow> (VTodo (todo_of []), Some json_error)
   | Some j \<Rightarrow> (case decode_todo j of (item, ok) \<Rightarrow> (VTodo item, if ok then None else Some json_error)))"

lemma fetch_seconds:
  assumes "\<forall>layout. parse layout (Itoa s) = None" "is_int64 s"
  shows "fetch_result parse now (Inr \<lparr>ha_RetryAfter = Itoa s, ha_Body = body\<rparr>) = decoded body"
  using parseRetryAfter_seconds [of parse s now] assms by (simp add: fetch_result_def decoded_def)

text \<open>C33: The example gets its retry header the wrong way round. When the service it calls answers without a \<open>Retry-After\<close> header, every attempt of the
  step takes the answer for a rate limit; after the last attempt the function ends with the step's error, having made one request per
  attempt. A number of seconds in the header, on the other hand (which no time layout parses), is ignored: the step decodes the body as if there were no limit.\<close>

theorem AccountCreated_never_fetches:
  assumes "plain_web parse clock get" "rq_Steps req = Map.empty"
  shows "(\<exists>n e. drive n (Suc A) env d stack (AccountCreated parse clock get input) req 0 k = Some ((VNil, Some (StepErr e)), k + Suc A) \<and>
      se_Message e = ''rate-limited'') \<and>
    (\<forall>s now body. is_int64 s \<and> (\<forall>layout. parse layout (Itoa s) = None) \<longrightarrow>
       fetch_result parse now (Inr \<lparr>ha_RetryAfter = Itoa s, ha_Body = body\<rparr>) = decoded body)"
proof (intro conjI allI impI)
  let ?e = "\<lparr>se_Name = ''Step failed'', se_Message = ''rate-limited'', se_Data = Some JNull\<rparr>" and ?p = "AccountCreated parse clock get input"
  have "durable ?p"
    by (auto simp: AccountCreated_def fetch_todo_def loadUser_def split: goval.splits option.splits prod.splits)
  moreover have "direct ?p (Suc A) env (\<lambda>_. 0) k = Some ((VNil, Some (StepErr ?e)), k + Suc A, [(''initial-delay'', 0), (''fetch todo'', 0)])"
    by (simp add: AccountCreated_def attempts_limited [OF assms(1)] seen_def todo_ptr_def unmarshal_def del: attempts.simps)
  ultimately obtain n where "drive n (Suc A) env d stack ?p req 0 k = Some ((VNil, Some (StepErr ?e)), k + Suc A)"
    using drive_direct [where req = req and p = ?p and A = "Suc A" and env = env and w = k, OF reach.start] example_keys assms(2) by fastforce
  then show "\<exists>n e. drive n (Suc A) env d stack ?p req 0 k = Some ((VNil, Some (StepErr e)), k + Suc A) \<and> se_Message e = ''rate-limited''"
    by (intro exI [of _ n] exI [of _ ?e]) simp
  show "fetch_result parse now (Inr \<lparr>ha_RetryAfter = Itoa s, ha_Body = body\<rparr>) = decoded body"
    if "is_int64 s \<and> (\<forall>layout. parse layout (Itoa s) = None)" for s now body
    using that by (intro fetch_seconds) auto
qed

theorem AccountCreated_never_fetches_witness:
  "(\<exists>n e. drive n 6 (\<lambda>_. JNull) (\<lambda>_. []) [] (AccountCreated (\<lambda>_ _. None) (\<lambda>n. \<lparr>isec = 5, nsec = 0\<rparr>)
       (\<lambda>_. Inr \<lparr>ha_RetryAfter = [], ha_Body = ''{}''\<rparr>) undefined) zero_Request 0 0 = Some ((VNil, Some (StepErr e)), 6)) \<and>
   fetch_result (\<lambda>_ _. None) \<lparr>isec = 5, nsec = 0\<rparr> (Inr \<lparr>ha_RetryAfter = Itoa 120, ha_Body = ''{}''\<rparr>) = decoded ''{}''"
  using AccountCreated_never_fetches [of "\<lambda>_ _. None" "\<lambda>n. \<lparr>isec = 5, nsec = 0\<rparr>" "\<lambda>_. Inr \<lparr>ha_RetryAfter = [], ha_Body = ''{}''\<rparr>" zero_Request 5
      "\<lambda>_. JNull" "\<lambda>_. []" "[]" undefined 0]
  by (auto simp: plain_web_def valid_time_def IsZero_def is_int64_def Second_def zero_Request_def)

text \<open>The worker of the other example starts, unless the environment has a fallback key that cannot be hashed.\<close>

lemma connect_handler_simps:
  assumes "connect_fn = Some f"
  shows "h_funcs (connect_handler m) = [f]" "h_appName (connect_handler m) = ''connect-test''"
    "ho_SigningKey (h_opts (connect_handler m)) = Some ''signkey-test-12345678''" "ho_SigningKeyFallback (h_opts (connect_handler m)) = None"
  unfolding connect_handler_def assms by (simp_all add: Register_def NewHandler_def slug_map_def no_handler_opts_def)

lemma connect_main_starts:
  assumes "sy_env sys ''INNGEST_SIGNING_KEY_FALLBACK'' = []"
  shows "\<exists>copts ch. connect_main sys = Returned (Inr copts) \<and> co_MaxConcurrency copts = 1000 \<and> Connect_handler copts = Inr ch"
proof -
  have "hex_decode (normalizeKey ''signkey-test-12345678'') \<noteq> None" by code_simp
  then obtain k where k: "hashedSigningKey ''signkey-test-12345678'' = Inr k" by (auto simp: hashedSigningKey_def Let_def)
  obtain f where f: "connect_fn = Some f" "sf_trigger f = EventTrigger ''test/connect.run'' None"
    by (simp add: connect_fn_def CreateFunction_def)
  note h = connect_handler_simps [OF f(1)]
  have "\<exists>t. config_trigger (sf_trigger f) = Some t" by (simp add: f(2) config_trigger_def EventTrigger_def)
  then obtain cs where "createFunctionConfigs (sy_slugMake sys) ''connect-test'' [f] connectPlaceholder True = Returned (Inr cs)"
    by (auto simp: createFunctionConfigs_def Let_def)
  moreover have "GetSigningKey (sy_env sys) (h_opts (connect_handler m)) = ''signkey-test-12345678''"
    "GetSigningKeyFallback (sy_env sys) (h_opts (connect_handler m)) = []" for m
    using assms by (simp_all add: GetSigningKey_def GetSigningKeyFallback_def h)
  ultimately obtain copts where c: "connect_main sys = Returned (Inr copts)" "co_HashedSigningKey copts = k" "co_MaxConcurrency copts = 1000"
    using k by (simp add: connect_main_def handler_Connect_def h defaultMaxWorkerConcurrency_def Let_def)
  from Connect_succeeds [of copts] hashedSigningKey_ne [OF k] c show ?thesis by blast
qed

end
