(* ===== verification/Spec2Isabelle.thy ===== *)
theory Spec2Isabelle
  imports Durable StepGroups SyncProps Client Reconnect Delivery ExampleApps
begin

text \<open>
  A verification development for inngestgo, the Go SDK of Inngest.

  \<^bold>\<open>The program.\<close> A Go process defines functions made of steps. A service calls a function over HTTP (or over a websocket, in connect mode) again and
  again; every call replays the steps whose results the service already has, executes at most one new step, and reports it. The parts are: the step
  tools (\<open>step/\<close>, \<open>experimental/group\<close>) and the invocation manager (\<open>internal/sdkrequest\<close>) that numbers operations and holds the state of one
  call; \<open>invoke\<close> of \<open>handler.go\<close>, which runs a function and turns the panics of the step tools into operations; the HTTP handler
  (\<open>handler.go\<close>), which checks signatures (\<open>signature.go\<close>), registers functions with the service and serves calls; the event client (\<open>client.go\<close>,
  \<open>event.go\<close>); and the connect worker (\<open>connect/\<close>), which keeps a websocket to a gateway, runs requests and buffers their responses.

  \<^bold>\<open>Library.\<close>
  \<^item> \<open>Prelude\<close>, \<open>GoStd\<close>, \<open>GoUrl\<close>, \<open>GoTime\<close>, \<open>GoCrypto\<close>, \<open>GoJson\<close>: shared lemmas, and the parts of Go's standard library the SDK rests on as
    executable functions (64-bit wrap-around, decimal and hexadecimal text, URLs and query strings, time, SHA-1, SHA-256, HMAC, JSON).

  \<^bold>\<open>Components.\<close>
  \<^item> \<open>Errors\<close> (\<open>errors/errors.go\<close>): error values, \<open>errors.Is\<close> and \<open>errors.As\<close> on wrapped errors.
  \<^item> \<open>Env\<close> (\<open>consts.go\<close>, \<open>headers.go\<close>, \<open>env.go\<close>, \<open>platform.go\<close>): constants, headers, environment, the response writer.
  \<^item> \<open>Signature\<close> (\<open>signature.go\<close>): which requests are accepted, round trips of signing and validation, expiry, key fallback.
  \<^item> \<open>Manager\<close> (\<open>internal/sdkrequest\<close>): the state of a call; numbering of operations and their keys.
  \<^item> \<open>Steps\<close> (\<open>step/*.go\<close>, \<open>experimental/group/group.go\<close>): the step tools, state-passing over the manager and the world, with the control-flow panic as a result.
  \<^item> \<open>Program\<close>: function bodies as trees over the step tools, and the contracts (locales) that every tool satisfies.
  \<^item> \<open>Funcs\<close> (\<open>funcs.go\<close>), \<open>Invoke\<close> (\<open>invoke\<close> of \<open>handler.go\<close>): a call of a function; at most one step executes, every reported operation is
    well formed, progress.
  \<^item> \<open>Replay\<close>, \<open>Durable\<close>: the service as it answers the reports of a call, what an uninterrupted run of a function is, and that repeated calls refine it, with
    groups of steps that are planned and then executed by calls that target one of them, and in both modes of the service. \<open>StepGroups\<close>: replay, step errors, parallel groups.
  \<^item> \<open>Net\<close> (\<open>net.go\<close>), \<open>Handler\<close>, \<open>Sync\<close>, \<open>Serve\<close>, \<open>SyncProps\<close> (\<open>handler.go\<close>): options, registry, registration, serving; authentication, status codes.
  \<^item> \<open>Client\<close> (\<open>client.go\<close>, \<open>event.go\<close>): events and their delivery.
  \<^item> \<open>Buffer\<close> (\<open>connect/buffer.go\<close>): responses that wait for an acknowledgement or for the API; every method and every turn of a timeout goroutine is an atomic
    step. A response that was handed over, and is the only one for its request ID, is held until it was acknowledged or the API accepted it.
  \<^item> \<open>Worker\<close> (\<open>connect/invoke.go\<close>, \<open>connect.go\<close>): one request, from its acknowledgement to its buffered response; agreement with the HTTP handler
    in status, body and retry headers.
  \<^item> \<open>Pool\<close> (\<open>connect/worker_pool.go\<close>): the worker pool as a step relation; every request is served once (a partition of what was added), waiting ends, what cancellation breaks.
  \<^item> \<open>Connection\<close> (\<open>connect/connection.go\<close>, \<open>handshake.go\<close>, \<open>workerapi.go\<close>): one connection, from the start request to its report, with the operations of other goroutines on the buffer between its reads; requests reach the pool,
    responses outlive the connection, a message leaves the buffer only when the API took it, when heartbeats keep a connection, how a draining gateway is left.
  \<^item> \<open>Delivery\<close>: pool, goroutines, buffer, acknowledgements and flushes as one system of interleaving steps that refines the pool; every request is answered once, what a
    shutdown delivers, and the request handler as one of its runs.
  \<^item> \<open>RunLoop\<close> (\<open>connect/handler.go\<close>): the run loop, \<open>Connect\<close> and \<open>Close\<close> as goroutines; invariants, key fallback, what a
    lost connection leads to, and how \<open>Connect\<close> can hang. \<open>Reconnect\<close>: a start without a service ends, and a started worker whose connection is lost never reconnects.
    This theory adds that the options of the handler always start a worker whose pool drains.
  \<^item> \<open>ExampleApps\<close> (\<open>examples/\<close>): the two example programs as clients of the model; the keys of their steps by evaluation of SHA-1.

  \<^bold>\<open>Interfaces.\<close> \<open>Manager\<close> states the numbering of operations as the locale \<open>op_numbering\<close>; \<open>Program\<close> states what every step tool guarantees as the locales \<open>action_post\<close>
  and \<open>parallel_post\<close>, interpreted for at-most-one execution, progress, single operations and their form; \<open>Prelude\<close> has \<open>inductive_invariant\<close>, \<open>terminating_system\<close> and
  \<open>simulation\<close>, which \<open>Pool\<close>, \<open>Delivery\<close>, \<open>RunLoop\<close> and \<open>Reconnect\<close> interpret on their step relations.

  \<^bold>\<open>State.\<close> The state of a call is the manager with the cancellation flag and a world \<open>'w\<close> that the bodies of steps change; a handler is its options and functions; a worker is the
  record \<open>system\<close>, its requests in progress the record \<open>delivery\<close>. Go's panics are values of \<open>outcome\<close>; errors are values of \<open>goerr\<close>.

  \<^bold>\<open>Parameters.\<close> Code of other packages is an argument of the definitions that use it: JCS canonicalization, slugs, duration texts, protobuf and the JSON encodings of
  foreign types, the HTTP client, the websocket, the order in which Go iterates over a map, the clock and the process environment.

  \<^bold>\<open>Fuel.\<close> \<open>json_parse\<close> gives its parser three units per byte and three more; every call of the parser consumes a byte or one of the three
  nested functions, so it never runs out on a text it could accept.

  \<^bold>\<open>Bounds.\<close> Integers wrap at 64 bits where the code computes with them (\<open>wrap64\<close>); a flush makes five passes, the run loop five attempts, as in the code.

  \<^bold>\<open>Simplified.\<close> \<open>url_String\<close> leaves out the escaping of hosts and the cases of \<open>net/url\<close> for paths that would read as a scheme or keep an alternative encoding; the matching of JSON field names
  folds ASCII letters only; the position of an operation is a natural number without wrap-around; the keys of replacement connections are not followed.

  \<^bold>\<open>Not modelled.\<close> The scheduler (a connection's ending by a missed heartbeat or a drain is an input of it; when the checks cancel the reader and how long the hand-over waits are functions of their own),
  the heartbeats the worker sends, failures to read or write an HTTP body, logging, the contents of stack traces, user functions that recover the panics of the step tools or start goroutines (a function is a value of \<open>prog\<close>), reflection (a type is its decoder
  and encoder), what the example programs print and their waiting loops, tests, vendored packages.
\<close>

section \<open>From the handler to a running worker\<close>

text \<open>C27: The options the handler's \<open>Connect\<close> passes on always start a worker: its first connection is not refused for want of a key, it calls the API at the URL the handler is
  configured with, and, as long as the caller's context lives, its pool finishes all requests whatever was added to it, so that a shutdown
  that waits for them can return. The \<open>Env\<close> option is passed on as it is: every API request names exactly that environment, so without the option none is named, whatever \<open>INNGEST_ENV\<close> says, although
  the option's documentation promises that variable, which \<open>GetEnv\<close> uses for registration over HTTP.\<close>

theorem worker_starts:
  assumes "handler_Connect sys h opts = Returned (Inr copts)"
  shows "\<exists>ch :: 'm connectHandler. Connect_handler copts = Inr ch \<and> loop_inv copts (ch_system ch) \<and>
    ac_apiBaseUrl (ch_apiClient ch) = GetAPIBaseURL (sy_env sys) (h_opts h) \<and>
    (\<forall>p. pool_step\<^sup>*\<^sup>* (ch_workerPool ch) p \<and> \<not> wp_cancelled p \<longrightarrow> (\<exists>p'. pool_work\<^sup>*\<^sup>* p p' \<and> Wait_returns p')) \<and>
    (\<forall>path key body req. api_request (ch_apiClient ch) path key body = Some req \<longrightarrow>
       map_of (hq_Header req) (CanonicalHeaderKey ''X-Inngest-Env'') = ho_Env (h_opts h)) \<and>
    (ho_Env (h_opts h) = None \<longrightarrow> GetEnv (sy_env sys) (h_opts h) = sy_env sys ''INNGEST_ENV'')"
proof -
  have key: "hashedSigningKey (GetSigningKey (sy_env sys) (h_opts h)) = Inr (co_HashedSigningKey copts)" and conc: "nat (co_MaxConcurrency copts) > 0"
    and cfg: "co_Env copts = ho_Env (h_opts h)" "co_APIBaseUrl copts = GetAPIBaseURL (sy_env sys) (h_opts h)"
    using assms by (auto simp: handler_Connect_def Let_def defaultMaxWorkerConcurrency_def split: outcome.splits sum.splits if_splits)
  obtain ch :: "'m connectHandler" where ch: "Connect_handler copts = Inr ch" "Connect_start copts = Inr (ch_system ch)"
    "ch_workerPool ch = NewWorkerPool (nat (co_MaxConcurrency copts))" "ch_apiClient ch = newWorkerApiClient (co_APIBaseUrl copts) (co_Env copts)"
    using Connect_succeeds [OF hashedSigningKey_ne [OF key]] by blast
  have pool: "\<exists>p'. pool_work\<^sup>*\<^sup>* p p' \<and> Wait_returns p'" if "pool_step\<^sup>*\<^sup>* (ch_workerPool ch) p" "\<not> wp_cancelled p" for p
    using that conc pool_drains unfolding ch(3) by blast
  have "ac_apiBaseUrl (ch_apiClient ch) = GetAPIBaseURL (sy_env sys) (h_opts h)"
    by (simp add: ch(4) cfg newWorkerApiClient_def)
  moreover have "map_of (hq_Header req) (CanonicalHeaderKey ''X-Inngest-Env'') = ho_Env (h_opts h)"
    if "api_request (ch_apiClient ch) path k body = Some req" for path k body req
    using api_request_env [OF that] by (simp add: ch(4) cfg newWorkerApiClient_def)
  moreover have "GetEnv (sy_env sys) (h_opts h) = sy_env sys ''INNGEST_ENV''" if "ho_Env (h_opts h) = None" using that by (simp add: GetEnv_def)
  ultimately show ?thesis using ch(1) loop_inv_start [OF ch(2)] pool by (intro exI [of _ ch] conjI) auto
qed

theorem worker_starts_witness:
  "\<exists>copts ch p'. handler_Connect worker_sys (sample_handler (Some True)) worker_copts = Returned (Inr copts) \<and> Connect_handler copts = Inr ch \<and>
     pool_work\<^sup>*\<^sup>* (add_begin (7 :: nat) (ch_workerPool ch)) p' \<and> Wait_returns p'"
proof -
  obtain copts where c: "handler_Connect worker_sys (sample_handler (Some True)) worker_copts = Returned (Inr copts)" using sample_handler_connects ..
  from worker_starts [OF c] obtain ch :: "nat connectHandler" where ch: "Connect_handler copts = Inr ch"
    and w: "pool_step\<^sup>*\<^sup>* (ch_workerPool ch) p \<Longrightarrow> \<not> wp_cancelled p \<Longrightarrow> \<exists>p'. pool_work\<^sup>*\<^sup>* p p' \<and> Wait_returns p'" for p by blast
  have "\<not> wp_cancelled (add_begin 7 (ch_workerPool ch))"
    using ch by (auto simp: Connect_handler_def NewWorkerPool_def add_begin_def split: sum.splits)
  with w [OF r_into_rtranclp [of pool_step, OF pool_step.add]] c ch show ?thesis by blast
qed

end
